theory Spec2Isabelle
  imports Complex_Main "HOL-Library.Multiset" "HOL-Library.AList"
begin

section \<open>Python values\<close>

text \<open>
  The two import scripts (\<^verbatim>\<open>scripts/fast-parallel-import.py\<close>, the parallel importer, and
  \<^verbatim>\<open>scripts/import-dynamodb-to-supabase.py\<close>, the sequential importer) work on the
  dynamically typed values of a DynamoDB scan response: dictionaries, lists, strings, bytes,
  booleans, \<^verbatim>\<open>None\<close> and \<^verbatim>\<open>decimal.Decimal\<close>, and they produce \<^verbatim>\<open>int\<close> and \<^verbatim>\<open>float\<close>.

  A finite \<^verbatim>\<open>Decimal\<close> is Python's triple of sign, coefficient and exponent: its value is
  \<open>(-1)^sign * coeff * 10^exp\<close>.  A dictionary is an association list in insertion order
  (Python's dictionaries have distinct keys; the keys of a DynamoDB item are strings).

  A \<^verbatim>\<open>float\<close> is written \<open>PFloat q\<close>, where \<open>q\<close> is the exact rational that was handed
  to \<^verbatim>\<open>float()\<close>: the rounding to binary64 is not modelled, so \<open>PFloat q\<close> stands for
  "the float nearest to \<open>q\<close>".
\<close>

datatype decimal = Dec (dsign: bool) (coeff: nat) (dexp: int)

datatype pyval =
    PNone
  | PBool bool
  | PInt int
  | PFloat rat
  | PStr string
  | PBytes string
  | PDecimal decimal
  | PList "pyval list"
  | PDict "(string \<times> pyval) list"

datatype py_error = InvalidOperation | TypeError | AttributeError | ValueError | KeyError | ZeroDivisionError

type_synonym item = "(string \<times> pyval) list"

text \<open>
  A list comprehension whose element expression may raise: the elements are evaluated from
  left to right and the first exception ends the comprehension.
\<close>

fun traverse :: "('a \<Rightarrow> py_error + 'b) \<Rightarrow> 'a list \<Rightarrow> py_error + 'b list" where
  "traverse f [] = Inr []"
| "traverse f (x # xs) =
     (case f x of
        Inl e \<Rightarrow> Inl e
      | Inr y \<Rightarrow> (case traverse f xs of Inl e \<Rightarrow> Inl e | Inr ys \<Rightarrow> Inr (y # ys)))"

lemma traverse_cong [fundef_cong]:
  "xs = ys \<Longrightarrow> (\<And>x. x \<in> set ys \<Longrightarrow> f x = g x) \<Longrightarrow> traverse f xs = traverse g ys"
  by (induction ys arbitrary: xs) (auto split: sum.splits)

text \<open>
  \<^verbatim>\<open>for x in v\<close>: a list yields its elements, a string its characters (as strings of
  length one), a dictionary its keys, a bytes object its bytes (as integers); nothing else
  among these values is iterable.
\<close>

fun py_iter :: "pyval \<Rightarrow> py_error + pyval list" where
  "py_iter (PList xs) = Inr xs"
| "py_iter (PStr s) = Inr (map (\<lambda>c. PStr [c]) s)"
| "py_iter (PDict kvs) = Inr (map (\<lambda>kv. PStr (fst kv)) kvs)"
| "py_iter (PBytes b) = Inr (map (\<lambda>c. PInt (of_char c)) b)"
| "py_iter v = Inl TypeError"


section \<open>The decimal module, as far as the decoders use it\<close>

subsection \<open>\<^verbatim>\<open>Decimal(s)\<close>: the numeric-string grammar\<close>

text \<open>
  \<^verbatim>\<open>Decimal(s)\<close> accepts an optional sign, then digits with an optional fractional part
  (at least one digit in all), then an optional exponent \<^verbatim>\<open>E[+-]digits\<close>; the result has the
  coefficient \<^verbatim>\<open>int(intpart + fracpart)\<close> and the exponent \<^verbatim>\<open>exp - len(fracpart)\<close>, with no
  rounding.  Any other string raises \<^verbatim>\<open>InvalidOperation\<close> (ConversionSyntax).

  The forms that Python accepts beyond this grammar and that are not DynamoDB numbers
  (surrounding whitespace, underscores, non-ASCII digits, \<^verbatim>\<open>Infinity\<close>, \<^verbatim>\<open>NaN\<close>) are not
  modelled: \<open>parse_decimal\<close> gives \<open>None\<close> for them, and every statement below about a
  number string assumes that \<open>parse_decimal\<close> accepts it.
\<close>

definition is_digit :: "char \<Rightarrow> bool" where
  "is_digit c = (c \<in> set ''0123456789'')"

definition digit_value :: "char \<Rightarrow> nat" where
  "digit_value c = of_char c - 48"

definition digits_value :: "string \<Rightarrow> nat" where
  "digits_value ds = foldl (\<lambda>a c. 10 * a + digit_value c) 0 ds"

fun split_sign :: "string \<Rightarrow> bool \<times> string" where
  "split_sign [] = (False, [])"
| "split_sign (c # cs) =
     (if c = CHR ''-'' then (True, cs)
      else if c = CHR ''+'' then (False, cs)
      else (False, c # cs))"

definition parse_decimal :: "string \<Rightarrow> decimal option" where
  "parse_decimal s =
     (let (sgn, body) = split_sign s;
          ip = takeWhile is_digit body;
          r1 = dropWhile is_digit body;
          fp = (case r1 of [] \<Rightarrow> [] | c # r \<Rightarrow> if c = CHR ''.'' then takeWhile is_digit r else []);
          r2 = (case r1 of [] \<Rightarrow> [] | c # r \<Rightarrow> if c = CHR ''.'' then dropWhile is_digit r else r1);
          co = digits_value (ip @ fp)
      in if ip = [] \<and> fp = [] then None
         else (case r2 of
                 [] \<Rightarrow> Some (Dec sgn co (- int (length fp)))
               | c # r3 \<Rightarrow>
                   if c = CHR ''e'' \<or> c = CHR ''E'' then
                     (let (esgn, ed) = split_sign r3
                      in if ed \<noteq> [] \<and> list_all is_digit ed
                         then Some (Dec sgn co
                                 ((if esgn then - int (digits_value ed) else int (digits_value ed))
                                   - int (length fp)))
                         else None)
                   else None))"

text \<open>
  \<^verbatim>\<open>Decimal(v)\<close> on a value: a string is parsed, an \<^verbatim>\<open>int\<close> (and a \<^verbatim>\<open>bool\<close>, which is an
  \<^verbatim>\<open>int\<close>) and a \<^verbatim>\<open>Decimal\<close> convert exactly, \<^verbatim>\<open>None\<close>, bytes and dictionaries raise
  \<^verbatim>\<open>TypeError\<close>.  A \<^verbatim>\<open>float\<close> and a (sign, digits, exponent) sequence, which Python also
  accepts, never occur under a number tag; the model answers \<^verbatim>\<open>TypeError\<close> for them too.
\<close>

fun Decimal :: "pyval \<Rightarrow> py_error + decimal" where
  "Decimal (PStr s) = (case parse_decimal s of None \<Rightarrow> Inl InvalidOperation | Some d \<Rightarrow> Inr d)"
| "Decimal (PInt i) = Inr (Dec (i < 0) (nat \<bar>i\<bar>) 0)"
| "Decimal (PBool b) = Inr (Dec False (if b then 1 else 0) 0)"
| "Decimal (PDecimal d) = Inr d"
| "Decimal v = Inl TypeError"

subsection \<open>\<^verbatim>\<open>num % 1 == 0\<close>, \<^verbatim>\<open>int(num)\<close> and \<^verbatim>\<open>float(num)\<close>\<close>

text \<open>
  \<^verbatim>\<open>num % 1\<close> is computed in the default context (precision 28, \<^verbatim>\<open>Emin = -999999\<close>).
  The operands are aligned to the smaller exponent and divided as integers,
  \<^verbatim>\<open>q, r = divmod(op1.int, op2.int)\<close>; a quotient of more than 28 digits raises
  \<^verbatim>\<open>InvalidOperation\<close> (DivisionImpossible).  The remainder \<open>r * 10^min(exp, 0)\<close> is then
  rounded to the context, which turns a non-zero remainder into zero only when it is at most
  half a unit of \<^verbatim>\<open>Etiny = Emin - 28 + 1 = -1000026\<close>.
\<close>

definition prec :: nat where
  "prec = 28"

definition Etiny_digits :: nat where
  "Etiny_digits = 1000026"

definition quotient_1 :: "decimal \<Rightarrow> nat" where
  "quotient_1 d = (if 0 \<le> dexp d then coeff d * 10 ^ nat (dexp d)
                   else coeff d div 10 ^ nat (- dexp d))"

definition remainder_1 :: "decimal \<Rightarrow> nat" where
  "remainder_1 d = (if 0 \<le> dexp d then 0 else coeff d mod 10 ^ nat (- dexp d))"

definition remainder_is_zero :: "nat \<Rightarrow> int \<Rightarrow> bool" where
  "remainder_is_zero r e = (r = 0 \<or> 2 * r * 10 ^ Etiny_digits \<le> 10 ^ nat (- e))"

definition mod_1_eq_0 :: "decimal \<Rightarrow> py_error + bool" where
  "mod_1_eq_0 d =
     (if 10 ^ prec \<le> quotient_1 d then Inl InvalidOperation
      else Inr (remainder_is_zero (remainder_1 d) (dexp d)))"

text \<open>\<^verbatim>\<open>int(num)\<close> truncates towards zero; \<^verbatim>\<open>float(num)\<close> converts the exact value.\<close>

definition int_of_decimal :: "decimal \<Rightarrow> int" where
  "int_of_decimal d = (if dsign d then - int (quotient_1 d) else int (quotient_1 d))"

definition decimal_value :: "decimal \<Rightarrow> rat" where
  "decimal_value d =
     (if dsign d then - 1 else 1) *
     (if 0 \<le> dexp d then of_nat (coeff d * 10 ^ nat (dexp d))
      else of_nat (coeff d) / of_nat (10 ^ nat (- dexp d)))"

definition float_of_decimal :: "decimal \<Rightarrow> pyval" where
  "float_of_decimal d = PFloat (decimal_value d)"

text \<open>\<^verbatim>\<open>int(num) if num % 1 == 0 else float(num)\<close>\<close>

definition int_or_float :: "decimal \<Rightarrow> py_error + pyval" where
  "int_or_float num =
     (case mod_1_eq_0 num of
        Inl e \<Rightarrow> Inl e
      | Inr z \<Rightarrow> Inr (if z then PInt (int_of_decimal num) else float_of_decimal num))"

text \<open>\<^verbatim>\<open>float(Decimal(n))\<close>, the element expression of the number-set branch.\<close>

definition float_Decimal :: "pyval \<Rightarrow> py_error + pyval" where
  "float_Decimal n = (case Decimal n of Inl e \<Rightarrow> Inl e | Inr d \<Rightarrow> Inr (float_of_decimal d))"


section \<open>The value decoders\<close>

text \<open>Size bounds for the termination proofs of the two decoders.\<close>

lemma size_map_of:
  "map_of d k = Some v \<Longrightarrow> size v + 2 \<le> size_list (size_prod (\<lambda>_. 0) size) d"
  by (induction d) (auto split: if_splits)

lemma size_list_mem: "x \<in> set xs \<Longrightarrow> size x < Suc (size_list size xs)"
  by (induction xs) auto

lemma size_py_iter:
  assumes "py_iter l = Inr ys" and "x \<in> set ys"
  shows "size x \<le> size l"
proof (cases l)
  case (PList xs)
  then show ?thesis using assms size_list_mem[of x xs] by auto
qed (use assms in auto)

lemma size_item_mem:
  "x \<in> set item \<Longrightarrow> size (snd x) < size_list (size_prod (\<lambda>_. 0) size) item"
proof (induction item)
  case Nil
  then show ?case by simp
next
  case (Cons kv item)
  then show ?case by (cases kv) auto
qed

subsection \<open>The sequential importer: \<^verbatim>\<open>convert_dynamodb_item\<close>, \<^verbatim>\<open>convert_dynamodb_value\<close>\<close>

text \<open>
  \<^verbatim>\<open>
  def convert_dynamodb_item(item):
      result = {}
      for key, value in item.items():
          result[key] = convert_dynamodb_value(value)
      return result

  def convert_dynamodb_value(value):
      if isinstance(value, dict):
          if 'S' in value: return value['S']
          elif 'N' in value:
              num = Decimal(value['N'])
              return int(num) if num % 1 == 0 else float(num)
          elif 'B' in value: return value['B']
          elif 'SS' in value: return value['SS']
          elif 'NS' in value: return [float(Decimal(n)) for n in value['NS']]
          elif 'BS' in value: return value['BS']
          elif 'M' in value: return convert_dynamodb_item(value['M'])
          elif 'L' in value: return [convert_dynamodb_value(item) for item in value['L']]
          elif 'NULL' in value: return None
          elif 'BOOL' in value: return value['BOOL']
          else:
              # Plain dict (already converted by boto3)
              return {k: convert_dynamodb_value(v) for k, v in value.items()}
      elif isinstance(value, list):
          return [convert_dynamodb_value(item) for item in value]
      elif isinstance(value, Decimal):
          return int(value) if value % 1 == 0 else float(value)
      return value
  \<close>
  The test \<^verbatim>\<open>'S' in value\<close> followed by \<^verbatim>\<open>value['S']\<close> is the lookup \<open>map_of d ''S''\<close>;
  \<^verbatim>\<open>value['M'].items()\<close> on anything but a dictionary raises \<^verbatim>\<open>AttributeError\<close>.
\<close>

function convert_dynamodb_item :: "item \<Rightarrow> py_error + item"
  and convert_dynamodb_value :: "pyval \<Rightarrow> py_error + pyval" where
  "convert_dynamodb_item item =
     traverse (\<lambda>kv. case convert_dynamodb_value (snd kv) of
                       Inl e \<Rightarrow> Inl e | Inr v \<Rightarrow> Inr (fst kv, v)) item"
| "convert_dynamodb_value (PDict d) =
     (case map_of d ''S'' of Some s \<Rightarrow> Inr s | None \<Rightarrow>
     (case map_of d ''N'' of
        Some n \<Rightarrow> (case Decimal n of Inl e \<Rightarrow> Inl e | Inr num \<Rightarrow> int_or_float num)
      | None \<Rightarrow>
     (case map_of d ''B'' of Some b \<Rightarrow> Inr b | None \<Rightarrow>
     (case map_of d ''SS'' of Some ss \<Rightarrow> Inr ss | None \<Rightarrow>
     (case map_of d ''NS'' of
        Some ns \<Rightarrow> (case py_iter ns of Inl e \<Rightarrow> Inl e
                    | Inr xs \<Rightarrow> map_sum id PList (traverse float_Decimal xs))
      | None \<Rightarrow>
     (case map_of d ''BS'' of Some bs \<Rightarrow> Inr bs | None \<Rightarrow>
     (case map_of d ''M'' of
        Some m \<Rightarrow> (case m of PDict md \<Rightarrow> map_sum id PDict (convert_dynamodb_item md)
                             | _ \<Rightarrow> Inl AttributeError)
      | None \<Rightarrow>
     (case map_of d ''L'' of
        Some l \<Rightarrow> (case py_iter l of Inl e \<Rightarrow> Inl e
                   | Inr xs \<Rightarrow> map_sum id PList (traverse convert_dynamodb_value xs))
      | None \<Rightarrow>
     (case map_of d ''NULL'' of Some _ \<Rightarrow> Inr PNone | None \<Rightarrow>
     (case map_of d ''BOOL'' of Some b \<Rightarrow> Inr b | None \<Rightarrow>
        map_sum id PDict
          (traverse (\<lambda>kv. case convert_dynamodb_value (snd kv) of
                             Inl e \<Rightarrow> Inl e | Inr v \<Rightarrow> Inr (fst kv, v)) d)))))))))))"
| "convert_dynamodb_value (PList xs) = map_sum id PList (traverse convert_dynamodb_value xs)"
| "convert_dynamodb_value (PDecimal value) = int_or_float value"
| "convert_dynamodb_value PNone = Inr PNone"
| "convert_dynamodb_value (PBool b) = Inr (PBool b)"
| "convert_dynamodb_value (PInt i) = Inr (PInt i)"
| "convert_dynamodb_value (PFloat x) = Inr (PFloat x)"
| "convert_dynamodb_value (PStr s) = Inr (PStr s)"
| "convert_dynamodb_value (PBytes b) = Inr (PBytes b)"
  by pat_completeness auto
termination
  apply (relation "measure (\<lambda>x. case x of
          Inl item \<Rightarrow> Suc (2 * size_list (size_prod (\<lambda>_. 0) size) item)
        | Inr v \<Rightarrow> 2 * size v)")
       apply simp
      apply (auto dest!: size_map_of size_item_mem dest: size_py_iter size_list_mem)
  done


subsection \<open>The parallel importer: \<^verbatim>\<open>convert_dynamodb_item\<close>\<close>

text \<open>
  \<^verbatim>\<open>
  def convert_dynamodb_item(item):
      result = {}
      for key, value in item.items():
          if isinstance(value, dict):
              if 'S' in value: result[key] = value['S']
              elif 'N' in value:
                  num = Decimal(value['N'])
                  result[key] = int(num) if num % 1 == 0 else float(num)
              elif 'BOOL' in value: result[key] = value['BOOL']
              elif 'NULL' in value: result[key] = None
              elif 'SS' in value: result[key] = value['SS']
              elif 'NS' in value: result[key] = [float(Decimal(n)) for n in value['NS']]
              elif 'M' in value: result[key] = convert_dynamodb_item(value['M'])
              elif 'L' in value: result[key] = [convert_dynamodb_item({'t': i})['t'] for i in value['L']]
              else: result[key] = value
          elif isinstance(value, Decimal):
              result[key] = int(value) if value % 1 == 0 else float(value)
          else:
              result[key] = value
      return result
  \<close>
  The function of the parallel importer is \<open>convert_dynamodb_item_fast\<close>; the body of its
  loop, which computes the value stored under \<^verbatim>\<open>result[key]\<close>, is \<open>convert_entry_fast\<close>.
\<close>

function convert_entry_fast :: "pyval \<Rightarrow> py_error + pyval"
  and convert_dynamodb_item_fast :: "item \<Rightarrow> py_error + item" where
  "convert_dynamodb_item_fast item =
     traverse (\<lambda>kv. case convert_entry_fast (snd kv) of
                       Inl e \<Rightarrow> Inl e | Inr v \<Rightarrow> Inr (fst kv, v)) item"
| "convert_entry_fast (PDict val) =
     (case map_of val ''S'' of Some s \<Rightarrow> Inr s | None \<Rightarrow>
     (case map_of val ''N'' of
        Some n \<Rightarrow> (case Decimal n of Inl e \<Rightarrow> Inl e | Inr num \<Rightarrow> int_or_float num)
      | None \<Rightarrow>
     (case map_of val ''BOOL'' of Some b \<Rightarrow> Inr b | None \<Rightarrow>
     (case map_of val ''NULL'' of Some _ \<Rightarrow> Inr PNone | None \<Rightarrow>
     (case map_of val ''SS'' of Some ss \<Rightarrow> Inr ss | None \<Rightarrow>
     (case map_of val ''NS'' of
        Some ns \<Rightarrow> (case py_iter ns of Inl e \<Rightarrow> Inl e
                    | Inr xs \<Rightarrow> map_sum id PList (traverse float_Decimal xs))
      | None \<Rightarrow>
     (case map_of val ''M'' of
        Some m \<Rightarrow> (case m of PDict md \<Rightarrow> map_sum id PDict (convert_dynamodb_item_fast md)
                             | _ \<Rightarrow> Inl AttributeError)
      | None \<Rightarrow>
     (case map_of val ''L'' of
        Some l \<Rightarrow> (case py_iter l of Inl e \<Rightarrow> Inl e
                   | Inr xs \<Rightarrow>
                       map_sum id PList
                         (traverse (\<lambda>i. case convert_dynamodb_item_fast [(''t'', i)] of
                                           Inl e \<Rightarrow> Inl e
                                         | Inr r \<Rightarrow> (case map_of r ''t'' of
                                                      None \<Rightarrow> Inl KeyError
                                                    | Some v \<Rightarrow> Inr v)) xs))
      | None \<Rightarrow> Inr (PDict val)))))))))"
| "convert_entry_fast (PDecimal val) = int_or_float val"
| "convert_entry_fast PNone = Inr PNone"
| "convert_entry_fast (PBool b) = Inr (PBool b)"
| "convert_entry_fast (PInt i) = Inr (PInt i)"
| "convert_entry_fast (PFloat x) = Inr (PFloat x)"
| "convert_entry_fast (PStr s) = Inr (PStr s)"
| "convert_entry_fast (PBytes b) = Inr (PBytes b)"
| "convert_entry_fast (PList xs) = Inr (PList xs)"
  by pat_completeness auto
termination
  apply (relation "measure (\<lambda>x. case x of
          Inr item \<Rightarrow> Suc (2 * size_list (size_prod (\<lambda>_. 0) size) item)
        | Inl v \<Rightarrow> 2 * size v)")
       apply simp
      apply (auto dest!: size_map_of size_item_mem dest: size_py_iter size_list_mem)
  done


subsection \<open>Tag names and plain values\<close>

text \<open>
  The ten tag names of the wire format, which are the keys that the sequential decoder tests,
  and the values that both decoders return as they are.
\<close>

definition known_tags :: "string list" where
  "known_tags = [''S'', ''N'', ''B'', ''SS'', ''NS'', ''BS'', ''M'', ''L'', ''NULL'', ''BOOL'']"

fun atom :: "pyval \<Rightarrow> bool" where
  "atom (PDict d) = False"
| "atom (PList xs) = False"
| "atom (PDecimal d) = False"
| "atom v = True"

text \<open>
  An untagged value is \<open>plain\<close> when no dictionary inside it has a tag name among its keys.
  \<open>tagged t v\<close> holds when \<open>t\<close> is the wire form of the untagged value \<open>v\<close> with every child
  tagged on its own: a string under \<^verbatim>\<open>S\<close>, a number under \<^verbatim>\<open>N\<close> as the string that
  \<^verbatim>\<open>Decimal\<close> reads back, a boolean under \<^verbatim>\<open>BOOL\<close>, \<^verbatim>\<open>None\<close> as \<^verbatim>\<open>{'NULL': True}\<close>, a list
  under \<^verbatim>\<open>L\<close> and a map under \<^verbatim>\<open>M\<close>, key by key.
\<close>

function plain :: "pyval \<Rightarrow> bool" where
  "plain (PDict d) =
     (list_all (\<lambda>k. map_of d k = None) known_tags \<and> list_all (\<lambda>kv. plain (snd kv)) d)"
| "plain (PList xs) = list_all plain xs"
| "plain PNone = True"
| "plain (PBool b) = True"
| "plain (PInt i) = True"
| "plain (PFloat x) = True"
| "plain (PStr s) = True"
| "plain (PBytes b) = True"
| "plain (PDecimal d) = True"
  by pat_completeness auto
termination
  by (relation "measure size") (auto dest: size_item_mem size_list_mem)

inductive tagged :: "pyval \<Rightarrow> pyval \<Rightarrow> bool" where
  tagged_S: "tagged (PDict [(''S'', PStr s)]) (PStr s)"
| tagged_N: "parse_decimal s = Some d \<Longrightarrow> tagged (PDict [(''N'', PStr s)]) (PDecimal d)"
| tagged_BOOL: "tagged (PDict [(''BOOL'', PBool b)]) (PBool b)"
| tagged_NULL: "tagged (PDict [(''NULL'', PBool True)]) PNone"
| tagged_L: "list_all2 tagged ts vs \<Longrightarrow> tagged (PDict [(''L'', PList ts)]) (PList vs)"
| tagged_M: "list_all2 (\<lambda>kt kv. fst kt = fst kv \<and> tagged (snd kt) (snd kv)) tm vm
             \<Longrightarrow> tagged (PDict [(''M'', PDict tm)]) (PDict vm)"

code_pred tagged .

section \<open>Batches\<close>

text \<open>
  Both importers cut the converted records into batches with the same loop:
  \<^verbatim>\<open>
  for i in range(0, len(converted), BATCH_SIZE):
      batch = converted[i:i + BATCH_SIZE]
      batch_num = (i // BATCH_SIZE) + 1
      total_batches = (len(converted) + BATCH_SIZE - 1) // BATCH_SIZE
  \<close>
  \<^verbatim>\<open>range(start, stop, step)\<close> raises \<^verbatim>\<open>ValueError\<close> for a zero step, counts upwards for a
  positive step and downwards for a negative one; a slice clamps its bounds to the list.
\<close>

function range_up :: "int \<Rightarrow> int \<Rightarrow> int \<Rightarrow> int list" where
  "range_up i stop step = (if 0 < step \<and> i < stop then i # range_up (i + step) stop step else [])"
  by pat_completeness auto
termination
  by (relation "measure (\<lambda>(i, stop, step). nat (stop - i))") auto

function range_down :: "int \<Rightarrow> int \<Rightarrow> int \<Rightarrow> int list" where
  "range_down i stop step =
     (if step < 0 \<and> stop < i then i # range_down (i + step) stop step else [])"
  by pat_completeness auto
termination
  by (relation "measure (\<lambda>(i, stop, step). nat (i - stop))") auto

definition py_range :: "int \<Rightarrow> int \<Rightarrow> int \<Rightarrow> py_error + int list" where
  "py_range start stop step =
     (if step = 0 then Inl ValueError
      else Inr (if 0 < step then range_up start stop step else range_down start stop step))"

definition py_slice :: "'a list \<Rightarrow> int \<Rightarrow> int \<Rightarrow> 'a list" where
  "py_slice xs i j =
     (let n = int (length xs);
          lo = (if i < 0 then max (n + i) 0 else min i n);
          hi = (if j < 0 then max (n + j) 0 else min j n)
      in take (nat (hi - lo)) (drop (nat lo) xs))"

text \<open>
  The constants of the parallel importer carry the suffix \<open>_fast\<close>.  Its batch size is the
  constant 100; the batch size of the sequential importer is set from the command line and
  is a parameter (\<open>bsize\<close>) of its functions.

  \<open>batch_of\<close> is the three assignments at the head of the loop body, \<open>plan_batches\<close> the
  sequence of their results over the whole range, and \<open>create_batches\<close> the list of tuples
  \<^verbatim>\<open>(batch_num, total_batches, supabase_table, batch, table_name)\<close> that the parallel
  importer builds from them.
\<close>

type_synonym batch_data = "int \<times> int \<times> string \<times> item list \<times> string"

definition BATCH_SIZE_fast :: int where
  "BATCH_SIZE_fast = 100"

definition RETRY_ATTEMPTS_fast :: nat where
  "RETRY_ATTEMPTS_fast = 2"

definition RETRY_ATTEMPTS :: nat where
  "RETRY_ATTEMPTS = 3"

fun records_of :: "batch_data \<Rightarrow> item list" where
  "records_of (batch_num, total_batches, supabase_table, records, table_name) = records"

definition batch_of :: "int \<Rightarrow> 'a list \<Rightarrow> int \<Rightarrow> int \<times> int \<times> 'a list" where
  "batch_of bsize converted i =
     (let batch = py_slice converted i (i + bsize);
          batch_num = (i div bsize) + 1;
          total_batches = (int (length converted) + bsize - 1) div bsize
      in (batch_num, total_batches, batch))"

definition plan_batches :: "int \<Rightarrow> 'a list \<Rightarrow> py_error + (int \<times> int \<times> 'a list) list" where
  "plan_batches bsize converted =
     (case py_range 0 (int (length converted)) bsize of
        Inl e \<Rightarrow> Inl e
      | Inr is \<Rightarrow> Inr (map (batch_of bsize converted) is))"

definition create_batches :: "string \<Rightarrow> string \<Rightarrow> item list \<Rightarrow> py_error + batch_data list" where
  "create_batches supabase_table table_name converted =
     (case plan_batches BATCH_SIZE_fast converted of
        Inl e \<Rightarrow> Inl e
      | Inr bs \<Rightarrow>
          Inr (map (\<lambda>(batch_num, total_batches, batch).
                      (batch_num, total_batches, supabase_table, batch, table_name)) bs))"

section \<open>The remote endpoint and the transfer workers\<close>

text \<open>
  The HTTP transport is outside the program: \<^verbatim>\<open>requests.post\<close> either returns a response
  with a status code and a text, or raises.  An \<open>endpoint\<close> gives the outcome of the \<open>k\<close>-th
  request of a run for the destination table and the record sent; every property below holds
  for all endpoints.  The delays (\<^verbatim>\<open>time.sleep\<close>) and the console output are not modelled.
\<close>

datatype response = Response (status_code: int) (response_text: string) | Raises string

type_synonym endpoint = "nat \<Rightarrow> string \<Rightarrow> item \<Rightarrow> response"

subsection \<open>The parallel importer: \<^verbatim>\<open>send_batch_to_supabase\<close>\<close>

text \<open>
  \<^verbatim>\<open>
  def send_batch_to_supabase(batch_data):
      batch_num, total_batches, supabase_table, records, table_name = batch_data
      results = {'success': 0, 'failed': 0, 'batch_num': batch_num}
      for record in records:
          payload = {'table': supabase_table, 'action': 'UPSERT', 'data': record}
          for attempt in range(RETRY_ATTEMPTS):
              try:
                  response = requests.post(...)
                  if response.status_code == 200:
                      results['success'] += 1
                      break
                  elif attempt == RETRY_ATTEMPTS - 1:
                      results['failed'] += 1
              except Exception as e:
                  if attempt == RETRY_ATTEMPTS - 1:
                      results['failed'] += 1
                  time.sleep(RETRY_DELAY)
      with progress_lock:
          key = table_name
          if key not in progress_stats:
              progress_stats[key] = {'completed': 0, 'total': total_batches, 'success': 0, 'failed': 0}
          progress_stats[key]['completed'] += 1
          progress_stats[key]['success'] += results['success']
          progress_stats[key]['failed'] += results['failed']
          if progress_stats[key]['completed'] % 10 == 0 or progress_stats[key]['completed'] == total_batches:
              pct = (progress_stats[key]['completed'] / total_batches * 100)
              print(...)
      return results
  \<close>
  The state of the two loops is the number of requests made so far and the counters.  The
  update of \<^verbatim>\<open>progress_stats\<close> runs under the lock, so it is one atomic step on the shared
  dictionary.  The percentage divides by \<^verbatim>\<open>total_batches\<close>: for a tuple whose total is 0 this
  raises \<^verbatim>\<open>ZeroDivisionError\<close> after the update has been made.
\<close>

record results =
  success :: nat
  failed :: nat
  of_batch :: int

fun attempt_loop_fast ::
  "endpoint \<Rightarrow> string \<Rightarrow> item \<Rightarrow> nat list \<Rightarrow> nat \<times> results \<Rightarrow> nat \<times> results" where
  "attempt_loop_fast post tbl rec [] (k, res) = (k, res)"
| "attempt_loop_fast post tbl rec (attempt # rest) (k, res) =
     (case post k tbl rec of
        Response status txt \<Rightarrow>
          if status = 200 then (Suc k, res\<lparr>success := success res + 1\<rparr>)
          else if attempt = RETRY_ATTEMPTS_fast - 1
            then attempt_loop_fast post tbl rec rest (Suc k, res\<lparr>failed := failed res + 1\<rparr>)
            else attempt_loop_fast post tbl rec rest (Suc k, res)
      | Raises e \<Rightarrow>
          attempt_loop_fast post tbl rec rest
            (Suc k, if attempt = RETRY_ATTEMPTS_fast - 1
                    then res\<lparr>failed := failed res + 1\<rparr> else res))"

fun record_loop_fast ::
  "endpoint \<Rightarrow> string \<Rightarrow> item list \<Rightarrow> nat \<times> results \<Rightarrow> nat \<times> results" where
  "record_loop_fast post tbl [] st = st"
| "record_loop_fast post tbl (rec # recs) st =
     record_loop_fast post tbl recs
       (attempt_loop_fast post tbl rec [0..<RETRY_ATTEMPTS_fast] st)"

record table_progress =
  completed :: nat
  total :: int
  p_success :: nat
  p_failed :: nat

type_synonym progress_stats = "string \<rightharpoonup> table_progress"

definition update_progress :: "int \<Rightarrow> results \<Rightarrow> table_progress option \<Rightarrow> table_progress" where
  "update_progress total_batches res entry =
     (let p = (case entry of
                 None \<Rightarrow> \<lparr>completed = 0, total = total_batches, p_success = 0, p_failed = 0\<rparr>
               | Some p \<Rightarrow> p)
      in p\<lparr>completed := completed p + 1,
            p_success := p_success p + success res,
            p_failed := p_failed p + failed res\<rparr>)"

definition send_batch_to_supabase ::
  "endpoint \<Rightarrow> batch_data \<Rightarrow> progress_stats \<Rightarrow> (py_error + results) \<times> progress_stats" where
  "send_batch_to_supabase post batch_data stats =
     (case batch_data of (batch_num, total_batches, supabase_table, records, table_name) \<Rightarrow>
        let res = snd (record_loop_fast post supabase_table records
                         (0, \<lparr>success = 0, failed = 0, of_batch = batch_num\<rparr>));
            p = update_progress total_batches res (stats table_name)
        in (if (completed p mod 10 = 0 \<or> int (completed p) = total_batches)
               \<and> total_batches = 0
            then Inl ZeroDivisionError else Inr res,
            stats(table_name \<mapsto> p)))"

subsection \<open>The sequential importer: \<^verbatim>\<open>send_to_supabase\<close>\<close>

text \<open>
  \<^verbatim>\<open>
  def send_to_supabase(supabase_table, records, dry_run=False):
      if dry_run:
          return {'success': True, 'dry_run': True, 'count': len(records)}
      results = {'success': 0, 'failed': 0, 'errors': []}
      for record in records:
          payload = {'table': supabase_table, 'action': 'UPSERT', 'data': record}
          for attempt in range(RETRY_ATTEMPTS):
              try:
                  response = requests.post(...)
                  if response.status_code == 200:
                      results['success'] += 1
                      break
                  else:
                      if attempt == RETRY_ATTEMPTS - 1:
                          results['failed'] += 1
                          results['errors'].append({'record_id': record.get('id', 'unknown'),
                              'status': response.status_code, 'error': response.text[:200]})
                      time.sleep(RETRY_DELAY)
              except Exception as e:
                  if attempt == RETRY_ATTEMPTS - 1:
                      results['failed'] += 1
                      results['errors'].append({'record_id': record.get('id', 'unknown'),
                                                'error': str(e)})
                  time.sleep(RETRY_DELAY)
      return results
  \<close>
  The result is one of two dictionaries: \<open>DryRun True True n\<close> is
  \<^verbatim>\<open>{'success': True, 'dry_run': True, 'count': n}\<close>, and \<open>Sent r\<close> is the dictionary of the
  counters and the error list.  The caller reads \<^verbatim>\<open>result.get('success', 0)\<close>, which is the
  boolean (\<open>Flag\<close>) of a dry-run result and the count (\<open>Count\<close>) of the other, and adds it to
  an integer: \<^verbatim>\<open>n + True\<close> is \<^verbatim>\<open>n + 1\<close>.
\<close>

datatype error_entry =
    StatusError pyval int string
  | ExceptionError pyval string

definition record_id :: "item \<Rightarrow> pyval" where
  "record_id rec = (case map_of rec ''id'' of None \<Rightarrow> PStr ''unknown'' | Some v \<Rightarrow> v)"

record send_results =
  s_success :: nat
  s_failed :: nat
  s_errors :: "error_entry list"

fun attempt_loop ::
  "endpoint \<Rightarrow> string \<Rightarrow> item \<Rightarrow> nat list \<Rightarrow> nat \<times> send_results \<Rightarrow> nat \<times> send_results" where
  "attempt_loop post tbl rec [] (k, res) = (k, res)"
| "attempt_loop post tbl rec (attempt # rest) (k, res) =
     (case post k tbl rec of
        Response status txt \<Rightarrow>
          if status = 200 then (Suc k, res\<lparr>s_success := s_success res + 1\<rparr>)
          else attempt_loop post tbl rec rest
                 (Suc k, if attempt = RETRY_ATTEMPTS - 1
                         then res\<lparr>s_failed := s_failed res + 1,
                                 s_errors := s_errors res
                                   @ [StatusError (record_id rec) status (take 200 txt)]\<rparr>
                         else res)
      | Raises e \<Rightarrow>
          attempt_loop post tbl rec rest
            (Suc k, if attempt = RETRY_ATTEMPTS - 1
                    then res\<lparr>s_failed := s_failed res + 1,
                            s_errors := s_errors res @ [ExceptionError (record_id rec) e]\<rparr>
                    else res))"

fun record_loop ::
  "endpoint \<Rightarrow> string \<Rightarrow> item list \<Rightarrow> nat \<times> send_results \<Rightarrow> nat \<times> send_results" where
  "record_loop post tbl [] st = st"
| "record_loop post tbl (rec # recs) st =
     record_loop post tbl recs (attempt_loop post tbl rec [0..<RETRY_ATTEMPTS] st)"

datatype send_result =
    DryRun bool bool nat
  | Sent send_results

definition send_to_supabase ::
  "endpoint \<Rightarrow> string \<Rightarrow> item list \<Rightarrow> bool \<Rightarrow> nat \<Rightarrow> nat \<times> send_result" where
  "send_to_supabase post supabase_table records dry_run k =
     (if dry_run then (k, DryRun True True (length records))
      else (let (k', res) = record_loop post supabase_table records
                              (k, \<lparr>s_success = 0, s_failed = 0, s_errors = []\<rparr>)
            in (k', Sent res)))"

datatype count_field = Count nat | Flag bool

fun get_success :: "send_result \<Rightarrow> count_field" where
  "get_success (DryRun s d c) = Flag s"
| "get_success (Sent res) = Count (s_success res)"

fun get_failed :: "send_result \<Rightarrow> count_field" where
  "get_failed (DryRun s d c) = Count 0"
| "get_failed (Sent res) = Count (s_failed res)"

fun get_errors :: "send_result \<Rightarrow> error_entry list" where
  "get_errors (DryRun s d c) = []"
| "get_errors (Sent res) = s_errors res"

fun int_add :: "int \<Rightarrow> count_field \<Rightarrow> int" where
  "int_add n (Count m) = n + int m"
| "int_add n (Flag b) = n + (if b then 1 else 0)"

subsection \<open>Outcome of an attempt\<close>

text \<open>
  An attempt succeeds when the request returns with the status 200; any other status and
  any exception is a failed attempt.
\<close>

fun succeeds :: "response \<Rightarrow> bool" where
  "succeeds (Response status txt) = (status = 200)"
| "succeeds (Raises e) = False"

text \<open>The entry that the sequential importer appends to its error list after the last attempt.\<close>

fun error_entry_of :: "item \<Rightarrow> response \<Rightarrow> error_entry" where
  "error_entry_of rec (Response status txt) = StatusError (record_id rec) status (take 200 txt)"
| "error_entry_of rec (Raises e) = ExceptionError (record_id rec) e"


section \<open>Scanning the source table\<close>

text \<open>
  \<^verbatim>\<open>
  items = []
  last_evaluated_key = None
  while True:
      scan_kwargs = {'TableName': table_name}
      if last_evaluated_key:
          scan_kwargs['ExclusiveStartKey'] = last_evaluated_key
      response = dynamodb.scan(**scan_kwargs)
      items.extend(response.get('Items', []))
      last_evaluated_key = response.get('LastEvaluatedKey')
      if not last_evaluated_key:
          break
  \<close>
  The source table is outside the program: a \<open>scanner\<close> answers the request with the given
  start key, the \<open>page\<close>-th of the scan, with a page or an exception.  The loop runs as long as
  the service returns a continuation key, possibly for ever: \<open>scan_pages\<close> is \<open>None\<close> when it
  does not end, and otherwise the number of requests made and the items or the exception.
  The same loop is written out in \<^verbatim>\<open>import_table_parallel\<close>.
\<close>

record scan_response =
  Items :: "item list"
  LastEvaluatedKey :: "item option"

type_synonym scanner = "item option \<Rightarrow> nat \<Rightarrow> py_error + scan_response"

type_synonym dynamodb = "string \<Rightarrow> string \<Rightarrow> scanner"

definition truthy_key :: "item option \<Rightarrow> bool" where
  "truthy_key k = (case k of None \<Rightarrow> False | Some d \<Rightarrow> d \<noteq> [])"

partial_function (option) scan_pages ::
  "scanner \<Rightarrow> item option \<Rightarrow> nat \<Rightarrow> item list \<Rightarrow> (nat \<times> (py_error + item list)) option" where
  "scan_pages scan last_evaluated_key page items =
     (case scan (if truthy_key last_evaluated_key then last_evaluated_key else None) page of
        Inl e \<Rightarrow> Some (Suc page, Inl e)
      | Inr response \<Rightarrow>
          if truthy_key (LastEvaluatedKey response)
          then scan_pages scan (LastEvaluatedKey response) (Suc page) (items @ Items response)
          else Some (Suc page, Inr (items @ Items response)))"

definition scan_dynamodb_table ::
  "dynamodb \<Rightarrow> string \<Rightarrow> string \<Rightarrow> (nat \<times> (py_error + item list)) option" where
  "scan_dynamodb_table dynamodb table_name region = scan_pages (dynamodb region table_name) None 0 []"

section \<open>Destination table names\<close>

text \<open>
  \<^verbatim>\<open>TABLE_MAPPINGS.get(table_name)\<close>, with the fallback
  \<^verbatim>\<open>table_name.replace('-', '_').lower()\<close> (on ASCII letters).
\<close>

definition TABLE_MAPPINGS :: "(string \<times> string) list" where
  "TABLE_MAPPINGS =
     [(''firespring-backdoor-actions-dev'', ''firespring_actions''),
      (''firespring-backdoor-extraction-jobs-dev'', ''firespring_extraction_jobs''),
      (''firespring-backdoor-network-state-dev'', ''firespring_network_state''),
      (''firespring-backdoor-searches-dev'', ''firespring_searches''),
      (''firespring-backdoor-segments-dev'', ''firespring_segments''),
      (''firespring-backdoor-traffic-sources-dev'', ''firespring_traffic_sources''),
      (''firespring-backdoor-visitors-dev'', ''firespring_visitors''),
      (''Lead-sqiqbtbugvfabolqwdt4rz3dla-NONE'', ''mmp_toledo_leads''),
      (''Lead-h6a66mxndnhc7h3o4kldil67oa-NONE'', ''mmp_toledo_leads''),
      (''Lead-sfyatimxznhd3nybi6mcbg5ipq-NONE'', ''mmp_toledo_leads''),
      (''Lead-x5u6a7nejrcfbjj6qld46eamai-NONE'', ''mmp_toledo_leads''),
      (''Lead-xllvnlnajffmznanpuyhq3pl6i-NONE'', ''mmp_toledo_leads''),
      (''toledo-consulting-dashboard-data'', ''toledo_dashboard'')]"

definition TABLE_MAPPINGS_fast :: "(string \<times> string) list" where
  "TABLE_MAPPINGS_fast =
     [(''firespring-backdoor-actions-dev'', ''firespring_actions''),
      (''firespring-backdoor-extraction-jobs-dev'', ''firespring_extraction_jobs''),
      (''firespring-backdoor-network-state-dev'', ''firespring_network_state''),
      (''firespring-backdoor-searches-dev'', ''firespring_searches''),
      (''firespring-backdoor-segments-dev'', ''firespring_segments''),
      (''firespring-backdoor-traffic-sources-dev'', ''firespring_traffic_sources''),
      (''firespring-backdoor-visitors-dev'', ''firespring_visitors''),
      (''Lead-sqiqbtbugvfabolqwdt4rz3dla-NONE'', ''mmp_toledo_leads'')]"

definition FIRESPRING_TABLES :: "string list" where
  "FIRESPRING_TABLES =
     [''firespring-backdoor-actions-dev'',
      ''firespring-backdoor-extraction-jobs-dev'',
      ''firespring-backdoor-network-state-dev'',
      ''firespring-backdoor-searches-dev'',
      ''firespring-backdoor-segments-dev'',
      ''firespring-backdoor-traffic-sources-dev'',
      ''firespring-backdoor-visitors-dev'']"

definition FIRESPRING_TABLES_fast :: "string list" where
  "FIRESPRING_TABLES_fast =
     [''firespring-backdoor-actions-dev'',
      ''firespring-backdoor-visitors-dev'',
      ''firespring-backdoor-extraction-jobs-dev'',
      ''firespring-backdoor-traffic-sources-dev'',
      ''firespring-backdoor-segments-dev'']"

definition LEAD_TABLES :: "string list" where
  "LEAD_TABLES =
     [''Lead-sqiqbtbugvfabolqwdt4rz3dla-NONE'',
      ''Lead-h6a66mxndnhc7h3o4kldil67oa-NONE'',
      ''Lead-sfyatimxznhd3nybi6mcbg5ipq-NONE'',
      ''Lead-x5u6a7nejrcfbjj6qld46eamai-NONE'',
      ''Lead-xllvnlnajffmznanpuyhq3pl6i-NONE'']"

definition lower_char :: "char \<Rightarrow> char" where
  "lower_char c = (let n = (of_char c :: nat) in if 65 \<le> n \<and> n \<le> 90 then char_of (n + 32) else c)"

definition derived_name :: "string \<Rightarrow> string" where
  "derived_name table_name =
     map lower_char (map (\<lambda>c. if c = CHR ''-'' then CHR ''_'' else c) table_name)"

definition supabase_table_of :: "string \<Rightarrow> string" where
  "supabase_table_of table_name =
     (case map_of TABLE_MAPPINGS table_name of
        None \<Rightarrow> derived_name table_name
      | Some t \<Rightarrow> if t = [] then derived_name table_name else t)"

definition supabase_table_of_fast :: "string \<Rightarrow> string" where
  "supabase_table_of_fast table_name =
     (case map_of TABLE_MAPPINGS_fast table_name of
        None \<Rightarrow> derived_name table_name
      | Some t \<Rightarrow> t)"

section \<open>The sequential importer: \<^verbatim>\<open>import_table\<close> and \<^verbatim>\<open>main\<close>\<close>

text \<open>
  \<^verbatim>\<open>
  def import_table(table_name, region, dry_run=False):
      supabase_table = TABLE_MAPPINGS.get(table_name)
      if not supabase_table:
          supabase_table = table_name.replace('-', '_').lower()
      raw_items = scan_dynamodb_table(table_name, region)
      if not raw_items:
          return {'table': table_name, 'total': 0, 'success': 0, 'failed': 0}
      converted_items = []
      for item in raw_items:
          converted = convert_dynamodb_item(item)
          converted['_source_table'] = table_name
          converted['_import_timestamp'] = time.strftime('%Y-%m-%dT%H:%M:%SZ', time.gmtime())
          converted_items.append(converted)
      total_success = 0
      total_failed = 0
      all_errors = []
      for i in range(0, len(converted_items), BATCH_SIZE):
          batch = converted_items[i:i + BATCH_SIZE]
          batch_num = (i // BATCH_SIZE) + 1
          total_batches = (len(converted_items) + BATCH_SIZE - 1) // BATCH_SIZE
          result = send_to_supabase(supabase_table, batch, dry_run)
          total_success += result.get('success', 0)
          total_failed += result.get('failed', 0)
          all_errors.extend(result.get('errors', []))
          time.sleep(0.1)
      summary = {'table': table_name, 'supabase_table': supabase_table,
                 'total': len(converted_items), 'success': total_success,
                 'failed': total_failed, 'errors': all_errors[:10]}
      return summary
  \<close>
  The record \<open>io\<close> counts the input and output done so far: the scan requests sent to
  DynamoDB and the upsert requests sent to the endpoint.  The clock reading \<open>now\<close> is a
  parameter.  \<open>NoItems\<close> is the summary of an empty table, \<open>ImportError\<close> the entry that
  \<^verbatim>\<open>main\<close> records for a table whose import raised.

  \<^verbatim>\<open>main\<close> sets \<^verbatim>\<open>BATCH_SIZE = args.batch_size\<close>, chooses the tables, imports each of them
  inside \<^verbatim>\<open>try ... except Exception\<close>, and returns \<^verbatim>\<open>0 if total_failed == 0 else 1\<close>; without
  a table it exits with status 1.
\<close>

record io =
  scans :: nat
  posts :: nat

datatype summary =
    NoItems string
  | Summary string string nat int int "error_entry list"
  | ImportError string py_error

fun summary_total :: "summary \<Rightarrow> int" where
  "summary_total (Summary t st n s f errs) = int n"
| "summary_total r = 0"

fun summary_success :: "summary \<Rightarrow> int" where
  "summary_success (Summary t st n s f errs) = s"
| "summary_success r = 0"

fun summary_failed :: "summary \<Rightarrow> int" where
  "summary_failed (Summary t st n s f errs) = f"
| "summary_failed r = 0"

definition add_metadata :: "string \<Rightarrow> string \<Rightarrow> item \<Rightarrow> item" where
  "add_metadata table_name now converted =
     AList.update ''_import_timestamp'' (PStr now)
       (AList.update ''_source_table'' (PStr table_name) converted)"

fun batch_loop ::
  "int \<Rightarrow> endpoint \<Rightarrow> string \<Rightarrow> item list \<Rightarrow> bool \<Rightarrow> int list
     \<Rightarrow> nat \<times> int \<times> int \<times> error_entry list \<Rightarrow> nat \<times> int \<times> int \<times> error_entry list" where
  "batch_loop bsize post supabase_table converted_items dry_run [] st = st"
| "batch_loop bsize post supabase_table converted_items dry_run (i # is)
       (k, total_success, total_failed, all_errors) =
     (let (batch_num, total_batches, batch) = batch_of bsize converted_items i;
          (k', result) = send_to_supabase post supabase_table batch dry_run k
      in batch_loop bsize post supabase_table converted_items dry_run is
           (k', int_add total_success (get_success result),
                int_add total_failed (get_failed result),
                all_errors @ get_errors result))"

definition import_table ::
  "int \<Rightarrow> dynamodb \<Rightarrow> endpoint \<Rightarrow> string \<Rightarrow> string \<Rightarrow> string \<Rightarrow> bool \<Rightarrow> io
     \<Rightarrow> (io \<times> (py_error + summary)) option" where
  "import_table bsize dynamodb post now table_name region dry_run w =
     (case scan_dynamodb_table dynamodb table_name region of
        None \<Rightarrow> None
      | Some (n, scanned) \<Rightarrow>
          Some (let w1 = w\<lparr>scans := scans w + n\<rparr>;
                    supabase_table = supabase_table_of table_name
                in case scanned of
                     Inl e \<Rightarrow> (w1, Inl e)
                   | Inr raw_items \<Rightarrow>
                       if raw_items = [] then (w1, Inr (NoItems table_name))
                       else
                         (case traverse (\<lambda>item. map_sum id (add_metadata table_name now)
                                                  (convert_dynamodb_item item)) raw_items of
                            Inl e \<Rightarrow> (w1, Inl e)
                          | Inr converted_items \<Rightarrow>
                              (case py_range 0 (int (length converted_items)) bsize of
                                 Inl e \<Rightarrow> (w1, Inl e)
                               | Inr is \<Rightarrow>
                                   (let (k, total_success, total_failed, all_errors) =
                                          batch_loop bsize post supabase_table converted_items
                                            dry_run is (posts w1, 0, 0, [])
                                    in (w1\<lparr>posts := k\<rparr>,
                                        Inr (Summary table_name supabase_table
                                               (length converted_items) total_success
                                               total_failed (take 10 all_errors))))))))"

fun import_loop ::
  "int \<Rightarrow> dynamodb \<Rightarrow> endpoint \<Rightarrow> string \<Rightarrow> string \<Rightarrow> bool \<Rightarrow> string list
     \<Rightarrow> io \<times> summary list \<Rightarrow> (io \<times> summary list) option" where
  "import_loop bsize dynamodb post now region dry_run [] st = Some st"
| "import_loop bsize dynamodb post now region dry_run (t # tables) (w, results) =
     (case import_table bsize dynamodb post now t region dry_run w of
        None \<Rightarrow> None
      | Some (w', Inr result) \<Rightarrow>
          import_loop bsize dynamodb post now region dry_run tables (w', results @ [result])
      | Some (w', Inl e) \<Rightarrow>
          import_loop bsize dynamodb post now region dry_run tables
            (w', results @ [ImportError t e]))"

record args =
  arg_table :: "string option"
  arg_region :: string
  arg_all_firespring :: bool
  arg_all_leads :: bool
  arg_dry_run :: bool
  arg_batch_size :: int

definition exit_code :: "int list \<Rightarrow> int" where
  "exit_code faileds = (if sum_list faileds = 0 then 0 else 1)"

definition main :: "dynamodb \<Rightarrow> endpoint \<Rightarrow> string \<Rightarrow> args \<Rightarrow> (io \<times> int \<times> summary list) option" where
  "main dynamodb post now a =
     (let run = (\<lambda>tables_to_import region.
                   case import_loop (arg_batch_size a) dynamodb post now region (arg_dry_run a)
                          tables_to_import (\<lparr>scans = 0, posts = 0\<rparr>, []) of
                     None \<Rightarrow> None
                   | Some (w, results) \<Rightarrow>
                       Some (w, exit_code (map summary_failed results), results));
          usage = Some (\<lparr>scans = 0, posts = 0\<rparr>, 1, [])
      in if arg_all_firespring a then run FIRESPRING_TABLES ''us-east-1''
         else if arg_all_leads a then run LEAD_TABLES ''us-east-2''
         else (case arg_table a of
                 None \<Rightarrow> usage
               | Some t \<Rightarrow> if t = [] then usage else run [t] (arg_region a)))"

section \<open>The parallel importer: \<^verbatim>\<open>import_table_parallel\<close> and \<^verbatim>\<open>main\<close>\<close>

text \<open>
  \<^verbatim>\<open>
  def import_table_parallel(table_name, region, num_workers):
      supabase_table = TABLE_MAPPINGS.get(table_name, table_name.replace('-', '_').lower())
      ... the scan loop ...
      if not items:
          return {'table': table_name, 'total': 0, 'success': 0, 'failed': 0}
      converted = []
      for item in items:
          conv = convert_dynamodb_item(item)
          converted.append(conv)
      batches = []
      for i in range(0, len(converted), BATCH_SIZE):
          ...
          batches.append((batch_num, total_batches, supabase_table, batch, table_name))
      total_success = 0
      total_failed = 0
      with ThreadPoolExecutor(max_workers=num_workers) as executor:
          futures = [executor.submit(send_batch_to_supabase, batch) for batch in batches]
          for future in as_completed(futures):
              try:
                  result = future.result()
                  total_success += result['success']
                  total_failed += result['failed']
              except Exception as e:
                  total_failed += BATCH_SIZE
      return {'table': table_name, 'supabase_table': supabase_table, 'total': len(converted),
              'success': total_success, 'failed': total_failed, ...}
  \<close>
  \<^verbatim>\<open>ThreadPoolExecutor(max_workers=n)\<close> raises \<^verbatim>\<open>ValueError\<close> for \<open>n \<le> 0\<close>.  The workers run
  concurrently; each makes its own requests (the endpoint of batch \<open>n\<close> is \<open>post n\<close>) and
  then updates the shared dictionary under the lock.  The model runs them one after the other
  in the order \<open>schedule batches\<close> in which they complete, where \<open>schedule\<close> is any
  rearrangement of the batches.  \<open>collect_results\<close> is the loop over the completed futures:
  a future holds the result of its worker or the exception that ended it.  The state threaded
  through the importer is the number of scan requests and the dictionary \<^verbatim>\<open>progress_stats\<close>.
\<close>

datatype summary_fast =
    NoItems_fast string
  | Summary_fast string string nat int int
  | ImportError_fast string py_error

fun summary_failed_fast :: "summary_fast \<Rightarrow> int" where
  "summary_failed_fast (Summary_fast t st n s f) = f"
| "summary_failed_fast r = 0"

fun run_workers ::
  "(int \<Rightarrow> endpoint) \<Rightarrow> batch_data list \<Rightarrow> progress_stats
     \<Rightarrow> (py_error + results) list \<times> progress_stats" where
  "run_workers post [] stats = ([], stats)"
| "run_workers post (b # bs) stats =
     (let (out, stats') = send_batch_to_supabase (post (fst b)) b stats;
          (outs, stats'') = run_workers post bs stats'
      in (out # outs, stats''))"

fun collect_results :: "(py_error + results) list \<Rightarrow> int \<times> int \<Rightarrow> int \<times> int" where
  "collect_results [] totals = totals"
| "collect_results (Inr result # futures) (total_success, total_failed) =
     collect_results futures
       (total_success + int (success result), total_failed + int (failed result))"
| "collect_results (Inl e # futures) (total_success, total_failed) =
     collect_results futures (total_success, total_failed + BATCH_SIZE_fast)"

definition import_table_parallel ::
  "dynamodb \<Rightarrow> (int \<Rightarrow> endpoint) \<Rightarrow> (batch_data list \<Rightarrow> batch_data list)
     \<Rightarrow> string \<Rightarrow> string \<Rightarrow> int \<Rightarrow> nat \<times> progress_stats
     \<Rightarrow> ((nat \<times> progress_stats) \<times> (py_error + summary_fast)) option" where
  "import_table_parallel dynamodb post schedule table_name region num_workers w =
     (case scan_dynamodb_table dynamodb table_name region of
        None \<Rightarrow> None
      | Some (n, scanned) \<Rightarrow>
          Some (let supabase_table = supabase_table_of_fast table_name;
                    w1 = (fst w + n, snd w)
                in case scanned of
                     Inl e \<Rightarrow> (w1, Inl e)
                   | Inr items \<Rightarrow>
                       if items = [] then (w1, Inr (NoItems_fast table_name))
                       else
                         (case traverse convert_dynamodb_item_fast items of
                            Inl e \<Rightarrow> (w1, Inl e)
                          | Inr converted \<Rightarrow>
                              (case create_batches supabase_table table_name converted of
                                 Inl e \<Rightarrow> (w1, Inl e)
                               | Inr batches \<Rightarrow>
                                   if num_workers \<le> 0 then (w1, Inl ValueError)
                                   else
                                     (let (futures, stats') =
                                            run_workers post (schedule batches) (snd w1);
                                          (total_success, total_failed) =
                                            collect_results futures (0, 0)
                                      in ((fst w1, stats'),
                                          Inr (Summary_fast table_name supabase_table
                                                 (length converted) total_success
                                                 total_failed)))))))"

fun import_loop_fast ::
  "dynamodb \<Rightarrow> (string \<Rightarrow> int \<Rightarrow> endpoint) \<Rightarrow> (batch_data list \<Rightarrow> batch_data list)
     \<Rightarrow> string \<Rightarrow> int \<Rightarrow> string list
     \<Rightarrow> (nat \<times> progress_stats) \<times> summary_fast list
     \<Rightarrow> ((nat \<times> progress_stats) \<times> summary_fast list) option" where
  "import_loop_fast dynamodb post schedule region workers [] st = Some st"
| "import_loop_fast dynamodb post schedule region workers (t # tables) (w, results) =
     (case import_table_parallel dynamodb (post t) schedule t region workers w of
        None \<Rightarrow> None
      | Some (w', Inr result) \<Rightarrow>
          import_loop_fast dynamodb post schedule region workers tables (w', results @ [result])
      | Some (w', Inl e) \<Rightarrow>
          import_loop_fast dynamodb post schedule region workers tables
            (w', results @ [ImportError_fast t e]))"

record args_fast =
  arg_table_fast :: "string option"
  arg_region_fast :: string
  arg_all_firespring_fast :: bool
  arg_workers :: int

definition main_fast ::
  "dynamodb \<Rightarrow> (string \<Rightarrow> int \<Rightarrow> endpoint) \<Rightarrow> (batch_data list \<Rightarrow> batch_data list)
     \<Rightarrow> args_fast \<Rightarrow> ((nat \<times> progress_stats) \<times> int \<times> summary_fast list) option" where
  "main_fast dynamodb post schedule a =
     (let run = (\<lambda>tables_to_import region.
                   case import_loop_fast dynamodb post schedule region (arg_workers a)
                          tables_to_import ((0, Map.empty), []) of
                     None \<Rightarrow> None
                   | Some (w, results) \<Rightarrow>
                       Some (w, exit_code (map summary_failed_fast results), results));
          usage = Some ((0, Map.empty), 1, [])
      in if arg_all_firespring_fast a then run FIRESPRING_TABLES_fast ''us-east-1''
         else (case arg_table_fast a of
                 None \<Rightarrow> usage
               | Some t \<Rightarrow> if t = [] then usage else run [t] (arg_region_fast a)))"


text \<open>
  What a future adds to the totals beyond the number of records of its batch: a future that
  raised is charged the whole constant batch size.
\<close>

fun excess :: "batch_data \<times> (py_error + results) \<Rightarrow> int" where
  "excess (b, Inl e) = BATCH_SIZE_fast - int (length (records_of b))"
| "excess (b, Inr r) = 0"

section \<open>An example table\<close>

text \<open>
  A source table of three tagged items that the service returns in a single page, and the
  records that the sequential importer makes of them for the table name \<open>t\<close> at the clock
  reading \<open>now\<close>.
\<close>

definition example_items :: "item list" where
  "example_items =
     [[(''id'', PDict [(''S'', PStr ''a'')]), (''n'', PDict [(''N'', PStr ''5'')])],
      [(''id'', PDict [(''S'', PStr ''b'')]), (''n'', PDict [(''N'', PStr ''7'')])],
      [(''id'', PDict [(''S'', PStr ''c'')]), (''n'', PDict [(''N'', PStr ''9'')])]]"

definition example_dynamodb :: dynamodb where
  "example_dynamodb region table_name start_key page =
     Inr \<lparr>Items = example_items, LastEvaluatedKey = None\<rparr>"

definition example_converted :: "item list" where
  "example_converted =
     [[(''id'', PStr ''a''), (''n'', PInt 5), (''_source_table'', PStr ''t''),
       (''_import_timestamp'', PStr ''now'')],
      [(''id'', PStr ''b''), (''n'', PInt 7), (''_source_table'', PStr ''t''),
       (''_import_timestamp'', PStr ''now'')],
      [(''id'', PStr ''c''), (''n'', PInt 9), (''_source_table'', PStr ''t''),
       (''_import_timestamp'', PStr ''now'')]]"

definition example_items_untagged :: "item list" where
  "example_items_untagged =
     [[(''id'', PDict [(''S'', PStr ''a'')]), (''a'', PDict [(''X'', PStr ''foo'')])],
      [(''id'', PDict [(''S'', PStr ''b'')])]]"

definition example_dynamodb_untagged :: dynamodb where
  "example_dynamodb_untagged region table_name start_key page =
     Inr \<lparr>Items = example_items_untagged, LastEvaluatedKey = None\<rparr>"

text \<open>An endpoint that accepts every request, for the sequential and the parallel importer.\<close>

definition example_endpoint :: endpoint where
  "example_endpoint k tbl r = Response 200 ''ok''"

definition example_endpoint_fast :: "string \<Rightarrow> int \<Rightarrow> endpoint" where
  "example_endpoint_fast table_name batch_num = example_endpoint"

section \<open>Properties of the number decoding\<close>

lemma remainder_is_zero_iff:
  assumes "- e \<le> int Etiny_digits"
  shows "remainder_is_zero r e = (r = 0)"
proof (cases "r = 0")
  case True
  then show ?thesis by (simp add: remainder_is_zero_def)
next
  case False
  have "nat (- e) \<le> Etiny_digits" using assms by simp
  then have "(10::nat) ^ nat (- e) \<le> 10 ^ Etiny_digits"
    by (simp add: power_increasing)
  also have "\<dots> < 2 * r * 10 ^ Etiny_digits" using False by simp
  finally show ?thesis using False by (simp add: remainder_is_zero_def)
qed

lemma remainder_is_zero_numeral [simp]:
  "- e \<le> 1000026 \<Longrightarrow> remainder_is_zero r e = (r = 0)"
  by (rule remainder_is_zero_iff) (simp add: Etiny_digits_def)

lemmas decimal_eval = parse_decimal_def is_digit_def digits_value_def digit_value_def
  int_or_float_def mod_1_eq_0_def quotient_1_def remainder_1_def prec_def int_of_decimal_def
  float_of_decimal_def decimal_value_def float_Decimal_def

lemma rat_div_in_Ints_iff:
  assumes "0 < m"
  shows "(of_nat c / of_nat m :: rat) \<in> \<int> \<longleftrightarrow> c mod m = 0"
proof
  assume "(of_nat c / of_nat m :: rat) \<in> \<int>"
  then obtain i :: int where i: "(of_nat c / of_nat m :: rat) = of_int i"
    by (auto elim: Ints_cases)
  then have "(of_nat c :: rat) = of_int i * of_nat m"
    using assms by (simp add: field_simps)
  then have "(of_int (int c) :: rat) = of_int (i * int m)" by simp
  then have "int c = i * int m" by (simp only: of_int_eq_iff)
  then have "int m dvd int c" by simp
  then show "c mod m = 0" by (simp add: mod_eq_0_iff_dvd)
next
  assume "c mod m = 0"
  then obtain k where "c = m * k" by (auto simp: mod_eq_0_iff_dvd)
  then show "(of_nat c / of_nat m :: rat) \<in> \<int>" using assms by simp
qed

lemma decimal_value_integral:
  "decimal_value d \<in> \<int> \<longleftrightarrow> remainder_1 d = 0"
proof (cases "0 \<le> dexp d")
  case True
  then show ?thesis by (simp add: decimal_value_def remainder_1_def)
next
  case False
  have "(if dsign d then - 1 else 1) * (of_nat (coeff d) / of_nat (10 ^ nat (- dexp d)) :: rat) \<in> \<int>
     \<longleftrightarrow> (of_nat (coeff d) / of_nat (10 ^ nat (- dexp d)) :: rat) \<in> \<int>"
    by (auto simp: minus_in_Ints_iff)
  with False show ?thesis
    using rat_div_in_Ints_iff[of "10 ^ nat (- dexp d)" "coeff d"]
    by (simp add: decimal_value_def remainder_1_def)
qed

lemma int_of_decimal_value:
  assumes "remainder_1 d = 0"
  shows "of_int (int_of_decimal d) = decimal_value d"
proof (cases "0 \<le> dexp d")
  case True
  then show ?thesis by (simp add: decimal_value_def int_of_decimal_def quotient_1_def)
next
  case False
  let ?m = "(10::nat) ^ nat (- dexp d)"
  from assms False have "coeff d mod ?m = 0" by (simp add: remainder_1_def)
  then obtain k where k: "coeff d = ?m * k" by (auto simp: mod_eq_0_iff_dvd)
  then have "coeff d div ?m = k" by simp
  moreover have "(of_nat (coeff d) / of_nat ?m :: rat) = of_nat k"
    by (subst k) simp
  ultimately show ?thesis using False
    by (simp add: decimal_value_def int_of_decimal_def quotient_1_def)
qed

lemma int_or_float_in_range:
  assumes "quotient_1 d < 10 ^ 28" and "- dexp d \<le> 1000026"
  shows "int_or_float d =
           Inr (if decimal_value d \<in> \<int> then PInt \<lfloor>decimal_value d\<rfloor>
                else PFloat (decimal_value d))"
proof (cases "remainder_1 d = 0")
  case True
  then have "decimal_value d = of_int (int_of_decimal d)"
    by (simp add: int_of_decimal_value)
  then have "\<lfloor>decimal_value d\<rfloor> = int_of_decimal d" "decimal_value d \<in> \<int>"
    by simp_all
  then show ?thesis using assms True
    by (simp add: int_or_float_def mod_1_eq_0_def prec_def)
next
  case False
  then have "decimal_value d \<notin> \<int>" by (simp add: decimal_value_integral)
  then show ?thesis using assms False
    by (simp add: int_or_float_def mod_1_eq_0_def prec_def float_of_decimal_def)
qed

lemma int_or_float_too_large:
  "10 ^ 28 \<le> quotient_1 d \<Longrightarrow> int_or_float d = Inl InvalidOperation"
  by (simp add: int_or_float_def mod_1_eq_0_def prec_def)


text \<open>
  C1 (the code departs from the claim).  The claim: every number-tagged value decodes to an
  integer when its value has zero fractional part and to a float otherwise.  The decoders test
  \<^verbatim>\<open>num % 1 == 0\<close> in the default decimal context, whose precision is 28 digits: for a
  number whose integer part has 29 digits or more, such as \<open>10^28\<close> (a legal DynamoDB number,
  which may have 38 digits), the remainder operation raises \<^verbatim>\<open>InvalidOperation\<close> and neither
  an integer nor a float is produced.  Both decoders behave so, for the plain and for the
  exponent notation, and also when the value has a fractional part.
\<close>

theorem number_tag_large_integer_raises:
  "parse_decimal ''10000000000000000000000000000'' = Some (Dec False (10 ^ 28) 0)
   \<and> decimal_value (Dec False (10 ^ 28) 0) = 10 ^ 28
   \<and> convert_dynamodb_value (PDict [(''N'', PStr ''10000000000000000000000000000'')])
       = Inl InvalidOperation
   \<and> convert_dynamodb_item_fast
         [(''n'', PDict [(''N'', PStr ''10000000000000000000000000000'')])]
       = Inl InvalidOperation
   \<and> convert_dynamodb_value (PDict [(''N'', PStr ''1E+28'')]) = Inl InvalidOperation
   \<and> convert_dynamodb_item_fast [(''n'', PDict [(''N'', PStr ''1E+28'')])]
       = Inl InvalidOperation
   \<and> convert_dynamodb_value (PDict [(''N'', PStr ''12345678901234567890123456789.5'')])
       = Inl InvalidOperation"
  by (simp add: decimal_eval)

text \<open>
  C5 (as stated, refuted).  The claim: a number string with a fractional or exponent
  component, for example "5.0" or "5E1", decodes to a float.  Both decoders decide by the
  value, not by the notation: "5.0" decodes to the integer 5 and "5E1" to the integer 50.
\<close>

theorem number_tag_notation_counterexample:
  "convert_dynamodb_value (PDict [(''N'', PStr ''5.0'')]) = Inr (PInt 5)
   \<and> convert_dynamodb_value (PDict [(''N'', PStr ''5E1'')]) = Inr (PInt 50)
   \<and> convert_entry_fast (PDict [(''N'', PStr ''5.0'')]) = Inr (PInt 5)
   \<and> convert_entry_fast (PDict [(''N'', PStr ''5E1'')]) = Inr (PInt 50)"
  by (simp add: decimal_eval)

text \<open>
  C5 (amended).  For every number string that \<^verbatim>\<open>Decimal\<close> accepts, whose integer part is
  below \<open>10^28\<close> and whose exponent is not below \<open>-1000026\<close> (the limits of the default
  decimal context), both decoders return the integer equal to the number when the value of the
  number is integral, whatever its notation, and the float of the value otherwise.
\<close>

theorem number_tag_by_value:
  assumes "parse_decimal s = Some d"
    and "quotient_1 d < 10 ^ 28" and "- dexp d \<le> 1000026"
  shows "convert_dynamodb_value (PDict [(''N'', PStr s)])
           = Inr (if decimal_value d \<in> \<int> then PInt \<lfloor>decimal_value d\<rfloor>
                  else PFloat (decimal_value d))
       \<and> convert_entry_fast (PDict [(''N'', PStr s)])
           = Inr (if decimal_value d \<in> \<int> then PInt \<lfloor>decimal_value d\<rfloor>
                  else PFloat (decimal_value d))"
  using assms by (simp add: int_or_float_in_range)

theorem number_tag_by_value_witness:
  "parse_decimal ''5.50'' = Some (Dec False 550 (- 2))
   \<and> quotient_1 (Dec False 550 (- 2)) < 10 ^ 28
   \<and> - dexp (Dec False 550 (- 2)) \<le> 1000026
   \<and> convert_dynamodb_value (PDict [(''N'', PStr ''5.50'')]) = Inr (PFloat (11 / 2))
   \<and> convert_entry_fast (PDict [(''N'', PStr ''5.50'')]) = Inr (PFloat (11 / 2))"
proof -
  have p: "parse_decimal ''5.50'' = Some (Dec False 550 (- 2))"
    by (simp add: decimal_eval)
  have q: "quotient_1 (Dec False 550 (- 2)) < 10 ^ 28"
    by (simp add: quotient_1_def)
  have e: "- dexp (Dec False 550 (- 2)) \<le> 1000026"
    by simp
  have v: "decimal_value (Dec False 550 (- 2)) = 11 / 2"
    by (simp add: decimal_value_def)
  have n: "decimal_value (Dec False 550 (- 2)) \<notin> \<int>"
    by (simp add: decimal_value_integral remainder_1_def)
  show ?thesis
    using number_tag_by_value [OF p q e] p q e n by (simp add: v)
qed


section \<open>Properties of the batch loop\<close>

declare range_up.simps [simp del] range_down.simps [simp del]

lemma range_up_step:
  "0 < b \<Longrightarrow> i < n \<Longrightarrow> range_up i n b = i # range_up (i + b) n b"
  by (subst range_up.simps) simp

lemma range_up_stop:
  "\<not> i < n \<Longrightarrow> range_up i n b = []"
  by (subst range_up.simps) simp

lemma py_slice_batch:
  assumes "0 \<le> i" and "0 < b"
  shows "py_slice xs i (i + b) = take (nat b) (drop (nat i) xs)"
proof (cases "i < int (length xs)")
  case True
  with assms have "nat (min (i + b) (int (length xs)) - i) = min (nat b) (length xs - nat i)"
    by (auto simp: min_def)
  with True assms show ?thesis
    by (simp add: py_slice_def Let_def min_def take_all_iff)
next
  case False
  with assms show ?thesis by (simp add: py_slice_def Let_def min_def)
qed

lemma range_up_length:
  "0 < b \<Longrightarrow> length (range_up i n b) = nat ((n - i + b - 1) div b)"
proof (induction i n b rule: range_up.induct)
  case (1 i n b)
  show ?case
  proof (cases "i < n")
    case True
    have "n - i + b - 1 = (n - (i + b) + b - 1) + b" by simp
    then have "(n - i + b - 1) div b = (n - (i + b) + b - 1) div b + 1"
      using 1(2) by (metis div_add_self2 less_irrefl)
    moreover have "0 \<le> (n - (i + b) + b - 1) div b"
      using True 1(2) by (simp add: pos_imp_zdiv_nonneg_iff)
    ultimately show ?thesis using True 1 by (simp add: range_up_step nat_add_distrib)
  next
    case False
    have "(n - i + b - 1) div b \<le> 0"
    proof (cases "n - i + b - 1 < 0")
      case True
      then show ?thesis using 1(2) by (simp add: div_nonpos_pos_le0)
    next
      case False
      with \<open>\<not> i < n\<close> show ?thesis by (simp add: div_pos_pos_trivial)
    qed
    with False show ?thesis by (simp add: range_up_stop)
  qed
qed

lemma range_up_nth:
  "0 < b \<Longrightarrow> j < length (range_up i n b) \<Longrightarrow> range_up i n b ! j = i + int j * b"
proof (induction i n b arbitrary: j rule: range_up.induct)
  case (1 i n b)
  show ?case
  proof (cases "i < n")
    case True
    with 1 show ?thesis
      by (cases j) (auto simp: range_up_step algebra_simps)
  next
    case False
    with 1 show ?thesis by (simp add: range_up_stop)
  qed
qed

lemma range_up_nonneg:
  "0 \<le> i \<Longrightarrow> x \<in> set (range_up i n b) \<Longrightarrow> 0 \<le> x"
proof (induction i n b rule: range_up.induct)
  case (1 i n b)
  show ?case
  proof (cases "0 < b \<and> i < n")
    case True
    with 1 show ?thesis by (auto simp: range_up_step)
  next
    case False
    with 1(3) show ?thesis by (subst (asm) range_up.simps) simp
  qed
qed

lemma concat_slices:
  "0 < b \<Longrightarrow> 0 \<le> i \<Longrightarrow>
   concat (map (\<lambda>j. py_slice xs j (j + b)) (range_up i (int (length xs)) b)) = drop (nat i) xs"
proof (induction i "int (length xs)" b rule: range_up.induct)
  case (1 i b)
  show ?case
  proof (cases "i < int (length xs)")
    case True
    have "take (nat b) (drop (nat i) xs) @ drop (nat (i + b)) xs = drop (nat i) xs"
      using 1(2,3) by (simp add: nat_add_distrib add.commute flip: drop_drop)
    with True 1 show ?thesis by (simp add: range_up_step py_slice_batch)
  next
    case False
    with 1 show ?thesis by (simp add: range_up_stop)
  qed
qed

lemma ceiling_div:
  assumes "0 < (b::int)"
  shows "\<lceil>(of_int a :: rat) / of_int b\<rceil> = (a + b - 1) div b"
proof -
  define q where "q = (a + b - 1) div b"
  define r where "r = (a + b - 1) mod b"
  have r: "0 \<le> r" "r < b" using assms by (simp_all add: r_def)
  have "a + b - 1 = b * q + r" by (simp add: q_def r_def)
  then have "- a = b * (- q) + (b - 1 - r)" by (simp add: algebra_simps)
  then have "- a div b = - q"
    using r by (intro int_div_pos_eq[where r = "b - 1 - r"]) simp_all
  then show ?thesis by (simp add: ceiling_divide_eq_div q_def)
qed

lemma plan_batches_pos:
  "0 < bsize \<Longrightarrow>
   plan_batches bsize xs = Inr (map (batch_of bsize xs) (range_up 0 (int (length xs)) bsize))"
  by (simp add: plan_batches_def py_range_def)

lemma total_batches_ceiling:
  assumes "0 < bsize"
  shows "(int (length xs) + bsize - 1) div bsize = \<lceil>(of_nat (length xs) :: rat) / of_int bsize\<rceil>"
  using ceiling_div[OF assms, of "int (length xs)"] by simp

lemma plan_batches_length:
  assumes "0 < bsize"
  shows "int (length (map (batch_of bsize xs) (range_up 0 (int (length xs)) bsize)))
         = \<lceil>(of_nat (length xs) :: rat) / of_int bsize\<rceil>"
proof -
  have "0 \<le> (int (length xs) + bsize - 1) div bsize"
    using assms by (simp add: pos_imp_zdiv_nonneg_iff)
  then show ?thesis
    using assms by (simp add: range_up_length total_batches_ceiling[symmetric])
qed

lemma plan_batches_concat:
  assumes "0 < bsize"
  shows "concat (map (\<lambda>(batch_num, total_batches, batch). batch)
           (map (batch_of bsize xs) (range_up 0 (int (length xs)) bsize))) = xs"
proof -
  have "map (\<lambda>(batch_num, total_batches, batch). batch)
          (map (batch_of bsize xs) (range_up 0 (int (length xs)) bsize))
        = map (\<lambda>j. py_slice xs j (j + bsize)) (range_up 0 (int (length xs)) bsize)"
    by (simp add: batch_of_def)
  then show ?thesis using concat_slices[OF assms, of 0 xs] by (simp only: drop_0 nat_0 order_refl simp_thms)
qed

lemma plan_batches_nth:
  assumes "0 < bsize" and "i < length (range_up 0 (int (length xs)) bsize)"
  shows "map (batch_of bsize xs) (range_up 0 (int (length xs)) bsize) ! i
         = (int i + 1, \<lceil>(of_nat (length xs) :: rat) / of_int bsize\<rceil>,
            take (nat bsize) (drop (i * nat bsize) xs))"
proof -
  have "range_up 0 (int (length xs)) bsize ! i = int i * bsize"
    using range_up_nth[OF assms] by simp
  moreover have "nat (int i * bsize) = i * nat bsize"
    using assms(1) by (simp add: nat_mult_distrib)
  moreover have "py_slice xs (int i * bsize) (int i * bsize + bsize)
                 = take (nat bsize) (drop (nat (int i * bsize)) xs)"
    using assms(1) by (intro py_slice_batch) simp_all
  ultimately show ?thesis
    using assms by (simp add: batch_of_def total_batches_ceiling)
qed

text \<open>
  C2.  For every record sequence \<open>xs\<close> of length \<open>N\<close> and every batch size \<open>B > 0\<close> the
  batch loop runs without error; the number of batches is \<open>ceil(N / B)\<close>, which is also the
  total recorded in every batch; the batches concatenated in index order give back \<open>xs\<close>;
  and the batch with the 1-based number \<open>i + 1\<close> holds exactly the elements
  \<open>[i * B, (i + 1) * B)\<close> of \<open>xs\<close>, the last batch being cut at the end of \<open>xs\<close>.
\<close>

theorem batch_partition:
  assumes "0 < bsize"
  shows "\<exists>bs. plan_batches bsize xs = Inr bs
           \<and> int (length bs) = \<lceil>(of_nat (length xs) :: rat) / of_int bsize\<rceil>
           \<and> concat (map (\<lambda>(batch_num, total_batches, batch). batch) bs) = xs
           \<and> (\<forall>i < length bs.
                 bs ! i = (int i + 1, \<lceil>(of_nat (length xs) :: rat) / of_int bsize\<rceil>,
                           take (nat bsize) (drop (i * nat bsize) xs)))"
proof (intro exI conjI allI impI)
  show "plan_batches bsize xs = Inr (map (batch_of bsize xs) (range_up 0 (int (length xs)) bsize))"
    using assms by (rule plan_batches_pos)
  show "int (length (map (batch_of bsize xs) (range_up 0 (int (length xs)) bsize)))
        = \<lceil>(of_nat (length xs) :: rat) / of_int bsize\<rceil>"
    using assms by (rule plan_batches_length)
  show "concat (map (\<lambda>(batch_num, total_batches, batch). batch)
           (map (batch_of bsize xs) (range_up 0 (int (length xs)) bsize))) = xs"
    using assms by (rule plan_batches_concat)
next
  fix i assume "i < length (map (batch_of bsize xs) (range_up 0 (int (length xs)) bsize))"
  then show "map (batch_of bsize xs) (range_up 0 (int (length xs)) bsize) ! i
         = (int i + 1, \<lceil>(of_nat (length xs) :: rat) / of_int bsize\<rceil>,
            take (nat bsize) (drop (i * nat bsize) xs))"
    using assms by (intro plan_batches_nth) simp_all
qed

text \<open>The parallel importer wraps exactly these batches, for the batch size 100.\<close>

lemma create_batches_plan:
  "create_batches supabase_table table_name converted =
     Inr (map (\<lambda>(batch_num, total_batches, batch).
                 (batch_num, total_batches, supabase_table, batch, table_name))
            (map (batch_of BATCH_SIZE_fast converted)
               (range_up 0 (int (length converted)) BATCH_SIZE_fast)))"
  by (simp add: create_batches_def plan_batches_pos BATCH_SIZE_fast_def)

theorem batch_partition_witness:
  "(0::int) < 2
   \<and> plan_batches 2 [10, 20, 30 :: nat] = Inr [(1, 2, [10, 20]), (2, 2, [30])]
   \<and> \<lceil>(of_nat (length [10, 20, 30 :: nat]) :: rat) / of_int 2\<rceil> = 2
   \<and> concat (map (\<lambda>(batch_num, total_batches, batch). batch) [(1, 2, [10, 20]), (2::int, 2::int, [30::nat])]) = [10, 20, 30]"
proof -
  have h: "(0::int) < 2" by simp
  have p: "plan_batches 2 [10, 20, 30 :: nat] = Inr [(1, 2, [10, 20]), (2, 2, [30])]"
    by (simp add: plan_batches_def py_range_def range_up.simps batch_of_def py_slice_def)
  from batch_partition [OF h, of "[10, 20, 30 :: nat]"] p
  have "int (length [(1::int, 2::int, [10, 20 :: nat]), (2, 2, [30])])
          = \<lceil>(of_nat (length [10, 20, 30 :: nat]) :: rat) / of_int 2\<rceil>
        \<and> concat (map (\<lambda>(batch_num, total_batches, batch). batch) [(1, 2, [10, 20]), (2::int, 2::int, [30::nat])]) = [10, 20, 30]"
    by auto
  with h p show ?thesis by simp
qed



section \<open>Properties of the transfer workers\<close>

lemma attempts_fast: "[0..<2] = [0, Suc 0]"
  by (simp add: upt_rec)

lemma attempts_seq: "[0..<3] = [0, Suc 0, Suc (Suc 0)]"
  by (simp add: upt_rec)

lemma attempt_loop_fast_success:
  assumes "K < RETRY_ATTEMPTS_fast"
    and "\<forall>j<K. \<not> succeeds (post (k + j) tbl rec)"
    and "succeeds (post (k + K) tbl rec)"
  shows "attempt_loop_fast post tbl rec [0..<RETRY_ATTEMPTS_fast] (k, res)
         = (k + K + 1, res\<lparr>success := success res + 1\<rparr>)"
proof -
  from assms(1) consider "K = 0" | "K = 1"
    unfolding RETRY_ATTEMPTS_fast_def by arith
  then show ?thesis
  proof cases
    case 1
    with assms(3) show ?thesis
      by (cases "post k tbl rec") (simp_all add: attempts_fast RETRY_ATTEMPTS_fast_def)
  next
    case 2
    with assms(2) have f: "\<not> succeeds (post k tbl rec)" by simp
    from 2 assms(3) have s: "succeeds (post (Suc k) tbl rec)" by simp
    from f s 2 show ?thesis
      by (cases "post k tbl rec"; cases "post (Suc k) tbl rec")
         (simp_all add: attempts_fast RETRY_ATTEMPTS_fast_def)
  qed
qed

lemma attempt_loop_fast_failure:
  assumes "\<forall>j<RETRY_ATTEMPTS_fast. \<not> succeeds (post (k + j) tbl rec)"
  shows "attempt_loop_fast post tbl rec [0..<RETRY_ATTEMPTS_fast] (k, res)
         = (k + RETRY_ATTEMPTS_fast, res\<lparr>failed := failed res + 1\<rparr>)"
proof -
  from assms have "\<not> succeeds (post k tbl rec)" "\<not> succeeds (post (Suc k) tbl rec)"
    by (auto simp: RETRY_ATTEMPTS_fast_def dest: spec[of _ 0] spec[of _ 1])
  then show ?thesis
    by (cases "post k tbl rec"; cases "post (Suc k) tbl rec")
       (simp_all add: attempts_fast RETRY_ATTEMPTS_fast_def)
qed

lemma attempt_loop_fast_once:
  "\<exists>k'. attempt_loop_fast post tbl rec [0..<RETRY_ATTEMPTS_fast] (k, res)
           = (k', res\<lparr>success := success res + 1\<rparr>)
      \<or> attempt_loop_fast post tbl rec [0..<RETRY_ATTEMPTS_fast] (k, res)
           = (k', res\<lparr>failed := failed res + 1\<rparr>)"
  by (cases "post k tbl rec"; cases "post (Suc k) tbl rec")
     (auto simp: attempts_fast RETRY_ATTEMPTS_fast_def)

lemma record_loop_fast_total:
  "success (snd (record_loop_fast post tbl recs (k, res)))
     + failed (snd (record_loop_fast post tbl recs (k, res)))
   = success res + failed res + length recs"
proof (induction recs arbitrary: k res)
  case Nil
  show ?case by simp
next
  case (Cons r recs)
  obtain k' where "attempt_loop_fast post tbl r [0..<RETRY_ATTEMPTS_fast] (k, res)
           = (k', res\<lparr>success := success res + 1\<rparr>)
      \<or> attempt_loop_fast post tbl r [0..<RETRY_ATTEMPTS_fast] (k, res)
           = (k', res\<lparr>failed := failed res + 1\<rparr>)"
    using attempt_loop_fast_once by blast
  then show ?case using Cons.IH by auto
qed

lemma attempt_loop_success:
  assumes "K < RETRY_ATTEMPTS"
    and "\<forall>j<K. \<not> succeeds (post (k + j) tbl rec)"
    and "succeeds (post (k + K) tbl rec)"
  shows "attempt_loop post tbl rec [0..<RETRY_ATTEMPTS] (k, res)
         = (k + K + 1, res\<lparr>s_success := s_success res + 1\<rparr>)"
proof -
  from assms(1) consider "K = 0" | "K = 1" | "K = 2"
    unfolding RETRY_ATTEMPTS_def by arith
  then show ?thesis
  proof cases
    case 1
    with assms(3) show ?thesis
      by (cases "post k tbl rec") (simp_all add: attempts_seq RETRY_ATTEMPTS_def)
  next
    case 2
    with assms(2) have f: "\<not> succeeds (post k tbl rec)" by simp
    from 2 assms(3) have s: "succeeds (post (Suc k) tbl rec)" by simp
    from f s 2 show ?thesis
      by (cases "post k tbl rec"; cases "post (Suc k) tbl rec")
         (simp_all add: attempts_seq RETRY_ATTEMPTS_def)
  next
    case 3
    with assms(2) have f: "\<not> succeeds (post k tbl rec)" "\<not> succeeds (post (Suc k) tbl rec)"
      by (auto dest: spec[of _ 0] spec[of _ 1])
    from 3 assms(3) have s: "succeeds (post (Suc (Suc k)) tbl rec)" by simp
    from f s 3 show ?thesis
      by (cases "post k tbl rec"; cases "post (Suc k) tbl rec";
          cases "post (Suc (Suc k)) tbl rec")
         (simp_all add: attempts_seq RETRY_ATTEMPTS_def)
  qed
qed

lemma attempt_loop_failure:
  assumes "\<forall>j<RETRY_ATTEMPTS. \<not> succeeds (post (k + j) tbl rec)"
  shows "attempt_loop post tbl rec [0..<RETRY_ATTEMPTS] (k, res)
         = (k + RETRY_ATTEMPTS,
            res\<lparr>s_failed := s_failed res + 1,
                s_errors := s_errors res
                  @ [error_entry_of rec (post (k + (RETRY_ATTEMPTS - 1)) tbl rec)]\<rparr>)"
proof -
  from assms have "\<not> succeeds (post k tbl rec)" "\<not> succeeds (post (Suc k) tbl rec)"
    "\<not> succeeds (post (Suc (Suc k)) tbl rec)"
    by (auto simp: RETRY_ATTEMPTS_def dest: spec[of _ 0] spec[of _ 1] spec[of _ 2])
  then show ?thesis
    by (cases "post k tbl rec"; cases "post (Suc k) tbl rec";
        cases "post (Suc (Suc k)) tbl rec")
       (simp_all add: attempts_seq RETRY_ATTEMPTS_def)
qed

lemma attempt_loop_once:
  "\<exists>k'. attempt_loop post tbl rec [0..<RETRY_ATTEMPTS] (k, res)
           = (k', res\<lparr>s_success := s_success res + 1\<rparr>)
      \<or> attempt_loop post tbl rec [0..<RETRY_ATTEMPTS] (k, res)
           = (k', res\<lparr>s_failed := s_failed res + 1,
                      s_errors := s_errors res
                        @ [error_entry_of rec (post (k + (RETRY_ATTEMPTS - 1)) tbl rec)]\<rparr>)"
  by (cases "post k tbl rec"; cases "post (Suc k) tbl rec";
        cases "post (Suc (Suc k)) tbl rec")
     (auto simp: attempts_seq RETRY_ATTEMPTS_def)

lemma record_loop_total:
  "s_success (snd (record_loop post tbl recs (k, res)))
     + s_failed (snd (record_loop post tbl recs (k, res)))
   = s_success res + s_failed res + length recs"
proof (induction recs arbitrary: k res)
  case Nil
  show ?case by simp
next
  case (Cons r recs)
  obtain k' where "attempt_loop post tbl r [0..<RETRY_ATTEMPTS] (k, res)
           = (k', res\<lparr>s_success := s_success res + 1\<rparr>)
      \<or> attempt_loop post tbl r [0..<RETRY_ATTEMPTS] (k, res)
           = (k', res\<lparr>s_failed := s_failed res + 1,
                      s_errors := s_errors res
                        @ [error_entry_of r (post (k + (RETRY_ATTEMPTS - 1)) tbl r)]\<rparr>)"
    using attempt_loop_once by blast
  then show ?case using Cons.IH by auto
qed

lemma send_to_supabase_total:
  "\<exists>k' r. send_to_supabase post tbl recs False k = (k', Sent r)
          \<and> s_success r + s_failed r = length recs"
proof -
  obtain k' r where kr:
    "record_loop post tbl recs (k, \<lparr>s_success = 0, s_failed = 0, s_errors = []\<rparr>) = (k', r)"
    by (cases "record_loop post tbl recs (k, \<lparr>s_success = 0, s_failed = 0, s_errors = []\<rparr>)")
  with record_loop_total[of post tbl recs k "\<lparr>s_success = 0, s_failed = 0, s_errors = []\<rparr>"]
  have "s_success r + s_failed r = length recs" by simp
  with kr show ?thesis by (simp add: send_to_supabase_def)
qed

lemma send_batch_to_supabase_total:
  assumes "fst (send_batch_to_supabase post (bn, tb, tbl, recs, tn) stats) = Inr r"
  shows "success r + failed r = length recs"
proof -
  from assms have "r = snd (record_loop_fast post tbl recs
                         (0, \<lparr>success = 0, failed = 0, of_batch = bn\<rparr>))"
    by (auto simp: send_batch_to_supabase_def Let_def split: if_splits)
  then show ?thesis
    using record_loop_fast_total[of post tbl recs 0 "\<lparr>success = 0, failed = 0, of_batch = bn\<rparr>"]
    by simp
qed

lemma record_loop_fast_success_step:
  assumes "K < RETRY_ATTEMPTS_fast"
    and "\<forall>j<K. \<not> succeeds (post (k + j) tbl rec)"
    and "succeeds (post (k + K) tbl rec)"
  shows "record_loop_fast post tbl (rec # recs) (k, res)
         = record_loop_fast post tbl recs (k + K + 1, res\<lparr>success := success res + 1\<rparr>)"
  using assms attempt_loop_fast_success[where K=K and post=post and k=k and tbl=tbl and rec=rec and res=res] by simp

lemma record_loop_fast_failure_step:
  assumes "\<forall>j<RETRY_ATTEMPTS_fast. \<not> succeeds (post (k + j) tbl rec)"
  shows "record_loop_fast post tbl (rec # recs) (k, res)
         = record_loop_fast post tbl recs
             (k + RETRY_ATTEMPTS_fast, res\<lparr>failed := failed res + 1\<rparr>)"
  using assms attempt_loop_fast_failure[where post=post and k=k and tbl=tbl and rec=rec and res=res] by simp

lemma record_loop_success_step:
  assumes "K < RETRY_ATTEMPTS"
    and "\<forall>j<K. \<not> succeeds (post (k + j) tbl rec)"
    and "succeeds (post (k + K) tbl rec)"
  shows "record_loop post tbl (rec # recs) (k, sres)
         = record_loop post tbl recs (k + K + 1, sres\<lparr>s_success := s_success sres + 1\<rparr>)"
  using assms attempt_loop_success[where K=K and post=post and k=k and tbl=tbl and rec=rec and res=sres] by simp

lemma record_loop_failure_step:
  assumes "\<forall>j<RETRY_ATTEMPTS. \<not> succeeds (post (k + j) tbl rec)"
  shows "record_loop post tbl (rec # recs) (k, sres)
         = record_loop post tbl recs
             (k + RETRY_ATTEMPTS,
              sres\<lparr>s_failed := s_failed sres + 1,
                   s_errors := s_errors sres
                     @ [error_entry_of rec (post (k + (RETRY_ATTEMPTS - 1)) tbl rec)]\<rparr>)"
  using assms attempt_loop_failure[where post=post and k=k and tbl=tbl and rec=rec and res=sres] by simp

lemma record_loop_fast_stateless:
  assumes "\<forall>k r. succeeds (post k tbl r) = ok r"
  shows "record_loop_fast post tbl recs (k, res)
         = (k + sum_list (map (\<lambda>r. if ok r then 1 else RETRY_ATTEMPTS_fast) recs),
            res\<lparr>success := success res + length (filter ok recs),
                failed := failed res + length (filter (\<lambda>r. \<not> ok r) recs)\<rparr>)"
proof (induction recs arbitrary: k res)
  case Nil
  show ?case by simp
next
  case (Cons r recs)
  show ?case
  proof (cases "ok r")
    case True
    have "record_loop_fast post tbl (r # recs) (k, res)
          = record_loop_fast post tbl recs (k + 0 + 1, res\<lparr>success := success res + 1\<rparr>)"
      using assms True
        record_loop_fast_success_step[where K=0 and post=post and k=k and tbl=tbl and rec=r
          and recs=recs and res=res]
      by (simp add: RETRY_ATTEMPTS_fast_def)
    then show ?thesis using True by (simp add: Cons.IH)
  next
    case False
    have "record_loop_fast post tbl (r # recs) (k, res)
          = record_loop_fast post tbl recs
             (k + RETRY_ATTEMPTS_fast, res\<lparr>failed := failed res + 1\<rparr>)"
      using assms False
        record_loop_fast_failure_step[where post=post and k=k and tbl=tbl and rec=r
          and recs=recs and res=res]
      by simp
    then show ?thesis using False by (simp add: Cons.IH)
  qed
qed

lemma record_loop_stateless:
  assumes "\<forall>k r. succeeds (post k tbl r) = ok r"
  shows "fst (record_loop post tbl recs (k, sres))
           = k + sum_list (map (\<lambda>r. if ok r then 1 else RETRY_ATTEMPTS) recs)
       \<and> s_success (snd (record_loop post tbl recs (k, sres)))
           = s_success sres + length (filter ok recs)
       \<and> s_failed (snd (record_loop post tbl recs (k, sres)))
           = s_failed sres + length (filter (\<lambda>r. \<not> ok r) recs)
       \<and> length (s_errors (snd (record_loop post tbl recs (k, sres))))
           = length (s_errors sres) + length (filter (\<lambda>r. \<not> ok r) recs)"
proof (induction recs arbitrary: k sres)
  case Nil
  show ?case by simp
next
  case (Cons r recs)
  show ?case
  proof (cases "ok r")
    case True
    have "record_loop post tbl (r # recs) (k, sres)
          = record_loop post tbl recs (k + 0 + 1, sres\<lparr>s_success := s_success sres + 1\<rparr>)"
      using assms True
        record_loop_success_step[where K=0 and post=post and k=k and tbl=tbl and rec=r
          and recs=recs and sres=sres]
      by (simp add: RETRY_ATTEMPTS_def)
    then show ?thesis using True by (simp add: Cons.IH)
  next
    case False
    have "record_loop post tbl (r # recs) (k, sres)
          = record_loop post tbl recs
             (k + RETRY_ATTEMPTS,
              sres\<lparr>s_failed := s_failed sres + 1,
                   s_errors := s_errors sres
                     @ [error_entry_of r (post (k + (RETRY_ATTEMPTS - 1)) tbl r)]\<rparr>)"
      using assms False
        record_loop_failure_step[where post=post and k=k and tbl=tbl and rec=r
          and recs=recs and sres=sres]
      by simp
    then show ?thesis using False by (simp add: Cons.IH)
  qed
qed

lemma send_batch_to_supabase_stateless:
  assumes "\<forall>k r. succeeds (post k tbl r) = ok r" and "tb \<noteq> 0"
  shows "fst (send_batch_to_supabase post (bn, tb, tbl, recs, tn) stats)
         = Inr \<lparr>success = length (filter ok recs),
                 failed = length (filter (\<lambda>r. \<not> ok r) recs), of_batch = bn\<rparr>"
proof -
  have "record_loop_fast post tbl recs (0, \<lparr>success = 0, failed = 0, of_batch = bn\<rparr>)
        = (0 + sum_list (map (\<lambda>r. if ok r then 1 else RETRY_ATTEMPTS_fast) recs),
           \<lparr>success = 0, failed = 0, of_batch = bn\<rparr>
             \<lparr>success := success \<lparr>success = 0, failed = 0, of_batch = bn\<rparr>
                          + length (filter ok recs),
              failed := failed \<lparr>success = 0, failed = 0, of_batch = bn\<rparr>
                          + length (filter (\<lambda>r. \<not> ok r) recs)\<rparr>)"
    using assms(1)
    by (rule record_loop_fast_stateless[where post=post and tbl=tbl and ok=ok and recs=recs
               and k=0 and res="\<lparr>success = 0, failed = 0, of_batch = bn\<rparr>"])
  with assms(2) show ?thesis
    by (simp add: send_batch_to_supabase_def Let_def)
qed

lemma send_to_supabase_stateless:
  assumes "\<forall>k r. succeeds (post k tbl r) = ok r"
  shows "\<exists>r. send_to_supabase post tbl recs False k
              = (k + sum_list (map (\<lambda>r. if ok r then 1 else RETRY_ATTEMPTS) recs), Sent r)
           \<and> s_success r = length (filter ok recs)
           \<and> s_failed r = length (filter (\<lambda>r. \<not> ok r) recs)
           \<and> length (s_errors r) = length (filter (\<lambda>r. \<not> ok r) recs)"
  using assms record_loop_stateless[where ok = ok and post = post and tbl = tbl and recs = recs
          and k = k and sres = "\<lparr>s_success = 0, s_failed = 0, s_errors = []\<rparr>"]
  by (simp add: send_to_supabase_def split_beta)




section \<open>Properties of the progress aggregator\<close>

lemma send_batch_progress:
  "\<exists>res. success res + failed res = length recs
        \<and> snd (send_batch_to_supabase e (bn, tb, st, recs, tn) stats)
            = stats(tn \<mapsto> update_progress tb res (stats tn))"
proof -
  let ?res = "snd (record_loop_fast e st recs (0, \<lparr>success = 0, failed = 0, of_batch = bn\<rparr>))"
  have "success ?res + failed ?res = length recs"
    using record_loop_fast_total[of e st recs 0 "\<lparr>success = 0, failed = 0, of_batch = bn\<rparr>"]
    by simp
  moreover have "snd (send_batch_to_supabase e (bn, tb, st, recs, tn) stats)
            = stats(tn \<mapsto> update_progress tb ?res (stats tn))"
    by (simp add: send_batch_to_supabase_def Let_def)
  ultimately show ?thesis by blast
qed

lemma send_batch_returns:
  "tb \<noteq> 0 \<Longrightarrow> \<exists>res. fst (send_batch_to_supabase e (bn, tb, st, recs, tn) stats) = Inr res"
  by (simp add: send_batch_to_supabase_def Let_def)

lemma run_workers_Cons:
  "snd (run_workers post (b # bs) stats)
   = snd (run_workers post bs (snd (send_batch_to_supabase (post (fst b)) b stats)))"
  by (simp add: split_beta Let_def)

lemma run_workers_existing:
  assumes "\<forall>b\<in>set bs. (case b of (bn, tb, st, recs, tn) \<Rightarrow> tn = t)"
    and "stats t = Some p0"
  shows "\<exists>p. snd (run_workers post bs stats) t = Some p
           \<and> completed p = completed p0 + length bs
           \<and> total p = total p0
           \<and> p_success p + p_failed p
               = p_success p0 + p_failed p0
                 + sum_list (map (\<lambda>(bn, tb, st, recs, tn). length recs) bs)"
  using assms
proof (induction bs arbitrary: stats p0)
  case Nil
  then show ?case by simp
next
  case (Cons b bs)
  obtain bn tb st recs tn where b: "b = (bn, tb, st, recs, tn)" by (cases b)
  with Cons.prems have tn: "tn = t" by simp
  obtain res where res: "success res + failed res = length recs"
    and s1: "snd (send_batch_to_supabase (post (fst b)) b stats)
       = stats(t \<mapsto> update_progress tb res (stats t))"
    using send_batch_progress[of recs "post (fst b)" bn tb st tn stats] b tn by auto
  let ?p1 = "update_progress tb res (Some p0)"
  let ?stats1 = "stats(t \<mapsto> ?p1)"
  have p1: "completed ?p1 = completed p0 + 1" "total ?p1 = total p0"
    "p_success ?p1 + p_failed ?p1 = p_success p0 + p_failed p0 + length recs"
    using res by (simp_all add: update_progress_def)
  have "\<exists>p. snd (run_workers post bs ?stats1) t = Some p
           \<and> completed p = completed ?p1 + length bs
           \<and> total p = total ?p1
           \<and> p_success p + p_failed p
               = p_success ?p1 + p_failed ?p1
                 + sum_list (map (\<lambda>(bn, tb, st, recs, tn). length recs) bs)"
    using Cons.prems by (intro Cons.IH) simp_all
  then show ?case
    using p1 s1 Cons.prems(2) b by (auto simp: run_workers_Cons simp del: run_workers.simps)
qed

lemma run_workers_fresh:
  assumes "\<forall>b\<in>set bs. (case b of (bn, tb, st, recs, tn) \<Rightarrow> tn = t \<and> tb = T)"
    and "stats t = None" and "bs \<noteq> []"
  shows "\<exists>p. snd (run_workers post bs stats) t = Some p
           \<and> completed p = length bs
           \<and> total p = T
           \<and> p_success p + p_failed p
               = sum_list (map (\<lambda>(bn, tb, st, recs, tn). length recs) bs)"
proof -
  from assms(3) obtain b bs' where bs: "bs = b # bs'" by (cases bs) auto
  obtain bn tb st recs tn where b: "b = (bn, tb, st, recs, tn)" by (cases b)
  with assms(1) bs have tn: "tn = t" "tb = T" by simp_all
  obtain res where res: "success res + failed res = length recs"
    and s1: "snd (send_batch_to_supabase (post (fst b)) b stats)
       = stats(t \<mapsto> update_progress T res (stats t))"
    using send_batch_progress[of recs "post (fst b)" bn tb st tn stats] b tn by auto
  let ?p1 = "update_progress T res None"
  let ?stats1 = "stats(t \<mapsto> ?p1)"
  have p1: "completed ?p1 = 1" "total ?p1 = T"
    "p_success ?p1 + p_failed ?p1 = length recs"
    using res by (simp_all add: update_progress_def)
  have "\<forall>b\<in>set bs'. (case b of (bn, tb, st, recs, tn) \<Rightarrow> tn = t)"
    using assms(1) bs by auto
  then have "\<exists>p. snd (run_workers post bs' ?stats1) t = Some p
           \<and> completed p = completed ?p1 + length bs'
           \<and> total p = total ?p1
           \<and> p_success p + p_failed p
               = p_success ?p1 + p_failed ?p1
                 + sum_list (map (\<lambda>(bn, tb, st, recs, tn). length recs) bs')"
    by (intro run_workers_existing) simp_all
  then show ?thesis
    using p1 s1 assms(2) b bs by (auto simp: run_workers_Cons simp del: run_workers.simps)
qed

lemma create_batches_facts:
  assumes "create_batches st t xs = Inr batches"
  shows "\<forall>b\<in>set batches. (case b of (bn, tb, st', recs, tn) \<Rightarrow>
            tn = t \<and> tb = (int (length xs) + BATCH_SIZE_fast - 1) div BATCH_SIZE_fast)"
    and "int (length batches) = (int (length xs) + BATCH_SIZE_fast - 1) div BATCH_SIZE_fast"
    and "sum_list (map (\<lambda>(bn, tb, st', recs, tn). length recs) batches) = length xs"
proof -
  let ?is = "range_up 0 (int (length xs)) BATCH_SIZE_fast"
  have pos: "0 < BATCH_SIZE_fast" by (simp add: BATCH_SIZE_fast_def)
  from assms have bs: "batches = map (\<lambda>(batch_num, total_batches, batch).
                 (batch_num, total_batches, st, batch, t))
            (map (batch_of BATCH_SIZE_fast xs) ?is)"
    by (simp add: create_batches_plan)
  show "\<forall>b\<in>set batches. (case b of (bn, tb, st', recs, tn) \<Rightarrow>
            tn = t \<and> tb = (int (length xs) + BATCH_SIZE_fast - 1) div BATCH_SIZE_fast)"
    by (auto simp: bs batch_of_def)
  have "0 \<le> (int (length xs) + BATCH_SIZE_fast - 1) div BATCH_SIZE_fast"
    using pos by (simp add: pos_imp_zdiv_nonneg_iff)
  then show "int (length batches) = (int (length xs) + BATCH_SIZE_fast - 1) div BATCH_SIZE_fast"
    using pos by (simp add: bs range_up_length)
  have "map (\<lambda>(bn, tb, st', recs, tn). length recs) batches
        = map length (map (\<lambda>(batch_num, total_batches, batch). batch)
            (map (batch_of BATCH_SIZE_fast xs) ?is))"
    by (simp add: bs batch_of_def)
  then have "sum_list (map (\<lambda>(bn, tb, st', recs, tn). length recs) batches)
        = length (concat (map (\<lambda>(batch_num, total_batches, batch). batch)
            (map (batch_of BATCH_SIZE_fast xs) ?is)))"
    by (simp only: length_concat)
  then show "sum_list (map (\<lambda>(bn, tb, st', recs, tn). length recs) batches) = length xs"
    using plan_batches_concat[OF pos, of xs] by simp
qed

text \<open>
  C3.  The workers of a table report in any order (\<open>order\<close> is any rearrangement of the
  batches of the table), each report being one atomic update of the table's entry, which does
  not exist before the first report.  After any prefix of the reports the completed-batch
  count of the entry does not exceed its total-batch count.  Once all batches of a table with
  \<open>R > 0\<close> scanned records have reported, the completed-batch count equals the total-batch
  count, which is \<open>ceil(R / 100)\<close>, and the success and failure counters add up to \<open>R\<close>.
  A table without records has no batch and gets no entry.
\<close>

theorem progress_conservation:
  assumes "create_batches st t xs = Inr batches"
    and "mset order = mset batches"
    and "stats t = None"
  shows "(\<forall>n p. snd (run_workers post (take n order) stats) t = Some p
             \<longrightarrow> int (completed p) \<le> total p)
       \<and> (xs \<noteq> [] \<longrightarrow>
            (\<exists>p. snd (run_workers post order stats) t = Some p
                \<and> int (completed p) = total p
                \<and> total p = \<lceil>(of_nat (length xs) :: rat) / 100\<rceil>
                \<and> p_success p + p_failed p = length xs))
       \<and> (xs = [] \<longrightarrow> snd (run_workers post order stats) t = None)"
proof -
  let ?T = "(int (length xs) + BATCH_SIZE_fast - 1) div BATCH_SIZE_fast"
  note facts = create_batches_facts[OF assms(1)]
  have set_eq: "set order = set batches" using assms(2) by (rule mset_eq_setD)
  have len_eq: "length order = length batches" using assms(2) by (rule mset_eq_length)
  have all: "\<forall>b\<in>set order. (case b of (bn, tb, st', recs, tn) \<Rightarrow> tn = t \<and> tb = ?T)"
    using facts(1) set_eq by simp
  have sum_eq: "sum_list (map (\<lambda>(bn, tb, st', recs, tn). length recs) order) = length xs"
  proof -
    have "sum_list (map (\<lambda>(bn, tb, st', recs, tn). length recs) order)
          = sum_mset (image_mset (\<lambda>(bn, tb, st', recs, tn). length recs) (mset order))"
      by (simp flip: sum_mset_sum_list)
    also have "\<dots> = sum_list (map (\<lambda>(bn, tb, st', recs, tn). length recs) batches)"
      by (simp add: assms(2) flip: sum_mset_sum_list)
    finally show ?thesis using facts(3) by simp
  qed
  have ceil: "?T = \<lceil>(of_nat (length xs) :: rat) / 100\<rceil>"
    using total_batches_ceiling[of BATCH_SIZE_fast xs] by (simp add: BATCH_SIZE_fast_def)
  have prefix: "int (completed p) \<le> total p"
    if "snd (run_workers post (take n order) stats) t = Some p" for n p
  proof (cases "take n order = []")
    case True
    with that assms(3) show ?thesis by simp
  next
    case False
    have "\<forall>b\<in>set (take n order). (case b of (bn, tb, st', recs, tn) \<Rightarrow> tn = t \<and> tb = ?T)"
      using all by (meson in_set_takeD)
    from run_workers_fresh[where bs = "take n order" and t = t and T = "?T"
           and stats = stats and post = post, OF this assms(3) False] that
    have "completed p = length (take n order)" "total p = ?T" by auto
    moreover have "length (take n order) \<le> length batches" using len_eq by simp
    ultimately show ?thesis using facts(2) by simp
  qed
  have full: "\<exists>p. snd (run_workers post order stats) t = Some p
                \<and> int (completed p) = total p
                \<and> total p = \<lceil>(of_nat (length xs) :: rat) / 100\<rceil>
                \<and> p_success p + p_failed p = length xs"
    if "xs \<noteq> []"
  proof -
    from that facts(3) have "batches \<noteq> []" by auto
    then have "order \<noteq> []" using len_eq by auto
    from run_workers_fresh[where bs = order and t = t and T = "?T"
           and stats = stats and post = post, OF all assms(3) this]
    show ?thesis using sum_eq len_eq facts(2) ceil by auto
  qed
  have empty: "snd (run_workers post order stats) t = None" if "xs = []"
  proof -
    from that facts(2) have "batches = []" by (simp add: BATCH_SIZE_fast_def)
    then have "order = []" using len_eq by simp
    then show ?thesis using assms(3) by simp
  qed
  from prefix full empty show ?thesis by blast
qed

lemma workers_return:
  assumes "create_batches st t xs = Inr batches" and "set order \<subseteq> set batches"
  shows "\<forall>out\<in>set (fst (run_workers post order stats)). \<exists>res. out = Inr res"
proof -
  note facts = create_batches_facts[OF assms(1)]
  have nz: "\<forall>b\<in>set order. (case b of (bn, tb, st', recs, tn) \<Rightarrow> tb \<noteq> 0)"
  proof
    fix b assume b: "b \<in> set order"
    with assms(2) have "b \<in> set batches" by auto
    then have "batches \<noteq> []" by auto
    then have "(int (length xs) + BATCH_SIZE_fast - 1) div BATCH_SIZE_fast \<noteq> 0"
      using facts(2) by auto
    with facts(1) \<open>b \<in> set batches\<close>
    show "case b of (bn, tb, st', recs, tn) \<Rightarrow> tb \<noteq> 0" by auto
  qed
  then show ?thesis
  proof (induction order arbitrary: stats)
    case Nil
    then show ?case by simp
  next
    case (Cons b bs)
    obtain bn tb st' recs tn where b: "b = (bn, tb, st', recs, tn)" by (cases b)
    with Cons.prems have "tb \<noteq> 0" by simp
    then obtain res where "fst (send_batch_to_supabase (post (fst b)) b stats) = Inr res"
      using send_batch_returns[of tb "post (fst b)" bn st' recs tn stats] b by auto
    moreover have "\<forall>out\<in>set (fst (run_workers post bs
                      (snd (send_batch_to_supabase (post (fst b)) b stats)))). \<exists>res. out = Inr res"
      using Cons.prems by (intro Cons.IH) simp
    ultimately show ?case by (auto simp: split_beta Let_def)
  qed
qed

theorem progress_conservation_witness:
  "create_batches ''t'' ''T'' (replicate 101 [])
     = Inr [(1, 2, ''t'', replicate 100 [], ''T''), (2, 2, ''t'', [[]], ''T'')]
   \<and> mset [(2::int, 2::int, ''t'', [[]] :: item list, ''T''), (1, 2, ''t'', replicate 100 [], ''T'')]
       = mset [(1, 2, ''t'', replicate 100 [], ''T''), (2, 2, ''t'', [[]], ''T'')]
   \<and> (Map.empty :: progress_stats) ''T'' = None
   \<and> (\<exists>p. snd (run_workers (\<lambda>n k tbl r. Response 200 ''ok'')
                 [(2, 2, ''t'', [[]], ''T''), (1, 2, ''t'', replicate 100 [], ''T'')]
                 Map.empty) ''T'' = Some p
          \<and> int (completed p) = total p \<and> total p = 2
          \<and> p_success p + p_failed p = 101)"
proof -
  have c: "create_batches ''t'' ''T'' (replicate 101 [])
     = Inr [(1, 2, ''t'', replicate 100 [], ''T''), (2, 2, ''t'', [[]], ''T'')]"
    by (simp add: create_batches_def plan_batches_def py_range_def range_up.simps
          BATCH_SIZE_fast_def batch_of_def py_slice_def)
  have m: "mset [(2::int, 2::int, ''t'', [[]] :: item list, ''T''), (1, 2, ''t'', replicate 100 [], ''T'')]
       = mset [(1, 2, ''t'', replicate 100 [], ''T''), (2, 2, ''t'', [[]], ''T'')]"
    by simp
  have e: "(Map.empty :: progress_stats) ''T'' = None" by simp
  have "\<lceil>(of_nat (length (replicate 101 ([] :: item))) :: rat) / 100\<rceil> = 2"
    using ceiling_div[of 100 101] by simp
  with progress_conservation [OF c m e, of "\<lambda>n k tbl r. Response 200 ''ok''"] c m e
  show ?thesis by auto
qed



section \<open>Properties of the collection of worker results\<close>

lemma collect_results_sum:
  assumes "\<forall>(b, out)\<in>set outcomes. \<forall>r. out = Inr r \<longrightarrow> success r + failed r = length (records_of b)"
  shows "fst (collect_results (map snd outcomes) (ts, tf))
           + snd (collect_results (map snd outcomes) (ts, tf))
         = ts + tf + int (sum_list (map (\<lambda>(b, out). length (records_of b)) outcomes))
           + sum_list (map excess outcomes)"
  using assms
proof (induction outcomes arbitrary: ts tf)
  case Nil
  show ?case by simp
next
  case (Cons oc os)
  obtain b out where oc: "oc = (b, out)" by (cases oc)
  have IH: "fst (collect_results (map snd os) (ts', tf'))
           + snd (collect_results (map snd os) (ts', tf'))
         = ts' + tf' + int (sum_list (map (\<lambda>(b, out). length (records_of b)) os))
           + sum_list (map excess os)" for ts' tf'
    using Cons.prems by (intro Cons.IH) simp
  show ?case
  proof (cases out)
    case (Inl e)
    with oc show ?thesis by (simp add: IH)
  next
    case (Inr r)
    with Cons.prems oc have "success r + failed r = length (records_of b)" by simp
    then have "int (success r) + int (failed r) = int (length (records_of b))" by linarith
    with Inr oc show ?thesis by (simp add: IH)
  qed
qed

lemma batch_length_le:
  assumes "create_batches st t xs = Inr batches" and "b \<in> set batches"
  shows "int (length (records_of b)) \<le> BATCH_SIZE_fast"
proof -
  from assms obtain i where "records_of b = py_slice xs i (i + BATCH_SIZE_fast)"
    and "i \<in> set (range_up 0 (int (length xs)) BATCH_SIZE_fast)"
    by (auto simp: create_batches_plan batch_of_def)
  moreover from this(2) have "0 \<le> i" by (auto dest: range_up_nonneg[rotated])
  ultimately show ?thesis
    by (simp add: py_slice_batch BATCH_SIZE_fast_def)
qed

lemma records_sum:
  assumes "create_batches st t xs = Inr batches"
  shows "sum_list (map (\<lambda>b. length (records_of b)) batches) = length xs"
proof -
  have "(\<lambda>b. length (records_of b)) = (\<lambda>(bn, tb, st', recs, tn). length recs)"
    by (auto simp: fun_eq_iff)
  then show ?thesis using create_batches_facts(3)[OF assms] by simp
qed

lemma sum_list_mset_cong:
  fixes f :: "'a \<Rightarrow> nat"
  assumes "mset ys = mset zs"
  shows "sum_list (map f ys) = sum_list (map f zs)"
proof -
  have "sum_list (map f ys) = sum_mset (image_mset f (mset ys))"
    by (metis mset_map sum_mset_sum_list)
  also have "\<dots> = sum_mset (image_mset f (mset zs))" by (simp only: assms)
  also have "\<dots> = sum_list (map f zs)"
    by (metis mset_map sum_mset_sum_list)
  finally show ?thesis .
qed

lemma sum_list_pos_member:
  fixes xs :: "int list"
  assumes "\<forall>x\<in>set xs. 0 \<le> x" and "y \<in> set xs" and "0 < y"
  shows "0 < sum_list xs"
  using assms
proof (induction xs)
  case Nil
  then show ?case by simp
next
  case (Cons x xs)
  have "0 \<le> sum_list xs" using Cons.prems(1) by (intro sum_list_nonneg) simp
  show ?case
  proof (cases "y = x")
    case True
    with \<open>0 \<le> sum_list xs\<close> Cons.prems(3) show ?thesis by simp
  next
    case False
    with Cons.prems have "0 < sum_list xs" by (intro Cons.IH) simp_all
    moreover have "0 \<le> x" using Cons.prems(1) by simp
    ultimately show ?thesis by simp
  qed
qed

text \<open>
  C9.  In the loop over the completed futures of the parallel importer, a future that
  raises adds the constant batch size 100 to the failure total, whatever the number of records
  of its batch.  Take the batches of a table of \<open>N\<close> records, each with the outcome of its
  future, in any order, where a future that returns has counted every record of its batch once.
  Then the reported success and failure totals add up to \<open>N\<close> plus, for every future that
  raised, the difference between 100 and the size of its batch.  So the report exceeds the
  number of records scanned as soon as the future of a batch shorter than 100, which only the
  final batch can be, has raised.
\<close>

theorem worker_exception_accounting:
  assumes "create_batches st t xs = Inr batches"
    and "mset (map fst outcomes) = mset batches"
    and "\<forall>(b, out)\<in>set outcomes. \<forall>r. out = Inr r
           \<longrightarrow> success r + failed r = length (records_of b)"
  shows "collect_results (Inl e # futures) (ts, tf) = collect_results futures (ts, tf + 100)
       \<and> fst (collect_results (map snd outcomes) (0, 0))
           + snd (collect_results (map snd outcomes) (0, 0))
         = int (length xs) + sum_list (map excess outcomes)
       \<and> ((\<exists>b e'. (b, Inl e') \<in> set outcomes \<and> length (records_of b) < 100)
           \<longrightarrow> int (length xs) < fst (collect_results (map snd outcomes) (0, 0))
                                  + snd (collect_results (map snd outcomes) (0, 0)))"
proof -
  have step: "collect_results (Inl e # futures) (ts, tf) = collect_results futures (ts, tf + 100)"
    by (simp add: BATCH_SIZE_fast_def)
  have "sum_list (map (\<lambda>(b, out). length (records_of b)) outcomes)
        = sum_list (map (\<lambda>b. length (records_of b)) (map fst outcomes))"
    by (simp add: comp_def case_prod_unfold)
  also have "\<dots> = sum_list (map (\<lambda>b. length (records_of b)) batches)"
    using assms(2) by (rule sum_list_mset_cong)
  finally have n: "sum_list (map (\<lambda>(b, out). length (records_of b)) outcomes) = length xs"
    using records_sum[OF assms(1)] by simp
  have total: "fst (collect_results (map snd outcomes) (0, 0))
           + snd (collect_results (map snd outcomes) (0, 0))
         = int (length xs) + sum_list (map excess outcomes)"
    using collect_results_sum[OF assms(3), of 0 0] n by simp
  have nonneg: "\<forall>x\<in>set (map excess outcomes). 0 \<le> x"
  proof
    fix x assume "x \<in> set (map excess outcomes)"
    then obtain b out where bo: "(b, out) \<in> set outcomes" "x = excess (b, out)" by auto
    then have "b \<in> set (map fst outcomes)" by force
    then have "b \<in> set batches" using assms(2) by (metis mset_eq_setD)
    then have "int (length (records_of b)) \<le> BATCH_SIZE_fast"
      using batch_length_le[OF assms(1)] by simp
    with bo(2) show "0 \<le> x" by (cases out) simp_all
  qed
  have strict: "int (length xs) < fst (collect_results (map snd outcomes) (0, 0))
                                  + snd (collect_results (map snd outcomes) (0, 0))"
    if "\<exists>b e'. (b, Inl e') \<in> set outcomes \<and> length (records_of b) < 100"
  proof -
    from that obtain b e' where b: "(b, Inl e') \<in> set outcomes" "length (records_of b) < 100"
      by blast
    then have "excess (b, Inl e') \<in> set (map excess outcomes)" by force
    moreover have "0 < excess (b, Inl e')" using b(2) by (simp add: BATCH_SIZE_fast_def)
    ultimately have "0 < sum_list (map excess outcomes)"
      using nonneg by (intro sum_list_pos_member[where y = "excess (b, Inl e')"]) simp_all
    with total show ?thesis by simp
  qed
  from step total strict show ?thesis by blast
qed


theorem worker_exception_accounting_witness:
  "create_batches ''t'' ''T'' (replicate 101 [])
     = Inr [(1, 2, ''t'', replicate 100 [], ''T''), (2, 2, ''t'', [[]], ''T'')]
   \<and> length (records_of (2, 2, ''t'', [[]], ''T'')) < 100
   \<and> collect_results
        [Inr \<lparr>success = 100, failed = 0, of_batch = 1\<rparr>, Inl ValueError] (0, 0) = (100, 100)
   \<and> int (length (replicate 101 ([] :: item)))
       < fst (collect_results
               [Inr \<lparr>success = 100, failed = 0, of_batch = 1\<rparr>, Inl ValueError] (0, 0))
         + snd (collect_results
               [Inr \<lparr>success = 100, failed = 0, of_batch = 1\<rparr>, Inl ValueError] (0, 0))"
proof -
  let ?b1 = "(1::int, 2::int, ''t'', replicate 100 ([] :: item), ''T'')"
  let ?b2 = "(2::int, 2::int, ''t'', [[] :: item], ''T'')"
  let ?outcomes = "[(?b1, Inr \<lparr>success = 100, failed = 0, of_batch = 1\<rparr>),
                    (?b2, Inl ValueError)]"
  have c: "create_batches ''t'' ''T'' (replicate 101 []) = Inr [?b1, ?b2]"
    by (simp add: create_batches_def plan_batches_def py_range_def range_up.simps
          BATCH_SIZE_fast_def batch_of_def py_slice_def)
  have m: "mset (map fst ?outcomes) = mset [?b1, ?b2]" by simp
  have r: "\<forall>(b, out)\<in>set ?outcomes. \<forall>r. out = Inr r
           \<longrightarrow> success r + failed r = length (records_of b)"
    by simp
  have s: "\<exists>b e'. (b, Inl e') \<in> set ?outcomes \<and> length (records_of b) < 100"
    by (intro exI[of _ ?b2] exI[of _ ValueError]) simp
  have v: "collect_results (map snd ?outcomes) (0, 0) = (100, 100)"
    by (simp add: BATCH_SIZE_fast_def)
  from worker_exception_accounting [OF c m r] s
  have "int (length (replicate 101 ([] :: item)))
          < fst (collect_results (map snd ?outcomes) (0, 0))
            + snd (collect_results (map snd ?outcomes) (0, 0))"
    by blast
  with c v show ?thesis by simp
qed



section \<open>Properties of the dry-run mode\<close>

lemma example_scan:
  "scan_dynamodb_table example_dynamodb ''t'' ''us-east-1'' = Some (1, Inr example_items)"
  by (simp add: scan_dynamodb_table_def scan_pages.simps example_dynamodb_def truthy_key_def)

lemma example_convert:
  "traverse (\<lambda>item. map_sum id (add_metadata ''t'' ''now'') (convert_dynamodb_item item))
     example_items = Inr example_converted"
  by (simp add: example_items_def example_converted_def add_metadata_def decimal_eval)

lemma traverse_length:
  "traverse f xs = Inr ys \<Longrightarrow> length ys = length xs"
  by (induction xs arbitrary: ys) (auto split: sum.splits)

lemma batch_loop_dry_run:
  "batch_loop bsize post st xs True is (k, ts, tf, errs) = (k, ts + int (length is), tf, errs)"
  by (induction "is" arbitrary: ts) (simp_all add: send_to_supabase_def split_beta Let_def)

lemma import_table_dry_run:
  assumes "scan_dynamodb_table dynamodb t region = Some (n, Inr raw_items)"
    and "raw_items \<noteq> []"
    and "traverse (\<lambda>item. map_sum id (add_metadata t now) (convert_dynamodb_item item))
           raw_items = Inr converted"
    and "py_range 0 (int (length raw_items)) bsize = Inr is"
  shows "import_table bsize dynamodb post now t region True w
         = Some (w\<lparr>scans := scans w + n\<rparr>,
                 Inr (Summary t (supabase_table_of t) (length raw_items)
                        (int (length is)) 0 []))"
proof -
  have "length converted = length raw_items" using assms(3) by (rule traverse_length)
  with assms show ?thesis
    by (simp add: import_table_def Let_def batch_loop_dry_run)
qed

text \<open>
  C10.  In dry-run mode \<^verbatim>\<open>send_to_supabase\<close> sends no request and returns the dictionary
  whose \<^verbatim>\<open>'success'\<close> field is the boolean \<^verbatim>\<open>True\<close>; the batch loop of \<^verbatim>\<open>import_table\<close> adds
  that field to the success total once per batch.  So for every table whose scan ends with at
  least one item and whose items convert, imported in dry-run mode with a batch size \<open>B > 0\<close>,
  \<^verbatim>\<open>import_table\<close> returns a summary whose success count is the number of batches,
  \<open>ceil(N / B)\<close> for \<open>N\<close> records, with no failure and no upsert request made.
\<close>

theorem dry_run_counts_batches:
  assumes "scan_dynamodb_table dynamodb t region = Some (n, Inr raw_items)"
    and "raw_items \<noteq> []"
    and "traverse (\<lambda>item. map_sum id (add_metadata t now) (convert_dynamodb_item item))
           raw_items = Inr converted"
    and "0 < bsize"
  shows "send_to_supabase post st recs True k = (k, DryRun True True (length recs))
       \<and> get_success (snd (send_to_supabase post st recs True k)) = Flag True
       \<and> int_add ts (get_success (snd (send_to_supabase post st recs True k))) = ts + 1
       \<and> import_table bsize dynamodb post now t region True w
           = Some (w\<lparr>scans := scans w + n\<rparr>,
                   Inr (Summary t (supabase_table_of t) (length raw_items)
                          \<lceil>(of_nat (length raw_items) :: rat) / of_int bsize\<rceil> 0 []))"
proof -
  have r: "py_range 0 (int (length raw_items)) bsize
           = Inr (range_up 0 (int (length raw_items)) bsize)"
    using assms(4) by (simp add: py_range_def)
  have "0 \<le> (int (length raw_items) + bsize - 1) div bsize"
    using assms(4) by (simp add: pos_imp_zdiv_nonneg_iff)
  then have "int (length (range_up 0 (int (length raw_items)) bsize))
        = \<lceil>(of_nat (length raw_items) :: rat) / of_int bsize\<rceil>"
    using assms(4) by (simp add: range_up_length total_batches_ceiling[symmetric])
  with import_table_dry_run[OF assms(1-3) r, of post w]
  show ?thesis by (simp add: send_to_supabase_def)
qed

theorem dry_run_counts_batches_witness:
  "scan_dynamodb_table example_dynamodb ''t'' ''us-east-1'' = Some (1, Inr example_items)
   \<and> example_items \<noteq> []
   \<and> traverse (\<lambda>item. map_sum id (add_metadata ''t'' ''now'') (convert_dynamodb_item item))
        example_items = Inr example_converted
   \<and> (0::int) < 2
   \<and> length example_items = 3
   \<and> import_table 2 example_dynamodb (\<lambda>k tbl r. Response 200 ''ok'') ''now'' ''t''
        ''us-east-1'' True \<lparr>scans = 0, posts = 0\<rparr>
       = Some (\<lparr>scans = 1, posts = 0\<rparr>, Inr (Summary ''t'' ''t'' 3 2 0 []))"
proof -
  have ne: "example_items \<noteq> []" by (simp add: example_items_def)
  have len: "length example_items = 3" by (simp add: example_items_def)
  have pos: "(0::int) < 2" by simp
  have c: "\<lceil>(of_nat 3 :: rat) / of_int 2\<rceil> = 2"
    using ceiling_div[of 2 3] by simp
  have st: "supabase_table_of ''t'' = ''t''"
    by (simp add: supabase_table_of_def TABLE_MAPPINGS_def derived_name_def lower_char_def)
  from dry_run_counts_batches [OF example_scan ne example_convert pos,
         of "\<lambda>k tbl r. Response 200 ''ok''" "''t''" "[]" 0 0 "\<lparr>scans = 0, posts = 0\<rparr>"]
  have "import_table 2 example_dynamodb (\<lambda>k tbl r. Response 200 ''ok'') ''now'' ''t''
        ''us-east-1'' True \<lparr>scans = 0, posts = 0\<rparr>
       = Some (\<lparr>scans = 1, posts = 0\<rparr>, Inr (Summary ''t'' ''t'' 3 2 0 []))"
    using c by (simp add: len st)
  with example_scan ne example_convert len show ?thesis by simp
qed



section \<open>Properties of the decoders on values without a tag\<close>

lemma traverse_append:
  "traverse f (xs @ ys) =
     (case traverse f xs of
        Inl e \<Rightarrow> Inl e
      | Inr xs' \<Rightarrow> (case traverse f ys of Inl e \<Rightarrow> Inl e | Inr ys' \<Rightarrow> Inr (xs' @ ys')))"
  by (induction xs) (auto split: sum.splits)

lemma traverse_Inl_member:
  "traverse f xs = Inl e \<Longrightarrow> \<exists>x\<in>set xs. f x = Inl e"
  by (induction xs) (auto split: sum.splits)

lemma traverse_all_Inr:
  "\<forall>x\<in>set xs. \<exists>y. f x = Inr y \<Longrightarrow>
   \<exists>ys. traverse f xs = Inr ys \<and> list_all2 (\<lambda>x y. f x = Inr y) xs ys"
  by (induction xs) (auto split: sum.splits)

lemma length_filter_concat:
  "length (filter P (concat xss)) = sum_list (map (\<lambda>xs. length (filter P xs)) xss)"
  by (induction xss) simp_all

lemma sum_list_map_concat:
  fixes c :: "'a \<Rightarrow> nat"
  shows "sum_list (map c (concat xss)) = sum_list (map (\<lambda>xs. sum_list (map c xs)) xss)"
  by (induction xss) simp_all

lemma batch_loop_stateless:
  assumes "\<forall>k r. succeeds (post k st r) = ok r"
  shows "\<exists>errs'. batch_loop bsize post st xs False idxs (k, ts, tf, errs)
         = (k + sum_list (map (\<lambda>i. sum_list (map (\<lambda>r. if ok r then 1 else RETRY_ATTEMPTS)
                                           (py_slice xs i (i + bsize)))) idxs),
            ts + int (sum_list (map (\<lambda>i. length (filter ok (py_slice xs i (i + bsize)))) idxs)),
            tf + int (sum_list (map (\<lambda>i. length (filter (\<lambda>r. \<not> ok r)
                                                (py_slice xs i (i + bsize)))) idxs)),
            errs')"
proof (induction idxs arbitrary: k ts tf errs)
  case Nil
  show ?case by simp
next
  case (Cons i idxs)
  let ?batch = "py_slice xs i (i + bsize)"
  obtain r where r: "send_to_supabase post st ?batch False k
              = (k + sum_list (map (\<lambda>r. if ok r then 1 else RETRY_ATTEMPTS) ?batch), Sent r)"
    "s_success r = length (filter ok ?batch)"
    "s_failed r = length (filter (\<lambda>r. \<not> ok r) ?batch)"
    using assms send_to_supabase_stateless[where post=post and tbl=st and ok=ok
            and recs="?batch" and k=k]
    by blast
  obtain errs' where "batch_loop bsize post st xs False idxs
           (k + sum_list (map (\<lambda>r. if ok r then 1 else RETRY_ATTEMPTS) ?batch),
            ts + int (length (filter ok ?batch)),
            tf + int (length (filter (\<lambda>r. \<not> ok r) ?batch)),
            errs @ s_errors r)
         = (k + sum_list (map (\<lambda>r. if ok r then 1 else RETRY_ATTEMPTS) ?batch)
              + sum_list (map (\<lambda>i. sum_list (map (\<lambda>r. if ok r then 1 else RETRY_ATTEMPTS)
                                           (py_slice xs i (i + bsize)))) idxs),
            ts + int (length (filter ok ?batch))
              + int (sum_list (map (\<lambda>i. length (filter ok (py_slice xs i (i + bsize)))) idxs)),
            tf + int (length (filter (\<lambda>r. \<not> ok r) ?batch))
              + int (sum_list (map (\<lambda>i. length (filter (\<lambda>r. \<not> ok r)
                                                (py_slice xs i (i + bsize)))) idxs)),
            errs')"
    using Cons.IH by blast
  with r show ?case
    by (auto simp: batch_of_def Let_def)
qed

lemma import_table_stateless:
  assumes "scan_dynamodb_table dynamodb t region = Some (n, Inr raw_items)"
    and "raw_items \<noteq> []"
    and "traverse (\<lambda>item. map_sum id (add_metadata t now) (convert_dynamodb_item item))
           raw_items = Inr converted"
    and "0 < bsize"
    and "\<forall>k r. succeeds (post k (supabase_table_of t) r) = ok r"
  shows "\<exists>errs. import_table bsize dynamodb post now t region False w
         = Some (w\<lparr>scans := scans w + n,
                   posts := posts w
                     + sum_list (map (\<lambda>r. if ok r then 1 else RETRY_ATTEMPTS) converted)\<rparr>,
                 Inr (Summary t (supabase_table_of t) (length raw_items)
                        (int (length (filter ok converted)))
                        (int (length (filter (\<lambda>r. \<not> ok r) converted))) errs))"
proof -
  let ?is = "range_up 0 (int (length converted)) bsize"
  let ?slices = "map (\<lambda>i. py_slice converted i (i + bsize)) ?is"
  have len: "length converted = length raw_items" using assms(3) by (rule traverse_length)
  have r: "py_range 0 (int (length converted)) bsize = Inr ?is"
    using assms(4) by (simp add: py_range_def)
  have cc: "concat ?slices = converted"
    using concat_slices[OF assms(4), of 0 converted] by simp
  have s1: "sum_list (map (\<lambda>i. length (filter ok (py_slice converted i (i + bsize)))) ?is)
            = length (filter ok converted)"
    using length_filter_concat[of ok ?slices] by (simp add: cc comp_def)
  have s2: "sum_list (map (\<lambda>i. length (filter (\<lambda>r. \<not> ok r)
                                     (py_slice converted i (i + bsize)))) ?is)
            = length (filter (\<lambda>r. \<not> ok r) converted)"
    using length_filter_concat[of "\<lambda>r. \<not> ok r" ?slices] by (simp add: cc comp_def)
  have s3: "sum_list (map (\<lambda>i. sum_list (map (\<lambda>r. if ok r then 1 else RETRY_ATTEMPTS)
                                     (py_slice converted i (i + bsize)))) ?is)
            = sum_list (map (\<lambda>r. if ok r then 1 else RETRY_ATTEMPTS) converted)"
    using sum_list_map_concat[of "\<lambda>r. if ok r then 1 else RETRY_ATTEMPTS" ?slices]
    by (simp add: cc comp_def)
  obtain errs' where "batch_loop bsize post (supabase_table_of t) converted False ?is
                        (posts w, 0, 0, [])
         = (posts w + sum_list (map (\<lambda>r. if ok r then 1 else RETRY_ATTEMPTS) converted),
            int (length (filter ok converted)),
            int (length (filter (\<lambda>r. \<not> ok r) converted)), errs')"
    using assms(5) batch_loop_stateless[where post=post and st="supabase_table_of t" and ok=ok
            and bsize=bsize and xs=converted and idxs="?is" and k="posts w" and ts=0 and tf=0
            and errs="[]"]
    by (auto simp: s1 s2 s3)
  with assms(1-3) r len show ?thesis
    by (simp add: import_table_def Let_def)
qed

lemma import_table_decode_error:
  assumes "scan_dynamodb_table dynamodb t region = Some (n, Inr raw_items)"
    and "traverse (\<lambda>item. map_sum id (add_metadata t now) (convert_dynamodb_item item))
           raw_items = Inl e"
  shows "import_table bsize dynamodb post now t region dry_run w
         = Some (w\<lparr>scans := scans w + n\<rparr>, Inl e)"
proof -
  from assms(2) have "raw_items \<noteq> []" by auto
  with assms show ?thesis by (simp add: import_table_def Let_def)
qed

lemma run_workers_stateless:
  assumes "\<forall>bn k tbl r. succeeds (post bn k tbl r) = ok r"
    and "\<forall>b\<in>set bs. (case b of (bn, tb, st, recs, tn) \<Rightarrow> tb \<noteq> 0)"
  shows "fst (run_workers post bs stats)
         = map (\<lambda>(bn, tb, st, recs, tn).
                  Inr \<lparr>success = length (filter ok recs),
                        failed = length (filter (\<lambda>r. \<not> ok r) recs), of_batch = bn\<rparr>) bs"
  using assms(2)
proof (induction bs arbitrary: stats)
  case Nil
  show ?case by simp
next
  case (Cons b bs)
  obtain bn tb st recs tn where b: "b = (bn, tb, st, recs, tn)" by (cases b)
  with Cons.prems have tb: "tb \<noteq> 0" by simp
  have st: "\<forall>k r. succeeds (post bn k st r) = ok r" using assms(1) by simp
  have "fst (send_batch_to_supabase (post bn) (bn, tb, st, recs, tn) stats)
        = Inr \<lparr>success = length (filter ok recs),
                failed = length (filter (\<lambda>r. \<not> ok r) recs), of_batch = bn\<rparr>"
    using st tb send_batch_to_supabase_stateless[where post="post bn" and tbl=st and ok=ok
            and tb=tb and bn=bn and recs=recs and tn=tn and stats=stats]
    by blast
  moreover have "fst (run_workers post bs
                   (snd (send_batch_to_supabase (post bn) (bn, tb, st, recs, tn) stats)))
         = map (\<lambda>(bn, tb, st, recs, tn).
                  Inr \<lparr>success = length (filter ok recs),
                        failed = length (filter (\<lambda>r. \<not> ok r) recs), of_batch = bn\<rparr>) bs"
    using Cons.prems by (intro Cons.IH) simp
  ultimately show ?case using b by (simp add: split_beta Let_def)
qed

lemma collect_results_returned:
  "collect_results (map (\<lambda>b. Inr (f b)) bs) (ts, tf)
   = (ts + int (sum_list (map (\<lambda>b. success (f b)) bs)),
      tf + int (sum_list (map (\<lambda>b. failed (f b)) bs)))"
  by (induction bs arbitrary: ts tf) simp_all

lemma records_of_conv: "records_of b = fst (snd (snd (snd b)))"
  by (cases b) simp

lemma create_batches_records:
  assumes "create_batches st t xs = Inr batches"
  shows "concat (map records_of batches) = xs"
proof -
  have pos: "0 < BATCH_SIZE_fast" by (simp add: BATCH_SIZE_fast_def)
  from assms have "map records_of batches
        = map (\<lambda>(batch_num, total_batches, batch). batch)
            (map (batch_of BATCH_SIZE_fast xs) (range_up 0 (int (length xs)) BATCH_SIZE_fast))"
    by (auto simp: create_batches_plan batch_of_def)
  then show ?thesis using plan_batches_concat[OF pos, of xs] by simp
qed

lemma import_table_parallel_stateless:
  assumes "scan_dynamodb_table dynamodb t region = Some (n, Inr items)"
    and "items \<noteq> []"
    and "traverse convert_dynamodb_item_fast items = Inr converted"
    and "0 < num_workers"
    and "\<forall>bs. mset (schedule bs) = mset bs"
    and "\<forall>bn k tbl r. succeeds (post bn k tbl r) = ok r"
  shows "\<exists>stats'. import_table_parallel dynamodb post schedule t region num_workers w
         = Some ((fst w + n, stats'),
                 Inr (Summary_fast t (supabase_table_of_fast t) (length items)
                        (int (length (filter ok converted)))
                        (int (length (filter (\<lambda>r. \<not> ok r) converted)))))"
proof -
  let ?st = "supabase_table_of_fast t"
  let ?f = "\<lambda>b. \<lparr>success = length (filter ok (records_of b)),
                  failed = length (filter (\<lambda>r. \<not> ok r) (records_of b)), of_batch = fst b\<rparr>"
  have len: "length converted = length items" using assms(3) by (rule traverse_length)
  obtain batches where cb: "create_batches ?st t converted = Inr batches"
    by (simp add: create_batches_plan)
  note facts = create_batches_facts[OF cb]
  have ne: "converted \<noteq> []" using len assms(2) by auto
  have ms: "mset (schedule batches) = mset batches" using assms(5) by simp
  have nz: "\<forall>b\<in>set (schedule batches). (case b of (bn, tb, st, recs, tn) \<Rightarrow> tb \<noteq> 0)"
  proof
    fix b assume "b \<in> set (schedule batches)"
    then have b: "b \<in> set batches" using ms by (metis mset_eq_setD)
    then have "batches \<noteq> []" by auto
    then have "(int (length converted) + BATCH_SIZE_fast - 1) div BATCH_SIZE_fast \<noteq> 0"
      using facts(2) by auto
    with facts(1) b show "case b of (bn, tb, st, recs, tn) \<Rightarrow> tb \<noteq> 0" by auto
  qed
  have fut: "fst (run_workers post (schedule batches) (snd (fst w + n, snd w)))
             = map (\<lambda>b. Inr (?f b)) (schedule batches)"
    using run_workers_stateless[OF assms(6) nz, of "snd w"]
    by (simp add: case_prod_unfold records_of_conv)
  have s1: "sum_list (map (\<lambda>b. success (?f b)) (schedule batches))
            = length (filter ok converted)"
  proof -
    have "sum_list (map (\<lambda>b. success (?f b)) (schedule batches))
          = sum_list (map (\<lambda>b. success (?f b)) batches)"
      using ms by (rule sum_list_mset_cong)
    also have "\<dots> = length (filter ok (concat (map records_of batches)))"
      by (simp add: length_filter_concat comp_def)
    finally show ?thesis by (simp add: create_batches_records[OF cb])
  qed
  have s2: "sum_list (map (\<lambda>b. failed (?f b)) (schedule batches))
            = length (filter (\<lambda>r. \<not> ok r) converted)"
  proof -
    have "sum_list (map (\<lambda>b. failed (?f b)) (schedule batches))
          = sum_list (map (\<lambda>b. failed (?f b)) batches)"
      using ms by (rule sum_list_mset_cong)
    also have "\<dots> = length (filter (\<lambda>r. \<not> ok r) (concat (map records_of batches)))"
      by (simp add: length_filter_concat comp_def)
    finally show ?thesis by (simp add: create_batches_records[OF cb])
  qed
  have col: "collect_results (fst (run_workers post (schedule batches) (snd (fst w + n, snd w))))
               (0, 0)
             = (int (length (filter ok converted)),
                int (length (filter (\<lambda>r. \<not> ok r) converted)))"
    using collect_results_returned[of ?f "schedule batches" 0 0]
    by (simp only: fut s1 s2) simp
  show ?thesis
    using assms(1-4) cb col len
    by (simp add: import_table_parallel_def Let_def split_beta)
qed

lemma import_table_parallel_decode_error:
  assumes "scan_dynamodb_table dynamodb t region = Some (n, Inr items)"
    and "traverse convert_dynamodb_item_fast items = Inl e"
  shows "import_table_parallel dynamodb post schedule t region num_workers w
         = Some ((fst w + n, snd w), Inl e)"
proof -
  from assms(2) have "items \<noteq> []" by auto
  with assms show ?thesis by (simp add: import_table_parallel_def Let_def)
qed

lemma convert_dynamodb_value_atom:
  "atom v \<Longrightarrow> convert_dynamodb_value v = Inr v"
  by (cases v) simp_all

lemma traverse_atoms:
  "\<forall>kv\<in>set d. atom (snd kv) \<Longrightarrow>
   traverse (\<lambda>kv. case convert_dynamodb_value (snd kv) of
                     Inl e \<Rightarrow> Inl e | Inr v \<Rightarrow> Inr (fst kv, v)) d = Inr d"
  by (induction d) (simp_all add: convert_dynamodb_value_atom)

lemma convert_entry_fast_untagged:
  assumes "\<forall>k\<in>set [''S'', ''N'', ''BOOL'', ''NULL'', ''SS'', ''NS'', ''M'', ''L'']. map_of d k = None"
  shows "convert_entry_fast (PDict d) = Inr (PDict d)"
  using assms by simp

lemma convert_dynamodb_value_untagged:
  assumes "\<forall>k\<in>set known_tags. map_of d k = None"
  shows "convert_dynamodb_value (PDict d) = map_sum id PDict (convert_dynamodb_item d)"
  using assms by (simp add: known_tags_def)

text \<open>
  C6 (as stated, refuted).  The claim: a tagged value that matches no known tag shape is
  rejected as a DecodeError.  Neither decoder has such an error: the value \<^verbatim>\<open>{'X': 'foo'}\<close>
  under the field \<^verbatim>\<open>a\<close> is decoded without error by both, to itself.
\<close>

theorem unknown_tag_counterexample:
  "convert_dynamodb_item_fast [(''a'', PDict [(''X'', PStr ''foo'')])]
     = Inr [(''a'', PDict [(''X'', PStr ''foo'')])]
   \<and> convert_dynamodb_item [(''a'', PDict [(''X'', PStr ''foo'')])]
     = Inr [(''a'', PDict [(''X'', PStr ''foo'')])]"
  by simp


lemma traverse_member:
  "traverse f xs = Inr ys \<Longrightarrow> x \<in> set xs \<Longrightarrow> \<exists>y\<in>set ys. f x = Inr y"
  by (induction xs arbitrary: ys) (auto split: sum.splits)

lemma convert_dynamodb_item_fast_field:
  assumes "convert_entry_fast v = Inr v"
  shows "convert_dynamodb_item_fast (pre @ (key, v) # rest)
         = (case convert_dynamodb_item_fast pre of
              Inl e \<Rightarrow> Inl e
            | Inr pre' \<Rightarrow>
                (case convert_dynamodb_item_fast rest of
                   Inl e \<Rightarrow> Inl e
                 | Inr rest' \<Rightarrow> Inr (pre' @ (key, v) # rest')))"
  using assms by (simp add: traverse_append split: sum.splits)

lemma convert_dynamodb_item_field:
  assumes "convert_dynamodb_value v = Inr v"
  shows "convert_dynamodb_item (pre @ (key, v) # rest)
         = (case convert_dynamodb_item pre of
              Inl e \<Rightarrow> Inl e
            | Inr pre' \<Rightarrow>
                (case convert_dynamodb_item rest of
                   Inl e \<Rightarrow> Inl e
                 | Inr rest' \<Rightarrow> Inr (pre' @ (key, v) # rest')))"
  using assms by (simp add: traverse_append split: sum.splits)

lemma convert_dynamodb_value_untagged_error:
  assumes "\<forall>k\<in>set known_tags. map_of d k = None"
    and "convert_dynamodb_value (PDict d) = Inl e"
  shows "\<exists>kv\<in>set d. convert_dynamodb_value (snd kv) = Inl e"
proof -
  let ?h = "\<lambda>kv. case convert_dynamodb_value (snd kv) of
                     Inl e \<Rightarrow> Inl e | Inr v \<Rightarrow> Inr (fst kv, v)"
  from assms have "traverse ?h d = Inl e"
    by (simp add: convert_dynamodb_value_untagged del: convert_dynamodb_value.simps(1))
       (cases "traverse ?h d"; simp)
  then obtain kv where "kv \<in> set d" "?h kv = Inl e"
    using traverse_Inl_member by blast
  then show ?thesis by (auto split: sum.splits)
qed

lemma convert_dynamodb_value_untagged_members:
  assumes "\<forall>k\<in>set known_tags. map_of d k = None"
    and "\<forall>kv\<in>set d. \<exists>v. convert_dynamodb_value (snd kv) = Inr v"
  shows "\<exists>d'. convert_dynamodb_value (PDict d) = Inr (PDict d')
            \<and> list_all2 (\<lambda>kv kv'. fst kv' = fst kv
                            \<and> convert_dynamodb_value (snd kv) = Inr (snd kv')) d d'"
proof -
  let ?h = "\<lambda>kv. case convert_dynamodb_value (snd kv) of
                     Inl e \<Rightarrow> Inl e | Inr v \<Rightarrow> Inr (fst kv, v)"
  have "\<forall>kv\<in>set d. \<exists>y. ?h kv = Inr y" using assms(2) by (auto split: sum.splits)
  then obtain d' where d': "traverse ?h d = Inr d'" "list_all2 (\<lambda>x y. ?h x = Inr y) d d'"
    using traverse_all_Inr[of d ?h] by blast
  from d'(2) have "list_all2 (\<lambda>kv kv'. fst kv' = fst kv
                            \<and> convert_dynamodb_value (snd kv) = Inr (snd kv')) d d'"
    by (rule list_all2_mono) (auto split: sum.splits)
  moreover have "convert_dynamodb_value (PDict d) = Inr (PDict d')"
    using assms(1) d'(1)
    by (simp add: convert_dynamodb_value_untagged del: convert_dynamodb_value.simps(1))
  ultimately show ?thesis by blast
qed


lemma convert_dynamodb_item_fast_split:
  assumes "convert_dynamodb_item_fast (pre @ (key, v) # rest) = Inr rec"
  shows "\<exists>pre' v' rest'. convert_dynamodb_item_fast pre = Inr pre'
           \<and> convert_entry_fast v = Inr v'
           \<and> convert_dynamodb_item_fast rest = Inr rest'
           \<and> rec = pre' @ (key, v') # rest'"
  using assms by (auto simp add: traverse_append split: sum.splits)

lemma convert_dynamodb_item_split:
  assumes "convert_dynamodb_item (pre @ (key, v) # rest) = Inr rec"
  shows "\<exists>pre' v' rest'. convert_dynamodb_item pre = Inr pre'
           \<and> convert_dynamodb_value v = Inr v'
           \<and> convert_dynamodb_item rest = Inr rest'
           \<and> rec = pre' @ (key, v') # rest'"
  using assms by (auto simp add: traverse_append split: sum.splits)

lemma example_scan_untagged:
  "scan_dynamodb_table example_dynamodb_untagged ''t'' ''us-east-1''
     = Some (1, Inr example_items_untagged)"
  by (simp add: scan_dynamodb_table_def scan_pages.simps example_dynamodb_untagged_def
        truthy_key_def)


text \<open>
  C6 (amended).  Let \<open>d\<close> be a dictionary that holds none of the ten tags, stored under the
  field \<open>key\<close> of a record \<open>pre @ (key, PDict d) # rest\<close>.  Nothing rejects it on account of its
  tag:
  \<^item> the parallel decoder returns the value unchanged, and the record decodes exactly when
    its other fields do, keeping the field with the value as it was;
  \<^item> the sequential decoder decodes it as a plain dictionary: the result is that of decoding
    its members under their own keys, so it is an exception only when the decoding of a
    member raises that exception, it is a dictionary with the same keys when all members
    decode, and it is the value itself when all members are plain values;
  \<^item> in the parallel importer, when every item of the table decodes, the decoded record
    still holds the field with the value \<open>d\<close>, and the table's summary counts every decoded
    record, this one included, as a success or as a failure by the answer of the endpoint
    alone;
  \<^item> in the sequential importer, when every item decodes, the decoded record holds the field
    with the decoded members, every decoded record is sent (one request when it is accepted,
    \<open>RETRY_ATTEMPTS\<close> when it is not) and counted by the answer of the endpoint alone;
  \<^item> in both importers, when the decoding of an item raises, the import of the table ends
    with that exception after the scan: the sequential importer has sent no request, and
    in the parallel importer no worker has reported to the progress dictionary.

  The endpoint's answer is taken to depend on the record only (\<open>ok\<close>), and the order in which
  the workers complete (\<open>schedule\<close>) is any permutation of the batches.
\<close>

theorem unknown_tag_passes_through:
  assumes "\<forall>k\<in>set known_tags. map_of d k = None"
  shows
    "convert_entry_fast (PDict d) = Inr (PDict d)
     \<and> convert_dynamodb_item_fast (pre @ (key, PDict d) # rest)
         = (case convert_dynamodb_item_fast pre of
              Inl e \<Rightarrow> Inl e
            | Inr pre' \<Rightarrow>
                (case convert_dynamodb_item_fast rest of
                   Inl e \<Rightarrow> Inl e
                 | Inr rest' \<Rightarrow> Inr (pre' @ (key, PDict d) # rest')))
     \<and> convert_dynamodb_value (PDict d) = map_sum id PDict (convert_dynamodb_item d)
     \<and> (\<forall>e. convert_dynamodb_value (PDict d) = Inl e
          \<longrightarrow> (\<exists>kv\<in>set d. convert_dynamodb_value (snd kv) = Inl e))
     \<and> ((\<forall>kv\<in>set d. \<exists>v. convert_dynamodb_value (snd kv) = Inr v)
          \<longrightarrow> (\<exists>d'. convert_dynamodb_value (PDict d) = Inr (PDict d')
                 \<and> list_all2 (\<lambda>kv kv'. fst kv' = fst kv
                       \<and> convert_dynamodb_value (snd kv) = Inr (snd kv')) d d'))
     \<and> ((\<forall>kv\<in>set d. atom (snd kv))
          \<longrightarrow> convert_dynamodb_value (PDict d) = Inr (PDict d)
            \<and> convert_dynamodb_item (pre @ (key, PDict d) # rest)
                = (case convert_dynamodb_item pre of
                     Inl e \<Rightarrow> Inl e
                   | Inr pre' \<Rightarrow>
                       (case convert_dynamodb_item rest of
                          Inl e \<Rightarrow> Inl e
                        | Inr rest' \<Rightarrow> Inr (pre' @ (key, PDict d) # rest'))))
     \<and> (scan_dynamodb_table dynamodb t region = Some (n, Inr items)
          \<and> pre @ (key, PDict d) # rest \<in> set items
          \<and> traverse convert_dynamodb_item_fast items = Inr converted_fast
          \<and> 0 < num_workers
          \<and> (\<forall>bs. mset (schedule bs) = mset bs)
          \<and> (\<forall>bn k tbl r. succeeds (post_fast bn k tbl r) = ok r)
          \<longrightarrow> (\<exists>pre' rest'. convert_dynamodb_item_fast pre = Inr pre'
                   \<and> convert_dynamodb_item_fast rest = Inr rest'
                   \<and> pre' @ (key, PDict d) # rest' \<in> set converted_fast)
            \<and> (\<exists>stats'.
                 import_table_parallel dynamodb post_fast schedule t region num_workers w_fast
                 = Some ((fst w_fast + n, stats'),
                         Inr (Summary_fast t (supabase_table_of_fast t) (length items)
                                (int (length (filter ok converted_fast)))
                                (int (length (filter (\<lambda>r. \<not> ok r) converted_fast)))))))
     \<and> (scan_dynamodb_table dynamodb t region = Some (n, Inr items)
          \<and> pre @ (key, PDict d) # rest \<in> set items
          \<and> traverse (\<lambda>item. map_sum id (add_metadata t now) (convert_dynamodb_item item))
                items = Inr converted
          \<and> 0 < bsize
          \<and> (\<forall>k r. succeeds (post k (supabase_table_of t) r) = ok r)
          \<longrightarrow> (\<exists>pre' d' rest'. convert_dynamodb_item pre = Inr pre'
                   \<and> convert_dynamodb_item d = Inr d'
                   \<and> convert_dynamodb_item rest = Inr rest'
                   \<and> add_metadata t now (pre' @ (key, PDict d') # rest') \<in> set converted)
            \<and> (\<exists>errs.
                 import_table bsize dynamodb post now t region False w
                 = Some (w\<lparr>scans := scans w + n,
                           posts := posts w
                             + sum_list (map (\<lambda>r. if ok r then 1 else RETRY_ATTEMPTS)
                                           converted)\<rparr>,
                         Inr (Summary t (supabase_table_of t) (length items)
                                (int (length (filter ok converted)))
                                (int (length (filter (\<lambda>r. \<not> ok r) converted))) errs))))
     \<and> (\<forall>e. scan_dynamodb_table dynamodb t region = Some (n, Inr items)
            \<and> pre @ (key, PDict d) # rest \<in> set items
            \<and> traverse convert_dynamodb_item_fast items = Inl e
          \<longrightarrow> import_table_parallel dynamodb post_fast schedule t region num_workers w_fast
              = Some ((fst w_fast + n, snd w_fast), Inl e))
     \<and> (\<forall>e. scan_dynamodb_table dynamodb t region = Some (n, Inr items)
            \<and> pre @ (key, PDict d) # rest \<in> set items
            \<and> traverse (\<lambda>item. map_sum id (add_metadata t now) (convert_dynamodb_item item))
                 items = Inl e
          \<longrightarrow> import_table bsize dynamodb post now t region False w
              = Some (w\<lparr>scans := scans w + n\<rparr>, Inl e))"
proof -
  have fast: "convert_entry_fast (PDict d) = Inr (PDict d)"
    using assms by (intro convert_entry_fast_untagged) (simp add: known_tags_def)
  have fast_rec: "convert_dynamodb_item_fast (pre @ (key, PDict d) # rest)
         = (case convert_dynamodb_item_fast pre of
              Inl e \<Rightarrow> Inl e
            | Inr pre' \<Rightarrow>
                (case convert_dynamodb_item_fast rest of
                   Inl e \<Rightarrow> Inl e
                 | Inr rest' \<Rightarrow> Inr (pre' @ (key, PDict d) # rest')))"
    using fast by (rule convert_dynamodb_item_fast_field)
  have seq: "convert_dynamodb_value (PDict d) = map_sum id PDict (convert_dynamodb_item d)"
    using assms by (rule convert_dynamodb_value_untagged)
  have err: "\<forall>e. convert_dynamodb_value (PDict d) = Inl e
          \<longrightarrow> (\<exists>kv\<in>set d. convert_dynamodb_value (snd kv) = Inl e)"
    using convert_dynamodb_value_untagged_error[OF assms] by blast
  have mem: "(\<forall>kv\<in>set d. \<exists>v. convert_dynamodb_value (snd kv) = Inr v)
          \<longrightarrow> (\<exists>d'. convert_dynamodb_value (PDict d) = Inr (PDict d')
                 \<and> list_all2 (\<lambda>kv kv'. fst kv' = fst kv
                       \<and> convert_dynamodb_value (snd kv) = Inr (snd kv')) d d')"
    using convert_dynamodb_value_untagged_members[OF assms] by blast
  have atoms: "(\<forall>kv\<in>set d. atom (snd kv))
          \<longrightarrow> convert_dynamodb_value (PDict d) = Inr (PDict d)
            \<and> convert_dynamodb_item (pre @ (key, PDict d) # rest)
                = (case convert_dynamodb_item pre of
                     Inl e \<Rightarrow> Inl e
                   | Inr pre' \<Rightarrow>
                       (case convert_dynamodb_item rest of
                          Inl e \<Rightarrow> Inl e
                        | Inr rest' \<Rightarrow> Inr (pre' @ (key, PDict d) # rest')))"
  proof
    assume a: "\<forall>kv\<in>set d. atom (snd kv)"
    have v: "convert_dynamodb_value (PDict d) = Inr (PDict d)"
      using a by (simp only: seq convert_dynamodb_item.simps traverse_atoms) simp
    from v convert_dynamodb_item_field[OF v]
    show "convert_dynamodb_value (PDict d) = Inr (PDict d)
            \<and> convert_dynamodb_item (pre @ (key, PDict d) # rest)
                = (case convert_dynamodb_item pre of
                     Inl e \<Rightarrow> Inl e
                   | Inr pre' \<Rightarrow>
                       (case convert_dynamodb_item rest of
                          Inl e \<Rightarrow> Inl e
                        | Inr rest' \<Rightarrow> Inr (pre' @ (key, PDict d) # rest')))"
      by blast
  qed
  have par: "scan_dynamodb_table dynamodb t region = Some (n, Inr items)
          \<and> pre @ (key, PDict d) # rest \<in> set items
          \<and> traverse convert_dynamodb_item_fast items = Inr converted_fast
          \<and> 0 < num_workers
          \<and> (\<forall>bs. mset (schedule bs) = mset bs)
          \<and> (\<forall>bn k tbl r. succeeds (post_fast bn k tbl r) = ok r)
          \<longrightarrow> (\<exists>pre' rest'. convert_dynamodb_item_fast pre = Inr pre'
                   \<and> convert_dynamodb_item_fast rest = Inr rest'
                   \<and> pre' @ (key, PDict d) # rest' \<in> set converted_fast)
            \<and> (\<exists>stats'.
                 import_table_parallel dynamodb post_fast schedule t region num_workers w_fast
                 = Some ((fst w_fast + n, stats'),
                         Inr (Summary_fast t (supabase_table_of_fast t) (length items)
                                (int (length (filter ok converted_fast)))
                                (int (length (filter (\<lambda>r. \<not> ok r) converted_fast))))))"
  proof
    assume h: "scan_dynamodb_table dynamodb t region = Some (n, Inr items)
          \<and> pre @ (key, PDict d) # rest \<in> set items
          \<and> traverse convert_dynamodb_item_fast items = Inr converted_fast
          \<and> 0 < num_workers
          \<and> (\<forall>bs. mset (schedule bs) = mset bs)
          \<and> (\<forall>bn k tbl r. succeeds (post_fast bn k tbl r) = ok r)"
    then have sc: "scan_dynamodb_table dynamodb t region = Some (n, Inr items)"
      and m: "pre @ (key, PDict d) # rest \<in> set items"
      and tr: "traverse convert_dynamodb_item_fast items = Inr converted_fast"
      and nw: "0 < num_workers"
      and pm: "\<forall>bs. mset (schedule bs) = mset bs"
      and ok: "\<forall>bn k tbl r. succeeds (post_fast bn k tbl r) = ok r"
      by simp_all
    from m have ne: "items \<noteq> []" by auto
    from traverse_member[OF tr m] obtain rec where
      rec: "rec \<in> set converted_fast"
        "convert_dynamodb_item_fast (pre @ (key, PDict d) # rest) = Inr rec"
      by blast
    from convert_dynamodb_item_fast_split[OF rec(2)] fast rec(1)
    have kept: "\<exists>pre' rest'. convert_dynamodb_item_fast pre = Inr pre'
                   \<and> convert_dynamodb_item_fast rest = Inr rest'
                   \<and> pre' @ (key, PDict d) # rest' \<in> set converted_fast"
      by auto
    from import_table_parallel_stateless
           [where dynamodb = dynamodb and t = t and region = region and n = n
              and items = items and converted = converted_fast
              and num_workers = num_workers and schedule = schedule
              and post = post_fast and ok = ok and w = w_fast]
         sc ne tr nw pm ok
    have "\<exists>stats'.
                 import_table_parallel dynamodb post_fast schedule t region num_workers w_fast
                 = Some ((fst w_fast + n, stats'),
                         Inr (Summary_fast t (supabase_table_of_fast t) (length items)
                                (int (length (filter ok converted_fast)))
                                (int (length (filter (\<lambda>r. \<not> ok r) converted_fast)))))"
      by blast
    with kept show "(\<exists>pre' rest'. convert_dynamodb_item_fast pre = Inr pre'
                   \<and> convert_dynamodb_item_fast rest = Inr rest'
                   \<and> pre' @ (key, PDict d) # rest' \<in> set converted_fast)
            \<and> (\<exists>stats'.
                 import_table_parallel dynamodb post_fast schedule t region num_workers w_fast
                 = Some ((fst w_fast + n, stats'),
                         Inr (Summary_fast t (supabase_table_of_fast t) (length items)
                                (int (length (filter ok converted_fast)))
                                (int (length (filter (\<lambda>r. \<not> ok r) converted_fast))))))"
      by blast
  qed
  have sq: "scan_dynamodb_table dynamodb t region = Some (n, Inr items)
          \<and> pre @ (key, PDict d) # rest \<in> set items
          \<and> traverse (\<lambda>item. map_sum id (add_metadata t now) (convert_dynamodb_item item))
                items = Inr converted
          \<and> 0 < bsize
          \<and> (\<forall>k r. succeeds (post k (supabase_table_of t) r) = ok r)
          \<longrightarrow> (\<exists>pre' d' rest'. convert_dynamodb_item pre = Inr pre'
                   \<and> convert_dynamodb_item d = Inr d'
                   \<and> convert_dynamodb_item rest = Inr rest'
                   \<and> add_metadata t now (pre' @ (key, PDict d') # rest') \<in> set converted)
            \<and> (\<exists>errs.
                 import_table bsize dynamodb post now t region False w
                 = Some (w\<lparr>scans := scans w + n,
                           posts := posts w
                             + sum_list (map (\<lambda>r. if ok r then 1 else RETRY_ATTEMPTS)
                                           converted)\<rparr>,
                         Inr (Summary t (supabase_table_of t) (length items)
                                (int (length (filter ok converted)))
                                (int (length (filter (\<lambda>r. \<not> ok r) converted))) errs)))"
  proof
    assume h: "scan_dynamodb_table dynamodb t region = Some (n, Inr items)
          \<and> pre @ (key, PDict d) # rest \<in> set items
          \<and> traverse (\<lambda>item. map_sum id (add_metadata t now) (convert_dynamodb_item item))
                items = Inr converted
          \<and> 0 < bsize
          \<and> (\<forall>k r. succeeds (post k (supabase_table_of t) r) = ok r)"
    then have sc: "scan_dynamodb_table dynamodb t region = Some (n, Inr items)"
      and m: "pre @ (key, PDict d) # rest \<in> set items"
      and tr: "traverse (\<lambda>item. map_sum id (add_metadata t now) (convert_dynamodb_item item))
                items = Inr converted"
      and bs: "0 < bsize"
      and ok: "\<forall>k r. succeeds (post k (supabase_table_of t) r) = ok r"
      by simp_all
    from m have ne: "items \<noteq> []" by auto
    from traverse_member[OF tr m] obtain y where
      y: "y \<in> set converted"
        "map_sum id (add_metadata t now)
           (convert_dynamodb_item (pre @ (key, PDict d) # rest)) = Inr y"
      by blast
    from y(2) obtain rec where
      rec: "convert_dynamodb_item (pre @ (key, PDict d) # rest) = Inr rec"
        "y = add_metadata t now rec"
      by (cases "convert_dynamodb_item (pre @ (key, PDict d) # rest)") auto
    from convert_dynamodb_item_split[OF rec(1)] obtain pre' v' rest' where
      sp: "convert_dynamodb_item pre = Inr pre'" "convert_dynamodb_value (PDict d) = Inr v'"
        "convert_dynamodb_item rest = Inr rest'" "rec = pre' @ (key, v') # rest'"
      by blast
    from sp(2) seq obtain d' where d': "convert_dynamodb_item d = Inr d'" "v' = PDict d'"
      by (cases "convert_dynamodb_item d") auto
    from sp d' rec(2) y(1)
    have kept: "\<exists>pre' d' rest'. convert_dynamodb_item pre = Inr pre'
                   \<and> convert_dynamodb_item d = Inr d'
                   \<and> convert_dynamodb_item rest = Inr rest'
                   \<and> add_metadata t now (pre' @ (key, PDict d') # rest') \<in> set converted"
      by blast
    from import_table_stateless
           [where dynamodb = dynamodb and t = t and region = region and n = n
              and raw_items = items and converted = converted and now = now
              and bsize = bsize and post = post and ok = ok and w = w]
         sc ne tr bs ok
    have "\<exists>errs.
                 import_table bsize dynamodb post now t region False w
                 = Some (w\<lparr>scans := scans w + n,
                           posts := posts w
                             + sum_list (map (\<lambda>r. if ok r then 1 else RETRY_ATTEMPTS)
                                           converted)\<rparr>,
                         Inr (Summary t (supabase_table_of t) (length items)
                                (int (length (filter ok converted)))
                                (int (length (filter (\<lambda>r. \<not> ok r) converted))) errs))"
      by blast
    with kept show "(\<exists>pre' d' rest'. convert_dynamodb_item pre = Inr pre'
                   \<and> convert_dynamodb_item d = Inr d'
                   \<and> convert_dynamodb_item rest = Inr rest'
                   \<and> add_metadata t now (pre' @ (key, PDict d') # rest') \<in> set converted)
            \<and> (\<exists>errs.
                 import_table bsize dynamodb post now t region False w
                 = Some (w\<lparr>scans := scans w + n,
                           posts := posts w
                             + sum_list (map (\<lambda>r. if ok r then 1 else RETRY_ATTEMPTS)
                                           converted)\<rparr>,
                         Inr (Summary t (supabase_table_of t) (length items)
                                (int (length (filter ok converted)))
                                (int (length (filter (\<lambda>r. \<not> ok r) converted))) errs)))"
      by blast
  qed
  have par_err: "\<forall>e. scan_dynamodb_table dynamodb t region = Some (n, Inr items)
            \<and> pre @ (key, PDict d) # rest \<in> set items
            \<and> traverse convert_dynamodb_item_fast items = Inl e
          \<longrightarrow> import_table_parallel dynamodb post_fast schedule t region num_workers w_fast
              = Some ((fst w_fast + n, snd w_fast), Inl e)"
    using import_table_parallel_decode_error by blast
  have sq_err: "\<forall>e. scan_dynamodb_table dynamodb t region = Some (n, Inr items)
            \<and> pre @ (key, PDict d) # rest \<in> set items
            \<and> traverse (\<lambda>item. map_sum id (add_metadata t now) (convert_dynamodb_item item))
                 items = Inl e
          \<longrightarrow> import_table bsize dynamodb post now t region False w
              = Some (w\<lparr>scans := scans w + n\<rparr>, Inl e)"
    using import_table_decode_error by blast
  show ?thesis
    by (intro conjI) (rule fast fast_rec seq err mem atoms par sq par_err sq_err)+
qed


theorem unknown_tag_passes_through_witness:
  "map_of [(''X'', PStr ''foo'')] ''S'' = None
   \<and> map_of [(''X'', PStr ''foo'')] ''N'' = None
   \<and> map_of [(''X'', PStr ''foo'')] ''B'' = None
   \<and> map_of [(''X'', PStr ''foo'')] ''SS'' = None
   \<and> map_of [(''X'', PStr ''foo'')] ''NS'' = None
   \<and> map_of [(''X'', PStr ''foo'')] ''BS'' = None
   \<and> map_of [(''X'', PStr ''foo'')] ''M'' = None
   \<and> map_of [(''X'', PStr ''foo'')] ''L'' = None
   \<and> map_of [(''X'', PStr ''foo'')] ''NULL'' = None
   \<and> map_of [(''X'', PStr ''foo'')] ''BOOL'' = None
   \<and> atom (PStr ''foo'')
   \<and> scan_dynamodb_table example_dynamodb_untagged ''t'' ''us-east-1''
       = Some (1, Inr example_items_untagged)
   \<and> convert_dynamodb_item_fast
        [(''id'', PDict [(''S'', PStr ''a'')]), (''a'', PDict [(''X'', PStr ''foo'')])]
       = Inr [(''id'', PStr ''a''), (''a'', PDict [(''X'', PStr ''foo'')])]
   \<and> convert_dynamodb_item
        [(''id'', PDict [(''S'', PStr ''a'')]), (''a'', PDict [(''X'', PStr ''foo'')])]
       = Inr [(''id'', PStr ''a''), (''a'', PDict [(''X'', PStr ''foo'')])]
   \<and> (\<exists>stats'.
        import_table_parallel example_dynamodb_untagged
          (\<lambda>(bn::int) (k::nat) tbl r. Response 200 ''ok'') (\<lambda>bs. bs) ''t'' ''us-east-1'' 2
          (0, Map.empty)
        = Some ((1, stats'), Inr (Summary_fast ''t'' ''t'' 2 2 0)))
   \<and> (\<exists>errs.
        import_table 25 example_dynamodb_untagged (\<lambda>(k::nat) tbl r. Response 200 ''ok'')
          ''now'' ''t'' ''us-east-1'' False \<lparr>scans = 0, posts = 0\<rparr>
        = Some (\<lparr>scans = 1, posts = 2\<rparr>, Inr (Summary ''t'' ''t'' 2 2 0 errs)))"
proof -
  let ?d = "[(''X'', PStr ''foo'')]"
  let ?pre = "[(''id'', PDict [(''S'', PStr ''a'')])]"
  let ?cf = "[[(''id'', PStr ''a''), (''a'', PDict ?d)], [(''id'', PStr ''b'')]]"
  let ?cs = "[[(''id'', PStr ''a''), (''a'', PDict ?d), (''_source_table'', PStr ''t''),
               (''_import_timestamp'', PStr ''now'')],
              [(''id'', PStr ''b''), (''_source_table'', PStr ''t''),
               (''_import_timestamp'', PStr ''now'')]]"
  have h: "\<forall>k\<in>set known_tags. map_of ?d k = None" by (simp add: known_tags_def)
  have a: "\<forall>kv\<in>set ?d. atom (snd kv)" by simp
  have m: "?pre @ (''a'', PDict ?d) # [] \<in> set example_items_untagged"
    by (simp add: example_items_untagged_def)
  have tf: "traverse convert_dynamodb_item_fast example_items_untagged = Inr ?cf"
    by (simp add: example_items_untagged_def)
  have ts: "traverse (\<lambda>item. map_sum id (add_metadata ''t'' ''now'')
                         (convert_dynamodb_item item)) example_items_untagged = Inr ?cs"
    by (simp add: example_items_untagged_def add_metadata_def)
  have len: "length example_items_untagged = 2" by (simp add: example_items_untagged_def)
  have stf: "supabase_table_of_fast ''t'' = ''t''"
    by (simp add: supabase_table_of_fast_def TABLE_MAPPINGS_fast_def derived_name_def
          lower_char_def)
  have st: "supabase_table_of ''t'' = ''t''"
    by (simp add: supabase_table_of_def TABLE_MAPPINGS_def derived_name_def lower_char_def)
  note inst = unknown_tag_passes_through
      [where d = ?d and pre = ?pre and key = "''a''" and rest = "[]"
         and dynamodb = example_dynamodb_untagged and t = "''t''" and region = "''us-east-1''"
         and n = 1 and items = example_items_untagged and converted_fast = ?cf
         and num_workers = 2 and schedule = "\<lambda>bs. bs"
         and post_fast = "\<lambda>(bn::int) (k::nat) tbl r. Response 200 ''ok''"
         and ok = "\<lambda>r. True" and w_fast = "(0, Map.empty)"
         and now = "''now''" and converted = ?cs and bsize = 25
         and post = "\<lambda>(k::nat) tbl r. Response 200 ''ok''"
         and w = "\<lparr>scans = 0, posts = 0\<rparr>", OF h]
  have fr: "convert_dynamodb_item_fast (?pre @ (''a'', PDict ?d) # [])
              = Inr [(''id'', PStr ''a''), (''a'', PDict ?d)]"
    using inst by simp
  have sr: "convert_dynamodb_item (?pre @ (''a'', PDict ?d) # [])
              = Inr [(''id'', PStr ''a''), (''a'', PDict ?d)]"
    using inst a by simp
  have par: "\<exists>stats'.
        import_table_parallel example_dynamodb_untagged
          (\<lambda>(bn::int) (k::nat) tbl r. Response 200 ''ok'') (\<lambda>bs. bs) ''t'' ''us-east-1'' 2
          (0, Map.empty)
        = Some ((1, stats'), Inr (Summary_fast ''t'' ''t'' 2 2 0))"
  proof -
    from inst have "scan_dynamodb_table example_dynamodb_untagged ''t'' ''us-east-1''
            = Some (1, Inr example_items_untagged)
          \<and> ?pre @ (''a'', PDict ?d) # [] \<in> set example_items_untagged
          \<and> traverse convert_dynamodb_item_fast example_items_untagged = Inr ?cf
          \<and> (0::int) < 2
          \<and> (\<forall>bs :: batch_data list. mset bs = mset bs)
          \<and> (\<forall>(bn::int) (k::nat) (tbl::string) (r::item).
                succeeds (Response 200 ''ok'') = True)
          \<longrightarrow> (\<exists>stats'.
                 import_table_parallel example_dynamodb_untagged
                   (\<lambda>(bn::int) (k::nat) tbl r. Response 200 ''ok'') (\<lambda>bs. bs) ''t''
                   ''us-east-1'' 2 (0, Map.empty)
                 = Some ((fst (0::nat, Map.empty :: progress_stats) + 1, stats'),
                         Inr (Summary_fast ''t'' (supabase_table_of_fast ''t'')
                                (length example_items_untagged)
                                (int (length (filter (\<lambda>r. True) ?cf)))
                                (int (length (filter (\<lambda>r. \<not> True) ?cf))))))"
      by blast
    with example_scan_untagged m tf show ?thesis
      by (simp add: len stf)
  qed
  have sq: "\<exists>errs.
        import_table 25 example_dynamodb_untagged (\<lambda>(k::nat) tbl r. Response 200 ''ok'')
          ''now'' ''t'' ''us-east-1'' False \<lparr>scans = 0, posts = 0\<rparr>
        = Some (\<lparr>scans = 1, posts = 2\<rparr>, Inr (Summary ''t'' ''t'' 2 2 0 errs))"
  proof -
    from inst have "scan_dynamodb_table example_dynamodb_untagged ''t'' ''us-east-1''
            = Some (1, Inr example_items_untagged)
          \<and> ?pre @ (''a'', PDict ?d) # [] \<in> set example_items_untagged
          \<and> traverse (\<lambda>item. map_sum id (add_metadata ''t'' ''now'')
                         (convert_dynamodb_item item)) example_items_untagged = Inr ?cs
          \<and> (0::int) < 25
          \<and> (\<forall>(k::nat) (r::item). succeeds (Response 200 ''ok'') = True)
          \<longrightarrow> (\<exists>errs.
                 import_table 25 example_dynamodb_untagged
                   (\<lambda>(k::nat) tbl r. Response 200 ''ok'') ''now'' ''t'' ''us-east-1'' False
                   \<lparr>scans = 0, posts = 0\<rparr>
                 = Some (\<lparr>scans = 0, posts = 0\<rparr>
                           \<lparr>scans := scans \<lparr>scans = 0, posts = 0\<rparr> + 1,
                             posts := posts \<lparr>scans = 0, posts = 0\<rparr>
                               + sum_list (map (\<lambda>r. if True then 1 else RETRY_ATTEMPTS) ?cs)\<rparr>,
                         Inr (Summary ''t'' (supabase_table_of ''t'')
                                (length example_items_untagged)
                                (int (length (filter (\<lambda>r. True) ?cs)))
                                (int (length (filter (\<lambda>r. \<not> True) ?cs))) errs)))"
      by blast
    with example_scan_untagged m ts show ?thesis
      by (simp add: len st numeral_2_eq_2)
  qed
  from h example_scan_untagged fr sr par sq show ?thesis
    by (simp add: known_tags_def)
qed

section \<open>Properties of the importers under an invalid configuration\<close>

lemma scan_pages_requests:
  assumes "scan_pages scan key page items = Some res"
  shows "page < fst res"
proof (rule scan_pages.raw_induct
        [where P = "\<lambda>scan key page items res. page < fst res", OF _ assms], goal_cases)
  case (1 sp scan key page items res)
  show ?case
  proof (cases "scan (if truthy_key key then key else None) page")
    case (Inl e)
    with 1(2) show ?thesis by auto
  next
    case (Inr response)
    show ?thesis
    proof (cases "truthy_key (LastEvaluatedKey response)")
      case True
      with 1(2) Inr
      have "sp scan (LastEvaluatedKey response) (Suc page) (items @ Items response) = Some res"
        by simp
      from 1(1)[OF this] show ?thesis by simp
    next
      case False
      with 1(2) Inr show ?thesis by auto
    qed
  qed
qed

lemma scan_dynamodb_table_requests:
  "scan_dynamodb_table dynamodb t region = Some (n, r) \<Longrightarrow> 0 < n"
  using scan_pages_requests[of "dynamodb region t" None 0 "[]" "(n, r)"]
  by (simp add: scan_dynamodb_table_def)


lemma range_down_empty: "stop \<ge> i \<Longrightarrow> range_down i stop step = []"
  by (simp add: range_down.simps)

lemma import_table_zero_batch:
  assumes "scan_dynamodb_table dynamodb t region = Some (n, Inr items)"
    and "items \<noteq> []"
    and "traverse (\<lambda>item. map_sum id (add_metadata t now) (convert_dynamodb_item item))
           items = Inr converted"
  shows "import_table 0 dynamodb post now t region dry_run w
         = Some (w\<lparr>scans := scans w + n\<rparr>, Inl ValueError)"
  using assms by (simp add: import_table_def py_range_def)

lemma import_table_negative_batch:
  assumes "scan_dynamodb_table dynamodb t region = Some (n, Inr items)"
    and "items \<noteq> []"
    and "traverse (\<lambda>item. map_sum id (add_metadata t now) (convert_dynamodb_item item))
           items = Inr converted"
    and "bsize < 0"
  shows "import_table bsize dynamodb post now t region dry_run w
         = Some (w\<lparr>scans := scans w + n\<rparr>,
                 Inr (Summary t (supabase_table_of t) (length items) 0 0 []))"
proof -
  have "length converted = length items" using assms(3) by (rule traverse_length)
  with assms show ?thesis
    by (simp add: import_table_def py_range_def range_down_empty)
qed

lemma import_table_parallel_no_workers:
  assumes "scan_dynamodb_table dynamodb t region = Some (n, Inr items)"
    and "items \<noteq> []"
    and "traverse convert_dynamodb_item_fast items = Inr converted"
    and "num_workers \<le> 0"
  shows "import_table_parallel dynamodb post schedule t region num_workers w
         = Some ((fst w + n, snd w), Inl ValueError)"
  using assms by (simp add: import_table_parallel_def create_batches_plan)

text \<open>
  C8 (as stated, refuted).  The claim: with a batch size that is zero or negative, or with no
  worker, the job fails at its start, before any scan page is read.  On the example table of
  three records, the sequential importer started with batch size 0 reads the table (one scan
  request), then records the \<^verbatim>\<open>ValueError\<close> of \<^verbatim>\<open>range\<close> for the table and ends with status 0;
  started with batch size -5 it reads the table and raises nothing at all, reporting three
  records of which none succeeded and none failed; the parallel importer started with no
  worker reads the table before the \<^verbatim>\<open>ValueError\<close> of the thread pool.
\<close>

theorem invalid_configuration_counterexample:
  "main example_dynamodb example_endpoint ''now''
      \<lparr>arg_table = Some ''t'', arg_region = ''us-east-1'', arg_all_firespring = False,
       arg_all_leads = False, arg_dry_run = False, arg_batch_size = 0\<rparr>
     = Some (\<lparr>scans = 1, posts = 0\<rparr>, 0, [ImportError ''t'' ValueError])
   \<and> main example_dynamodb example_endpoint ''now''
      \<lparr>arg_table = Some ''t'', arg_region = ''us-east-1'', arg_all_firespring = False,
       arg_all_leads = False, arg_dry_run = False, arg_batch_size = - 5\<rparr>
     = Some (\<lparr>scans = 1, posts = 0\<rparr>, 0, [Summary ''t'' ''t'' 3 0 0 []])
   \<and> main_fast example_dynamodb example_endpoint_fast id
      \<lparr>arg_table_fast = Some ''t'', arg_region_fast = ''us-east-1'',
       arg_all_firespring_fast = False, arg_workers = 0\<rparr>
     = Some ((1, Map.empty), 0, [ImportError_fast ''t'' ValueError])"
proof -
  have ne: "example_items \<noteq> []" by (simp add: example_items_def)
  have len: "length example_items = 3" by (simp add: example_items_def)
  have st: "supabase_table_of ''t'' = ''t''"
    by (simp add: supabase_table_of_def TABLE_MAPPINGS_def derived_name_def lower_char_def)
  have tf: "traverse convert_dynamodb_item_fast example_items
              = Inr [[(''id'', PStr ''a''), (''n'', PInt 5)],
                     [(''id'', PStr ''b''), (''n'', PInt 7)],
                     [(''id'', PStr ''c''), (''n'', PInt 9)]]"
    by (simp add: example_items_def decimal_eval)
  have z: "import_table 0 example_dynamodb example_endpoint ''now'' ''t''
             ''us-east-1'' False \<lparr>scans = 0, posts = 0\<rparr>
           = Some (\<lparr>scans = 1, posts = 0\<rparr>, Inl ValueError)"
    using import_table_zero_batch[OF example_scan ne example_convert] by simp
  have m: "import_table (- 5) example_dynamodb example_endpoint ''now'' ''t''
             ''us-east-1'' False \<lparr>scans = 0, posts = 0\<rparr>
           = Some (\<lparr>scans = 1, posts = 0\<rparr>, Inr (Summary ''t'' ''t'' 3 0 0 []))"
    using import_table_negative_batch[OF example_scan ne example_convert, of "- 5"]
    by (simp add: len st)
  have p: "import_table_parallel example_dynamodb (example_endpoint_fast ''t'') id
             ''t'' ''us-east-1'' 0 (0, Map.empty)
           = Some ((1, Map.empty), Inl ValueError)"
    using import_table_parallel_no_workers[OF example_scan ne tf, of 0] by simp
  show ?thesis
    by (simp add: main_def main_fast_def z m p exit_code_def)
qed

text \<open>
  C8 (amended).  Neither importer checks its configuration, and no configuration error
  exists.  For a table whose scan ends after \<open>n\<close> requests with at least one item, all of
  which decode: at least one scan request has been made (\<open>0 < n\<close>), and
  \<^item> with batch size 0 the import of the table in the sequential importer ends, after the
    scan and the decoding, with the \<^verbatim>\<open>ValueError\<close> of \<^verbatim>\<open>range\<close>; no upsert is sent, \<^verbatim>\<open>main\<close>
    records the error for the table, and the run ends with status 0;
  \<^item> with a negative batch size nothing is raised: the table is scanned, no batch is formed,
    no upsert is sent, the summary reports no success and no failure for the scanned
    records, and the run ends with status 0;
  \<^item> with a worker count that is zero or negative the import of the table in the parallel
    importer ends, after the scan and the decoding, with the \<^verbatim>\<open>ValueError\<close> of the thread
    pool; no worker has reported to the progress dictionary, \<^verbatim>\<open>main\<close> records the error,
    and the run ends with status 0.
\<close>

theorem invalid_configuration_after_scan:
  assumes "scan_dynamodb_table dynamodb t region = Some (n, Inr items)"
    and "items \<noteq> []"
    and "t \<noteq> []"
  shows
    "0 < n
     \<and> (traverse (\<lambda>item. map_sum id (add_metadata t now) (convert_dynamodb_item item))
           items = Inr converted
        \<longrightarrow> import_table 0 dynamodb post now t region dry_run w
              = Some (w\<lparr>scans := scans w + n\<rparr>, Inl ValueError)
          \<and> main dynamodb post now
               \<lparr>arg_table = Some t, arg_region = region, arg_all_firespring = False,
                arg_all_leads = False, arg_dry_run = dry_run, arg_batch_size = 0\<rparr>
              = Some (\<lparr>scans = n, posts = 0\<rparr>, 0, [ImportError t ValueError]))
     \<and> (traverse (\<lambda>item. map_sum id (add_metadata t now) (convert_dynamodb_item item))
           items = Inr converted \<and> bsize < 0
        \<longrightarrow> import_table bsize dynamodb post now t region dry_run w
              = Some (w\<lparr>scans := scans w + n\<rparr>,
                      Inr (Summary t (supabase_table_of t) (length items) 0 0 []))
          \<and> main dynamodb post now
               \<lparr>arg_table = Some t, arg_region = region, arg_all_firespring = False,
                arg_all_leads = False, arg_dry_run = dry_run, arg_batch_size = bsize\<rparr>
              = Some (\<lparr>scans = n, posts = 0\<rparr>, 0,
                      [Summary t (supabase_table_of t) (length items) 0 0 []]))
     \<and> (traverse convert_dynamodb_item_fast items = Inr converted_fast \<and> num_workers \<le> 0
        \<longrightarrow> import_table_parallel dynamodb post_fast schedule t region num_workers w_fast
              = Some ((fst w_fast + n, snd w_fast), Inl ValueError)
          \<and> main_fast dynamodb posts_fast schedule
               \<lparr>arg_table_fast = Some t, arg_region_fast = region,
                arg_all_firespring_fast = False, arg_workers = num_workers\<rparr>
              = Some ((n, Map.empty), 0, [ImportError_fast t ValueError]))"
proof -
  have n: "0 < n" using assms(1) by (rule scan_dynamodb_table_requests)
  have z: "traverse (\<lambda>item. map_sum id (add_metadata t now) (convert_dynamodb_item item))
           items = Inr converted
        \<longrightarrow> import_table 0 dynamodb post now t region dry_run w
              = Some (w\<lparr>scans := scans w + n\<rparr>, Inl ValueError)
          \<and> main dynamodb post now
               \<lparr>arg_table = Some t, arg_region = region, arg_all_firespring = False,
                arg_all_leads = False, arg_dry_run = dry_run, arg_batch_size = 0\<rparr>
              = Some (\<lparr>scans = n, posts = 0\<rparr>, 0, [ImportError t ValueError])"
  proof
    assume tr: "traverse (\<lambda>item. map_sum id (add_metadata t now)
                   (convert_dynamodb_item item)) items = Inr converted"
    note e = import_table_zero_batch[OF assms(1,2) tr]
    have "main dynamodb post now
               \<lparr>arg_table = Some t, arg_region = region, arg_all_firespring = False,
                arg_all_leads = False, arg_dry_run = dry_run, arg_batch_size = 0\<rparr>
              = Some (\<lparr>scans = n, posts = 0\<rparr>, 0, [ImportError t ValueError])"
      using assms(3) by (simp add: main_def e exit_code_def)
    with e show "import_table 0 dynamodb post now t region dry_run w
              = Some (w\<lparr>scans := scans w + n\<rparr>, Inl ValueError)
          \<and> main dynamodb post now
               \<lparr>arg_table = Some t, arg_region = region, arg_all_firespring = False,
                arg_all_leads = False, arg_dry_run = dry_run, arg_batch_size = 0\<rparr>
              = Some (\<lparr>scans = n, posts = 0\<rparr>, 0, [ImportError t ValueError])"
      by simp
  qed
  have m: "traverse (\<lambda>item. map_sum id (add_metadata t now) (convert_dynamodb_item item))
           items = Inr converted \<and> bsize < 0
        \<longrightarrow> import_table bsize dynamodb post now t region dry_run w
              = Some (w\<lparr>scans := scans w + n\<rparr>,
                      Inr (Summary t (supabase_table_of t) (length items) 0 0 []))
          \<and> main dynamodb post now
               \<lparr>arg_table = Some t, arg_region = region, arg_all_firespring = False,
                arg_all_leads = False, arg_dry_run = dry_run, arg_batch_size = bsize\<rparr>
              = Some (\<lparr>scans = n, posts = 0\<rparr>, 0,
                      [Summary t (supabase_table_of t) (length items) 0 0 []])"
  proof
    assume h: "traverse (\<lambda>item. map_sum id (add_metadata t now)
                   (convert_dynamodb_item item)) items = Inr converted \<and> bsize < 0"
    then have tr: "traverse (\<lambda>item. map_sum id (add_metadata t now)
                   (convert_dynamodb_item item)) items = Inr converted"
      and neg: "bsize < 0" by simp_all
    note e = import_table_negative_batch[OF assms(1,2) tr neg]
    have "main dynamodb post now
               \<lparr>arg_table = Some t, arg_region = region, arg_all_firespring = False,
                arg_all_leads = False, arg_dry_run = dry_run, arg_batch_size = bsize\<rparr>
              = Some (\<lparr>scans = n, posts = 0\<rparr>, 0,
                      [Summary t (supabase_table_of t) (length items) 0 0 []])"
      using assms(3) by (simp add: main_def e exit_code_def)
    with e show "import_table bsize dynamodb post now t region dry_run w
              = Some (w\<lparr>scans := scans w + n\<rparr>,
                      Inr (Summary t (supabase_table_of t) (length items) 0 0 []))
          \<and> main dynamodb post now
               \<lparr>arg_table = Some t, arg_region = region, arg_all_firespring = False,
                arg_all_leads = False, arg_dry_run = dry_run, arg_batch_size = bsize\<rparr>
              = Some (\<lparr>scans = n, posts = 0\<rparr>, 0,
                      [Summary t (supabase_table_of t) (length items) 0 0 []])"
      by simp
  qed
  have p: "traverse convert_dynamodb_item_fast items = Inr converted_fast \<and> num_workers \<le> 0
        \<longrightarrow> import_table_parallel dynamodb post_fast schedule t region num_workers w_fast
              = Some ((fst w_fast + n, snd w_fast), Inl ValueError)
          \<and> main_fast dynamodb posts_fast schedule
               \<lparr>arg_table_fast = Some t, arg_region_fast = region,
                arg_all_firespring_fast = False, arg_workers = num_workers\<rparr>
              = Some ((n, Map.empty), 0, [ImportError_fast t ValueError])"
  proof
    assume h: "traverse convert_dynamodb_item_fast items = Inr converted_fast
                 \<and> num_workers \<le> 0"
    then have tr: "traverse convert_dynamodb_item_fast items = Inr converted_fast"
      and nw: "num_workers \<le> 0" by simp_all
    note e = import_table_parallel_no_workers[OF assms(1,2) tr nw]
    have "main_fast dynamodb posts_fast schedule
               \<lparr>arg_table_fast = Some t, arg_region_fast = region,
                arg_all_firespring_fast = False, arg_workers = num_workers\<rparr>
              = Some ((n, Map.empty), 0, [ImportError_fast t ValueError])"
      using assms(3) by (simp add: main_fast_def e exit_code_def)
    with e show "import_table_parallel dynamodb post_fast schedule t region num_workers w_fast
              = Some ((fst w_fast + n, snd w_fast), Inl ValueError)
          \<and> main_fast dynamodb posts_fast schedule
               \<lparr>arg_table_fast = Some t, arg_region_fast = region,
                arg_all_firespring_fast = False, arg_workers = num_workers\<rparr>
              = Some ((n, Map.empty), 0, [ImportError_fast t ValueError])"
      by simp
  qed
  show ?thesis by (intro conjI) (rule n z m p)+
qed


theorem invalid_configuration_after_scan_witness:
  "scan_dynamodb_table example_dynamodb ''t'' ''us-east-1'' = Some (1, Inr example_items)
   \<and> example_items \<noteq> []
   \<and> traverse (\<lambda>item. map_sum id (add_metadata ''t'' ''now'') (convert_dynamodb_item item))
        example_items = Inr example_converted
   \<and> import_table 0 example_dynamodb (\<lambda>k tbl r. Response 200 ''ok'') ''now'' ''t''
        ''us-east-1'' False \<lparr>scans = 0, posts = 0\<rparr>
       = Some (\<lparr>scans = 1, posts = 0\<rparr>, Inl ValueError)
   \<and> import_table (- 5) example_dynamodb (\<lambda>k tbl r. Response 200 ''ok'') ''now'' ''t''
        ''us-east-1'' False \<lparr>scans = 0, posts = 0\<rparr>
       = Some (\<lparr>scans = 1, posts = 0\<rparr>, Inr (Summary ''t'' ''t'' 3 0 0 []))
   \<and> import_table_parallel example_dynamodb (\<lambda>bn k tbl r. Response 200 ''ok'') (\<lambda>bs. bs)
        ''t'' ''us-east-1'' 0 (0, Map.empty)
       = Some ((1, Map.empty), Inl ValueError)"
proof -
  let ?cf = "[[(''id'', PStr ''a''), (''n'', PInt 5)],
              [(''id'', PStr ''b''), (''n'', PInt 7)],
              [(''id'', PStr ''c''), (''n'', PInt 9)]]"
  have ne: "example_items \<noteq> []" by (simp add: example_items_def)
  have tne: "''t'' \<noteq> []" by simp
  have len: "length example_items = 3" by (simp add: example_items_def)
  have st: "supabase_table_of ''t'' = ''t''"
    by (simp add: supabase_table_of_def TABLE_MAPPINGS_def derived_name_def lower_char_def)
  have tf: "traverse convert_dynamodb_item_fast example_items = Inr ?cf"
    by (simp add: example_items_def decimal_eval)
  note inst = invalid_configuration_after_scan
      [OF example_scan ne tne,
       where now = "''now''" and converted = example_converted
         and post = "\<lambda>k tbl r. Response 200 ''ok''" and dry_run = False
         and w = "\<lparr>scans = 0, posts = 0\<rparr>" and bsize = "- 5"
         and converted_fast = ?cf and num_workers = 0
         and post_fast = "\<lambda>bn k tbl r. Response 200 ''ok''" and schedule = "\<lambda>bs. bs"
         and w_fast = "(0, Map.empty)"]
  have z: "import_table 0 example_dynamodb (\<lambda>k tbl r. Response 200 ''ok'') ''now'' ''t''
        ''us-east-1'' False \<lparr>scans = 0, posts = 0\<rparr>
       = Some (\<lparr>scans = 1, posts = 0\<rparr>, Inl ValueError)"
    using inst example_convert by simp
  have m: "import_table (- 5) example_dynamodb (\<lambda>k tbl r. Response 200 ''ok'') ''now'' ''t''
        ''us-east-1'' False \<lparr>scans = 0, posts = 0\<rparr>
       = Some (\<lparr>scans = 1, posts = 0\<rparr>, Inr (Summary ''t'' ''t'' 3 0 0 []))"
    using inst example_convert by (simp add: len st)
  have p: "import_table_parallel example_dynamodb (\<lambda>bn k tbl r. Response 200 ''ok'')
        (\<lambda>bs. bs) ''t'' ''us-east-1'' 0 (0, Map.empty)
       = Some ((1, Map.empty), Inl ValueError)"
    using inst tf by simp
  from example_scan ne example_convert z m p show ?thesis by simp
qed

section \<open>Properties of the decoders on untagged nested values\<close>

lemma traverse_list_all2:
  "list_all2 (\<lambda>t v. f v = g t) ts vs \<Longrightarrow> traverse f vs = traverse g ts"
  by (induction ts vs rule: list_all2_induct) (auto split: sum.splits)

lemma tagged_same_result:
  "tagged t v \<Longrightarrow> plain v \<Longrightarrow> convert_dynamodb_value v = convert_dynamodb_value t"
proof (induction rule: tagged.induct)
  case (tagged_N s d)
  then show ?case by simp
next
  case (tagged_L ts vs)
  have "list_all2 (\<lambda>t v. convert_dynamodb_value v = convert_dynamodb_value t) ts vs"
    using tagged_L.IH tagged_L.prems
    by (auto simp: list_all2_conv_all_nth list_all_length)
  then have "traverse convert_dynamodb_value vs = traverse convert_dynamodb_value ts"
    by (rule traverse_list_all2)
  then show ?case by simp
next
  case (tagged_M tm vm)
  let ?h = "\<lambda>kv. case convert_dynamodb_value (snd kv) of
                     Inl e \<Rightarrow> Inl e | Inr v \<Rightarrow> Inr (fst kv, v)"
  have "list_all2 (\<lambda>t v. ?h v = ?h t) tm vm"
    using tagged_M.IH tagged_M.prems
    by (auto simp: list_all2_conv_all_nth list_all_length split: sum.splits)
  then have "traverse ?h vm = traverse ?h tm"
    by (rule traverse_list_all2)
  moreover have "\<forall>k\<in>set known_tags. map_of vm k = None"
    using tagged_M.prems by (simp add: list_all_iff)
  ultimately show ?case
    by (simp add: convert_dynamodb_value_untagged del: convert_dynamodb_value.simps(1))
       simp
qed simp_all

text \<open>
  C7 (as stated, refuted).  The claim: every untagged nested value is decoded recursively,
  with the result of its tagged form.  The decoder of the parallel importer returns the
  untagged map \<^verbatim>\<open>{'x': Decimal('5')}\<close> and the untagged list \<^verbatim>\<open>[Decimal('5')]\<close> unchanged, the
  \<^verbatim>\<open>Decimal\<close> still inside, while the tagged form of the map decodes to \<^verbatim>\<open>{'x': 5}\<close>.  The
  decoder of the sequential importer takes the untagged map \<^verbatim>\<open>{'S': Decimal('5')}\<close>, whose one
  key is the name of a tag, for a tagged string and returns the undecoded \<^verbatim>\<open>Decimal\<close>, while the
  tagged form of that map decodes to \<^verbatim>\<open>{'S': 5}\<close>.
\<close>

theorem untagged_nested_counterexample:
  "tagged (PDict [(''M'', PDict [(''x'', PDict [(''N'', PStr ''5'')])])])
          (PDict [(''x'', PDecimal (Dec False 5 0))])
   \<and> convert_dynamodb_item_fast [(''a'', PDict [(''x'', PDecimal (Dec False 5 0))])]
       = Inr [(''a'', PDict [(''x'', PDecimal (Dec False 5 0))])]
   \<and> convert_dynamodb_item_fast
         [(''a'', PDict [(''M'', PDict [(''x'', PDict [(''N'', PStr ''5'')])])])]
       = Inr [(''a'', PDict [(''x'', PInt 5)])]
   \<and> convert_dynamodb_item_fast [(''a'', PList [PDecimal (Dec False 5 0)])]
       = Inr [(''a'', PList [PDecimal (Dec False 5 0)])]
   \<and> tagged (PDict [(''M'', PDict [(''S'', PDict [(''N'', PStr ''5'')])])])
            (PDict [(''S'', PDecimal (Dec False 5 0))])
   \<and> convert_dynamodb_value (PDict [(''S'', PDecimal (Dec False 5 0))])
       = Inr (PDecimal (Dec False 5 0))
   \<and> convert_dynamodb_value (PDict [(''M'', PDict [(''S'', PDict [(''N'', PStr ''5'')])])])
       = Inr (PDict [(''S'', PInt 5)])"
proof -
  have p: "parse_decimal ''5'' = Some (Dec False 5 0)" by (simp add: decimal_eval)
  have t1: "tagged (PDict [(''M'', PDict [(''x'', PDict [(''N'', PStr ''5'')])])])
          (PDict [(''x'', PDecimal (Dec False 5 0))])"
    by (intro tagged.intros) (simp add: tagged.intros p)
  have t2: "tagged (PDict [(''M'', PDict [(''S'', PDict [(''N'', PStr ''5'')])])])
            (PDict [(''S'', PDecimal (Dec False 5 0))])"
    by (intro tagged.intros) (simp add: tagged.intros p)
  show ?thesis using t1 t2 by (simp add: decimal_eval)
qed

text \<open>
  C7 (amended).  In the sequential importer, let \<open>v\<close> be an untagged value built from maps,
  lists, strings, booleans, \<^verbatim>\<open>None\<close> and bare \<^verbatim>\<open>Decimal\<close>s in which no map has a key that is
  one of the ten tag names, and let \<open>t\<close> be its tagged form.  The decoder decodes \<open>v\<close> by its
  shape, a map member by member, a list element by element and a \<^verbatim>\<open>Decimal\<close> as a number,
  and gives for \<open>v\<close> the result that it gives for \<open>t\<close>, as a value and as the field of a
  record.
\<close>

theorem untagged_decodes_like_tagged:
  assumes "tagged t v" and "plain v"
  shows "convert_dynamodb_value v = convert_dynamodb_value t
       \<and> convert_dynamodb_item [(key, v)] = convert_dynamodb_item [(key, t)]
       \<and> convert_dynamodb_value v
           = (case v of
                PDict d \<Rightarrow> map_sum id PDict (convert_dynamodb_item d)
              | PList xs \<Rightarrow> map_sum id PList (traverse convert_dynamodb_value xs)
              | PDecimal x \<Rightarrow> int_or_float x
              | _ \<Rightarrow> Inr v)"
proof -
  have s: "convert_dynamodb_value v = convert_dynamodb_value t"
    using assms by (rule tagged_same_result)
  have i: "convert_dynamodb_item [(key, v)] = convert_dynamodb_item [(key, t)]"
    using s by (cases "convert_dynamodb_value t") simp_all
  have f: "convert_dynamodb_value v
           = (case v of
                PDict d \<Rightarrow> map_sum id PDict (convert_dynamodb_item d)
              | PList xs \<Rightarrow> map_sum id PList (traverse convert_dynamodb_value xs)
              | PDecimal x \<Rightarrow> int_or_float x
              | _ \<Rightarrow> Inr v)"
  proof (cases v)
    case (PDict d)
    with assms(2) have "\<forall>k\<in>set known_tags. map_of d k = None"
      by (simp add: list_all_iff)
    then have "convert_dynamodb_value (PDict d) = map_sum id PDict (convert_dynamodb_item d)"
      by (rule convert_dynamodb_value_untagged)
    with PDict show ?thesis by simp
  qed simp_all
  show ?thesis by (intro conjI) (rule s i f)+
qed

theorem untagged_decodes_like_tagged_witness:
  "plain (PDict [(''x'', PDecimal (Dec False 5 0)), (''ys'', PList [PStr ''a'', PNone])])
   \<and> convert_dynamodb_value
        (PDict [(''x'', PDecimal (Dec False 5 0)), (''ys'', PList [PStr ''a'', PNone])])
       = Inr (PDict [(''x'', PInt 5), (''ys'', PList [PStr ''a'', PNone])])
   \<and> convert_dynamodb_value
        (PDict [(''M'', PDict [(''x'', PDict [(''N'', PStr ''5'')]),
                               (''ys'', PDict [(''L'', PList [PDict [(''S'', PStr ''a'')],
                                                             PDict [(''NULL'', PBool True)]])])])])
       = Inr (PDict [(''x'', PInt 5), (''ys'', PList [PStr ''a'', PNone])])
   \<and> convert_dynamodb_item
        [(''a'', PDict [(''x'', PDecimal (Dec False 5 0)),
                        (''ys'', PList [PStr ''a'', PNone])])]
       = Inr [(''a'', PDict [(''x'', PInt 5), (''ys'', PList [PStr ''a'', PNone])])]"
proof -
  let ?v = "PDict [(''x'', PDecimal (Dec False 5 0)), (''ys'', PList [PStr ''a'', PNone])]"
  let ?t = "PDict [(''M'', PDict [(''x'', PDict [(''N'', PStr ''5'')]),
                               (''ys'', PDict [(''L'', PList [PDict [(''S'', PStr ''a'')],
                                                             PDict [(''NULL'', PBool True)]])])])]"
  have p: "parse_decimal ''5'' = Some (Dec False 5 0)" by (simp add: decimal_eval)
  have l: "tagged (PDict [(''L'', PList [PDict [(''S'', PStr ''a'')],
                                         PDict [(''NULL'', PBool True)]])])
                  (PList [PStr ''a'', PNone])"
    by (intro tagged.intros) (simp add: tagged.intros)
  have t: "tagged ?t ?v"
    by (intro tagged.intros) (simp add: tagged.intros p l)
  have pl: "plain ?v" by (simp add: known_tags_def)
  have v: "convert_dynamodb_value ?t
           = Inr (PDict [(''x'', PInt 5), (''ys'', PList [PStr ''a'', PNone])])"
    by (simp add: decimal_eval)
  have r: "convert_dynamodb_item [(''a'', ?t)]
           = Inr [(''a'', PDict [(''x'', PInt 5), (''ys'', PList [PStr ''a'', PNone])])]"
    by (simp add: decimal_eval)
  from untagged_decodes_like_tagged [OF t pl, of "''a''"] v r pl
  show ?thesis by (simp del: convert_dynamodb_value.simps convert_dynamodb_item.simps)
qed

end
